theory Spec2Isabelle
  imports Complex_Main "HOL-Library.Word"
begin

unbundle bit_operations_syntax

section \<open>Numbers, arrays and errors\<close>

text \<open>
  JavaScript numbers are modelled as reals, and the arithmetic of the source is kept
  operation by operation. There is no NaN and no infinity: a read outside an array,
  which gives \<^verbatim>\<open>undefined\<close> in the source, is the unspecified \<open>xs ! i\<close> here.
  Typed integer arrays (\<^verbatim>\<open>Uint32Array\<close>, \<^verbatim>\<open>Uint8Array\<close>) hold words of that width.
  The fields of a class become the fields of a record, prefixed with a short tag of
  the class, since several classes of the source share field names.

  Rounding is to the nearest number of the format, ties to even, with \<open>p\<close> significant
  bits and an unbounded exponent (no overflow and no subnormal numbers): \<open>double\<close> has
  53 bits and \<open>float32\<close>, the rounding of a store into a \<^verbatim>\<open>Float32Array\<close>, has 24. It is
  written out in \<^verbatim>\<open>sinePm\<close>, in the chain renderers of \<^verbatim>\<open>operator.js\<close> (every store into a
  \<^verbatim>\<open>Float32Array\<close>) and in the voice (its \<^verbatim>\<open>Float32Array\<close>s, \<^verbatim>\<open>oneHz\<close>, \<^verbatim>\<open>a0\<close> and the
  operator frequencies). The unit conversions, the envelopes, the LFO and the remaining
  double-precision arithmetic compute with the exact real.
\<close>

type_synonym u8 = "8 word"
type_synonym u32 = "32 word"
type_synonym u64 = "64 word"

datatype error =
  BadVoiceLength | BadBankLength | BadBankHeader | BadOperatorIndex
  | TypeError \<comment> \<open>a property read on \<^verbatim>\<open>undefined\<close>\<close>
  | Diverges \<comment> \<open>a loop that never ends\<close>

definition uint32_of_int :: "int \<Rightarrow> u32" where
  \<comment> \<open>\<^verbatim>\<open>x >>> 0\<close> on an integral number: reduction modulo \<open>2 ^ 32\<close>.\<close>
  "uint32_of_int x = word_of_int (x mod 2 ^ 32)"

definition js_trunc :: "real \<Rightarrow> int" where
  \<comment> \<open>The integer part of a number, rounding towards zero.\<close>
  "js_trunc x = (if 0 \<le> x then \<lfloor>x\<rfloor> else \<lceil>x\<rceil>)"

definition to_uint32 :: "real \<Rightarrow> u32" where
  \<comment> \<open>\<^verbatim>\<open>x >>> 0\<close>: truncate towards zero, then reduce modulo \<open>2 ^ 32\<close>.\<close>
  "to_uint32 x = uint32_of_int (js_trunc x)"

definition round_half_even :: "real \<Rightarrow> int" where
  \<comment> \<open>The nearest integer, a tie going to the even one.\<close>
  "round_half_even y =
     (let n = \<lfloor>y\<rfloor>; d = y - of_int n
      in if d < 1 / 2 then n else if 1 / 2 < d then n + 1 else if even n then n else n + 1)"

definition round_to :: "nat \<Rightarrow> real \<Rightarrow> real" where
  \<comment> \<open>The nearest number with \<open>p\<close> significant bits: \<open>e\<close> is the binary exponent of \<open>x\<close>
      and \<open>u\<close> the distance between neighbouring numbers of the format around \<open>x\<close>.\<close>
  "round_to p x =
     (if x = 0 then 0
      else let e = \<lfloor>log 2 \<bar>x\<bar>\<rfloor>;
               u = 2 powr of_int (e - int p + 1)
           in u * of_int (round_half_even (x / u)))"

definition double :: "real \<Rightarrow> real" where
  "double = round_to 53"

definition float32 :: "real \<Rightarrow> real" where
  \<comment> \<open>What a \<^verbatim>\<open>Float32Array\<close> holds after a store.\<close>
  "float32 = round_to 24"

definition slice :: "'a list \<Rightarrow> nat \<Rightarrow> nat \<Rightarrow> 'a list" where
  \<comment> \<open>\<^verbatim>\<open>xs.slice(b, e)\<close> for non-negative bounds.\<close>
  "slice xs b e = take (e - b) (drop b xs)"

text \<open>
  A \<^verbatim>\<open>Float32Array\<close> view: the array it looks into, where it begins there and how
  long it is. Two views of one array share their cells.
\<close>

type_synonym memory = "real list list"

record View =
  v_array :: nat
  v_begin :: nat
  v_length :: nat


definition subarray :: "View \<Rightarrow> nat \<Rightarrow> nat \<Rightarrow> View" where
  \<comment> \<open>\<^verbatim>\<open>v.subarray(b, e)\<close>: both bounds are clamped to the length of \<open>v\<close>.\<close>
  "subarray v b e =
     (let b' = min b (v_length v); e' = min e (v_length v)
      in \<lparr>v_array = v_array v, v_begin = v_begin v + b', v_length = e' - b'\<rparr>)"

definition view_get :: "memory \<Rightarrow> View \<Rightarrow> nat \<Rightarrow> real" where
  "view_get mem v i = mem ! v_array v ! (v_begin v + i)"

definition view_set :: "memory \<Rightarrow> View \<Rightarrow> nat \<Rightarrow> real \<Rightarrow> memory" where
  \<comment> \<open>A store is rounded to single precision; outside the typed array it is ignored.\<close>
  "view_set mem v i x =
     (if i < v_length v then mem[v_array v := (mem ! v_array v)[v_begin v + i := float32 x]]
      else mem)"

section \<open>stmlib/dsp.js\<close>

definition SINE_LUT_SIZE :: real where "SINE_LUT_SIZE = 512"
definition SINE_LUT_BITS :: nat where "SINE_LUT_BITS = 9"

definition LUT_SINE :: "real list" where
  \<comment> \<open>Modelled from the spec: the sine table of \<^verbatim>\<open>sine_lut.js\<close>, which is not among the
      sources: 513 entries, one period in 512 steps and the first entry repeated at the
      end. The functions below take the table as their first argument.\<close>
  "LUT_SINE = map (\<lambda>i. sin (2 * pi * real i / 512)) [0..<513]"

definition interpolate :: "real list \<Rightarrow> real \<Rightarrow> real \<Rightarrow> real" where
  "interpolate table index sz =
     (let index = index * sz;
          indexIntegral = min \<lfloor>index\<rfloor> (int (length table) - 2);
          indexFractional = index - of_int indexIntegral;
          a = table ! nat indexIntegral;
          b = table ! nat (indexIntegral + 1)
      in a + (b - a) * indexFractional)"

definition interpolateWrap :: "real list \<Rightarrow> real \<Rightarrow> real \<Rightarrow> real" where
  "interpolateWrap table index sz =
     (let index = index - of_int \<lfloor>index\<rfloor>;
          index = index * sz;
          indexIntegral = \<lfloor>index\<rfloor>;
          indexFractional = index - of_int indexIntegral;
          a = table ! nat indexIntegral;
          b = table ! nat (indexIntegral + 1)
      in a + (b - a) * indexFractional)"

definition semitonesToRatio :: "real \<Rightarrow> real" where
  "semitonesToRatio semitones = 2 powr (semitones / 12)"

function scale_down :: "real \<Rightarrow> real \<Rightarrow> real \<times> real" where
  \<comment> \<open>\<^verbatim>\<open>while (semitones > 120.0) { semitones -= 120.0; scale *= 1024.0; }\<close>\<close>
  "scale_down semitones scale =
     (if semitones > 120 then scale_down (semitones - 120) (scale * 1024) else (semitones, scale))"
  by pat_completeness auto
termination
proof (relation "measure (\<lambda>(s, _). nat \<lceil>s\<rceil>)")
  show "wf (measure (\<lambda>(s :: real, _ :: real). nat \<lceil>s\<rceil>))" by simp
next
  fix semitones scale :: real
  assume "120 < semitones"
  then have "\<lceil>semitones - 120\<rceil> < \<lceil>semitones\<rceil>" and "0 < \<lceil>semitones\<rceil>"
    by linarith+
  then show "((semitones - 120, scale * 1024), (semitones, scale))
      \<in> measure (\<lambda>(s, _). nat \<lceil>s\<rceil>)"
    by simp
qed

declare scale_down.simps [simp del]

function scale_up :: "real \<Rightarrow> real \<Rightarrow> real \<times> real" where
  \<comment> \<open>\<^verbatim>\<open>while (semitones < -120.0) { semitones += 120.0; scale *= 1.0 / 1024.0; }\<close>\<close>
  "scale_up semitones scale =
     (if semitones < - 120 then scale_up (semitones + 120) (scale * (1 / 1024))
      else (semitones, scale))"
  by pat_completeness auto
termination
proof (relation "measure (\<lambda>(s, _). nat \<lceil>- s\<rceil>)")
  show "wf (measure (\<lambda>(s :: real, _ :: real). nat \<lceil>- s\<rceil>))" by simp
next
  fix semitones scale :: real
  assume "semitones < - 120"
  then have "\<lceil>- (semitones + 120)\<rceil> < \<lceil>- semitones\<rceil>" and "0 < \<lceil>- semitones\<rceil>"
    by linarith+
  then show "((semitones + 120, scale * (1 / 1024)), (semitones, scale))
      \<in> measure (\<lambda>(s, _). nat \<lceil>- s\<rceil>)"
    by simp
qed

declare scale_up.simps [simp del]

definition semitonesToRatioSafe :: "real \<Rightarrow> real" where
  "semitonesToRatioSafe semitones =
     (let (semitones, scale) = scale_down semitones 1;
          (semitones, scale) = scale_up semitones scale
      in scale * semitonesToRatio semitones)"

definition sine :: "real list \<Rightarrow> real \<Rightarrow> real" where
  "sine lut phase = interpolateWrap lut phase SINE_LUT_SIZE"

definition MAX_UINT32 :: real where "MAX_UINT32 = 4294967296"
definition MAX_INDEX :: int where "MAX_INDEX = 32"

definition sinePm_phase :: "u32 \<Rightarrow> real \<Rightarrow> u32" where
  \<comment> \<open>The modulated phase of \<^verbatim>\<open>sinePm\<close>: its lines up to the wrapping addition. The sum
      and the product of the phase offset are rounded; \<^verbatim>\<open>phase + phaseOffset * multiplier\<close>
      is an integer below \<open>2\<^sup>3\<^sup>9\<close>, which double precision holds exactly.\<close>
  "sinePm_phase phase pm =
     (let OFFSET = of_int MAX_INDEX;
          SCALE = MAX_UINT32 / (of_int MAX_INDEX * 2);
          phaseOffset = to_uint32 (double (double (pm + OFFSET) * SCALE));
          multiplier = uint32_of_int (MAX_INDEX * 2)
      in uint32_of_int (uint phase + uint phaseOffset * uint multiplier))"

definition sinePm :: "real list \<Rightarrow> u32 \<Rightarrow> real \<Rightarrow> real" where
  "sinePm lut phase pm =
     (let phase = sinePm_phase phase pm;
          integral = unat (drop_bit (32 - SINE_LUT_BITS) phase AND 0x1FF);
          fractional = real (unat (push_bit SINE_LUT_BITS phase)) / MAX_UINT32;
          a = lut ! integral;
          b = lut ! (integral + 1)
      in a + (b - a) * fractional)"

section \<open>fm/operator.js\<close>

record Operator =
  op_phase :: u32
  op_amplitude :: real

definition Operator_new :: Operator where
  "Operator_new = \<lparr>op_phase = 0, op_amplitude = 0\<rparr>"

definition Operator_reset :: "Operator \<Rightarrow> Operator" where
  "Operator_reset o' = o'\<lparr>op_phase := 0, op_amplitude := 0\<rparr>"

definition phase_advance :: "u32 \<Rightarrow> u32 \<Rightarrow> u32" where
  \<comment> \<open>\<^verbatim>\<open>phase[i] = (phase[i] + frequency[i]) >>> 0\<close>\<close>
  "phase_advance phase frequency = uint32_of_int (uint phase + uint frequency)"

text \<open>The locals of one call of a chain renderer, and its two nested loops.\<close>

record chain =
  c_phase :: "u32 list"
  c_amplitude :: "real list"
  c_previous0 :: real
  c_previous1 :: real
  c_pm :: real

function operator_loop ::
  "real list \<Rightarrow> nat \<Rightarrow> int \<Rightarrow> u32 list \<Rightarrow> real list \<Rightarrow> nat \<Rightarrow> chain \<Rightarrow> chain" where
  "operator_loop lut N MODULATION_SOURCE frequency amplitudeIncrement i c =
     (if i < N then
        let phase = (c_phase c)[i := phase_advance (c_phase c ! i) (frequency ! i)];
            pm = sinePm lut (phase ! i) (c_pm c) * (c_amplitude c ! i);
            amplitude = (c_amplitude c)[i := float32 (c_amplitude c ! i + amplitudeIncrement ! i)];
            c = c\<lparr>c_phase := phase, c_amplitude := amplitude, c_pm := pm\<rparr>;
            c = (if int i = MODULATION_SOURCE
                 then c\<lparr>c_previous1 := c_previous0 c, c_previous0 := pm\<rparr> else c)
        in operator_loop lut N MODULATION_SOURCE frequency amplitudeIncrement (i + 1) c
      else c)"
  by pat_completeness auto
termination
  by (relation "measure (\<lambda>(lut, N, ms, fr, ai, i, c). N - i)") auto

declare operator_loop.simps [simp del]

function sample_loop ::
  "real list \<Rightarrow> nat \<Rightarrow> int \<Rightarrow> bool \<Rightarrow> u32 list \<Rightarrow> real list \<Rightarrow> real \<Rightarrow> View \<Rightarrow> View
     \<Rightarrow> nat \<Rightarrow> nat \<Rightarrow> chain \<times> memory \<Rightarrow> chain \<times> memory" where
  "sample_loop lut N MODULATION_SOURCE ADDITIVE frequency amplitudeIncrement fbScale
       modulation out bsize sampleIdx cm =
     (if sampleIdx < bsize then
        let (c, mem) = cm;
            pm = (if MODULATION_SOURCE \<ge> 0 then (c_previous0 c + c_previous1 c) * fbScale
                  else if MODULATION_SOURCE = - 2 then view_get mem modulation sampleIdx
                  else 0);
            c = operator_loop lut N MODULATION_SOURCE frequency amplitudeIncrement 0
                  (c\<lparr>c_pm := pm\<rparr>);
            mem = (if ADDITIVE
                   then view_set mem out sampleIdx (view_get mem out sampleIdx + c_pm c)
                   else view_set mem out sampleIdx (c_pm c))
        in sample_loop lut N MODULATION_SOURCE ADDITIVE frequency amplitudeIncrement fbScale
             modulation out bsize (sampleIdx + 1) (c, mem)
      else cm)"
  by pat_completeness auto
termination
  by (relation "measure (\<lambda>(lut, N, ms, ad, fr, ai, fb, m, out, bsize, k, cm). bsize - k)") auto

declare sample_loop.simps [simp del]

definition renderOperators ::
  "nat \<Rightarrow> int \<Rightarrow> bool \<Rightarrow> real list \<Rightarrow> Operator list \<Rightarrow> real list \<Rightarrow> real list \<Rightarrow> real list
     \<Rightarrow> nat \<Rightarrow> View \<Rightarrow> View \<Rightarrow> memory \<Rightarrow> error + (Operator list \<times> real list \<times> memory)" where
  \<comment> \<open>The renderer \<^verbatim>\<open>renderOperators(N, MODULATION_SOURCE, ADDITIVE)\<close> applied to its seven
      arguments; \<open>ops\<close>, \<open>fbState\<close> and the memory behind the views come back updated.
      \<^verbatim>\<open>ops[i].phase\<close> on a missing operator throws before anything is stored.
      \<^verbatim>\<open>1 << fbAmount\<close> is a shift of a signed 32-bit integer by \<open>fbAmount mod 32\<close>.\<close>
  "renderOperators N MODULATION_SOURCE ADDITIVE lut ops f a fbState fbAmount modulation out mem =
     (if length ops < N then Inl TypeError
      else
        let bsize = v_length out;
            previous0 = (if MODULATION_SOURCE \<ge> 0 then fbState ! 0 else 0);
            previous1 = (if MODULATION_SOURCE \<ge> 0 then fbState ! 1 else 0);
            scale = 1 / real bsize;
            frequency = map (\<lambda>i. to_uint32 (min (f ! i) 0.5 * 4294967296)) [0..<N];
            phase = map (\<lambda>i. op_phase (ops ! i)) [0..<N];
            amplitude = map (\<lambda>i. float32 (op_amplitude (ops ! i))) [0..<N];
            amplitudeIncrement =
              map (\<lambda>i. float32 ((min (a ! i) 4 - amplitude ! i) * scale)) [0..<N];
            fbScale = (if fbAmount \<noteq> 0
                       then real_of_int (sint (push_bit (fbAmount mod 32) (1 :: u32))) / 512
                       else 0);
            (c, mem) = sample_loop lut N MODULATION_SOURCE ADDITIVE frequency amplitudeIncrement
                         fbScale modulation out bsize 0
                         (\<lparr>c_phase = phase, c_amplitude = amplitude, c_previous0 = previous0,
                           c_previous1 = previous1, c_pm = 0\<rparr>, mem);
            ops = map (\<lambda>i. if i < N
                     then (ops ! i)\<lparr>op_phase := c_phase c ! i, op_amplitude := c_amplitude c ! i\<rparr>
                     else ops ! i) [0..<length ops];
            fbState = (if MODULATION_SOURCE \<ge> 0
                       then fbState[0 := float32 (c_previous0 c), 1 := float32 (c_previous1 c)]
                       else fbState)
        in Inr (ops, fbState, mem))"

text \<open>
  One renderer called block after block on the same operators and feedback state, as
  the voice calls it: a block is the arrays \<open>f\<close> and \<open>a\<close>, the feedback amount and the
  views \<open>modulation\<close> and \<open>out\<close> of one call.
\<close>

fun renderOperators_blocks ::
  "nat \<Rightarrow> int \<Rightarrow> bool \<Rightarrow> real list \<Rightarrow> (real list \<times> real list \<times> nat \<times> View \<times> View) list
     \<Rightarrow> Operator list \<times> real list \<times> memory \<Rightarrow> error + (Operator list \<times> real list \<times> memory)" where
  "renderOperators_blocks N MODULATION_SOURCE ADDITIVE lut [] st = Inr st"
| "renderOperators_blocks N MODULATION_SOURCE ADDITIVE lut ((f, a, fbAmount, modulation, out) # rest)
       (ops, fbState, mem) =
     (case renderOperators N MODULATION_SOURCE ADDITIVE lut ops f a fbState fbAmount modulation
             out mem of
        Inl e \<Rightarrow> Inl e
      | Inr st \<Rightarrow> renderOperators_blocks N MODULATION_SOURCE ADDITIVE lut rest st)"

definition accumulate :: "u32 \<Rightarrow> u32 list \<Rightarrow> u32" where
  \<comment> \<open>The phase of one operator after the sample loop has advanced it by each increment
      of the list in turn.\<close>
  "accumulate p incs = foldl phase_advance p incs"

definition accumulate_u64 :: "u32 \<Rightarrow> u32 list \<Rightarrow> u64" where
  \<comment> \<open>The reference: the same sum in a 64-bit accumulator.\<close>
  "accumulate_u64 p incs = foldl (\<lambda>acc i. acc + ucast i) (ucast p) incs"

section \<open>fm/dx_units.js\<close>

definition LUT_COARSE :: "real list" where
  "LUT_COARSE =
     [-12.000000, 0.000000, 12.000000, 19.019550, 24.000000, 27.863137,
      31.019550, 33.688259, 36.000000, 38.039100, 39.863137, 41.513180,
      43.019550, 44.405276, 45.688259, 46.882687, 48.000000, 49.049554,
      50.039100, 50.975130, 51.863137, 52.707809, 53.513180, 54.282743,
      55.019550, 55.726274, 56.405276, 57.058650, 57.688259, 58.295772,
      58.882687, 59.450356]"

definition LUT_AMP_MOD_SENSITIVITY :: "real list" where
  "LUT_AMP_MOD_SENSITIVITY = [0.0, 0.2588, 0.4274, 1.0]"


definition LUT_CUBE_ROOT :: "real list" where
  "LUT_CUBE_ROOT =
     [0.0, 0.39685062976, 0.50000000000, 0.57235744065, 0.62996081605,
      0.67860466725, 0.72112502092, 0.75914745216, 0.79370070937, 0.82548197054,
      0.85498810729, 0.88258719406, 0.90856038354, 0.93312785379, 0.95646563396,
      0.97871693135, 1.0]"

definition MIN_LFO_FREQUENCY :: real where
  "MIN_LFO_FREQUENCY = 0.005865"

definition pow2Fast :: "real \<Rightarrow> nat \<Rightarrow> real" where
  "pow2Fast x order =
     (if order = 1 then 2 powr x
      else
        let xIntegral = \<lfloor>x\<rfloor>;
            xIntegral = (if x < 0 then xIntegral - 1 else xIntegral);
            x = x - of_int xIntegral;
            result = (if order = 2 then 1 + x * (0.6565 + x * 0.3435)
                      else 1 + x * (0.6958 + x * (0.2251 + x * 0.0791)))
        in result * 2 powr of_int xIntegral)"

text \<open>
  The integer operators \<^verbatim>\<open>>>\<close>, \<^verbatim>\<open><<\<close> and \<^verbatim>\<open>&\<close> of the unit conversions act on
  patch parameters, which are small and not negative: they are \<open>drop_bit\<close>, \<open>push_bit\<close>
  and \<open>AND\<close> on naturals, where no 32-bit wrap-around can happen.
\<close>

definition operatorLevel :: "nat \<Rightarrow> nat" where
  "operatorLevel level =
     (let tlc = level
      in if level < 20 then (if tlc < 15 then drop_bit 3 (tlc * (36 - tlc)) else 27 + tlc)
         else tlc + 28)"

definition pitchEnvelopeLevel :: "real \<Rightarrow> real" where
  "pitchEnvelopeLevel level =
     (let l = (level - 50) / 32;
          tail = max (\<bar>l\<bar> + 0.02 - 1) 0
      in l * (1 + tail * tail * 5.3056))"

definition operatorEnvelopeIncrement :: "nat \<Rightarrow> real" where
  "operatorEnvelopeIncrement rate =
     (let rateScaled = drop_bit 6 (rate * 41);
          mantissa = 4 + (rateScaled AND 3);
          exponent = 2 + drop_bit 2 rateScaled
      in real (push_bit exponent mantissa) / real (push_bit 24 1))"

definition pitchEnvelopeIncrement :: "real \<Rightarrow> real" where
  "pitchEnvelopeIncrement rate =
     (let r = rate * 0.01
      in (1 + 192 * r * (r * r * r * r + 0.3333)) / (21.3 * 44100))"

definition lfoFrequency :: "nat \<Rightarrow> real" where
  "lfoFrequency rate =
     (let rateScaled = (if rate = 0 then 1 else drop_bit 6 (rate * 165));
          rateScaled = rateScaled * (if rateScaled < 160 then 11
                                     else 11 + drop_bit 4 (rateScaled - 160))
      in real rateScaled * MIN_LFO_FREQUENCY)"

definition lfoDelay :: "nat \<Rightarrow> real list" where
  \<comment> \<open>For a delay of at most 99, as every decoded patch has it.\<close>
  "lfoDelay delay =
     (if delay = 0 then [100000, 100000]
      else
        let d = 99 - delay;
            dScaled = push_bit (1 + drop_bit 4 d) (16 + (d AND 15));
            inc0 = real dScaled * MIN_LFO_FREQUENCY;
            inc1 = real (max 0x80 (dScaled AND 0xff80)) * MIN_LFO_FREQUENCY
        in [inc0, inc1])"

definition normalizeVelocity :: "real \<Rightarrow> real" where
  "normalizeVelocity velocity =
     (let cubeRoot = interpolate LUT_CUBE_ROOT velocity 16 in 16 * (cubeRoot - 0.918))"

definition rateScaling :: "real \<Rightarrow> nat \<Rightarrow> real" where
  "rateScaling note rs = pow2Fast (real rs * (note * 0.33333 - 7) * 0.03125) 1"

definition ampModSensitivity :: "nat \<Rightarrow> real" where
  "ampModSensitivity k = LUT_AMP_MOD_SENSITIVITY ! k"


section \<open>fm/patch.js\<close>

definition SYX_SIZE :: nat where "SYX_SIZE = 128"
definition BANK_PATCHES :: nat where "BANK_PATCHES = 32"
definition HEADER_BANK :: "u8 list" where "HEADER_BANK = [0xF0, 0x43, 0x00, 0x09, 0x20, 0x00]"
definition BULK_FULL_SYSEX_SIZE :: nat where "BULK_FULL_SYSEX_SIZE = 4104"

record OpEnvelope =
  oe_rate :: "nat list"
  oe_level :: "nat list"

record Patch_PitchEnvelope =
  pe_rate :: "nat list"
  pe_level :: "nat list"

record KeyboardScaling =
  ks_breakPoint :: nat
  ks_leftDepth :: nat
  ks_rightDepth :: nat
  ks_leftCurve :: nat
  ks_rightCurve :: nat

record Patch_Operator =
  po_envelope :: OpEnvelope
  po_keyboardScaling :: KeyboardScaling
  po_rateScaling :: nat
  po_ampModSensitivity :: nat
  po_velocitySensitivity :: nat
  po_level :: nat
  po_mode :: nat
  po_coarse :: nat
  po_fine :: nat
  po_detune :: nat

record ModulationParameters =
  mp_rate :: nat
  mp_delay :: nat
  mp_pitchModDepth :: nat
  mp_ampModDepth :: nat
  mp_resetPhase :: nat
  mp_waveform :: nat
  mp_pitchModSensitivity :: nat

record Patch =
  p_op :: "Patch_Operator list"
  p_pitchEnvelope :: Patch_PitchEnvelope
  p_algorithm :: nat
  p_feedback :: nat
  p_resetPhase :: nat
  p_modulations :: ModulationParameters
  p_transpose :: nat
  p_name :: string
  p_activeOperators :: nat

definition OpEnvelope_new :: OpEnvelope where
  "OpEnvelope_new = \<lparr>oe_rate = [99, 99, 99, 99], oe_level = [99, 99, 99, 0]\<rparr>"

definition Patch_PitchEnvelope_new :: Patch_PitchEnvelope where
  "Patch_PitchEnvelope_new = \<lparr>pe_rate = [99, 99, 99, 99], pe_level = [50, 50, 50, 50]\<rparr>"

definition KeyboardScaling_new :: KeyboardScaling where
  "KeyboardScaling_new =
     \<lparr>ks_breakPoint = 0, ks_leftDepth = 0, ks_rightDepth = 0, ks_leftCurve = 0,
      ks_rightCurve = 0\<rparr>"

definition Patch_Operator_new :: Patch_Operator where
  "Patch_Operator_new =
     \<lparr>po_envelope = OpEnvelope_new, po_keyboardScaling = KeyboardScaling_new,
      po_rateScaling = 0, po_ampModSensitivity = 0, po_velocitySensitivity = 0, po_level = 0,
      po_mode = 0, po_coarse = 0, po_fine = 0, po_detune = 0\<rparr>"

definition ModulationParameters_new :: ModulationParameters where
  "ModulationParameters_new =
     \<lparr>mp_rate = 0, mp_delay = 0, mp_pitchModDepth = 0, mp_ampModDepth = 0, mp_resetPhase = 0,
      mp_waveform = 0, mp_pitchModSensitivity = 0\<rparr>"

definition Patch_new :: Patch where
  "Patch_new =
     \<lparr>p_op = replicate 6 Patch_Operator_new, p_pitchEnvelope = Patch_PitchEnvelope_new,
      p_algorithm = 31, p_feedback = 0, p_resetPhase = 0,
      p_modulations = ModulationParameters_new, p_transpose = 0,
      p_name = replicate 10 (CHR '' ''), p_activeOperators = 0x3f\<rparr>"

definition setOp :: "Patch \<Rightarrow> int \<Rightarrow> Patch_Operator \<Rightarrow> error + Patch" where
  "setOp this idx operator =
     (if idx < 1 \<or> idx > 6 then Inl BadOperatorIndex
      else let actualIdx = nat (6 - idx) in Inr (this\<lparr>p_op := (p_op this)[actualIdx := operator]\<rparr>))"

definition keyboardScaling :: "real \<Rightarrow> KeyboardScaling \<Rightarrow> real" where
  "keyboardScaling note ks =
     (let x = note - real (ks_breakPoint ks) - 15;
          curve = (if x > 0 then ks_rightCurve ks else ks_leftCurve ks);
          t = \<bar>x\<bar>;
          t = (if curve = 1 \<or> curve = 2
               then (let t = min (t * 0.010467) 1; t = t * t * t in t * 96) else t);
          t = (if curve < 2 then - t else t);
          depth = (if x > 0 then ks_rightDepth ks else ks_leftDepth ks)
      in t * real depth * 0.02677)"

definition frequencyRatio :: "Patch_Operator \<Rightarrow> real" where
  "frequencyRatio op =
     (let detune = (if po_mode op = 0 \<and> po_fine op \<noteq> 0 then 1 + 0.01 * real (po_fine op) else 1);
          base = (if po_mode op = 0 then LUT_COARSE ! po_coarse op
                  else real ((po_coarse op AND 3) * 100 + po_fine op) * 0.39864);
          base = base + (real (po_detune op) - 7) * 0.015
      in semitonesToRatioSafe base * detune)"

text \<open>
  A byte of the input is a \<open>u8\<close>; \<open>masked b k m\<close> is \<^verbatim>\<open>(b >> k) & m\<close> as a number.
\<close>

definition masked :: "u8 \<Rightarrow> nat \<Rightarrow> u8 \<Rightarrow> nat" where
  "masked b k m = unat (drop_bit k b AND m)"

definition unpack_operator :: "u8 list \<Rightarrow> Patch_Operator \<Rightarrow> Patch_Operator" where
  \<comment> \<open>The body of the operator loop of \<^verbatim>\<open>unpack\<close>, on \<^verbatim>\<open>opData = data.slice(i * 17)\<close>.\<close>
  "unpack_operator opData opr =
     (let env = po_envelope opr;
          env = fold (\<lambda>j env.
                  env\<lparr>oe_rate := (oe_rate env)[j := min (masked (opData ! j) 0 0x7f) 99],
                      oe_level := (oe_level env)[j := min (masked (opData ! (4 + j)) 0 0x7f) 99]\<rparr>)
                [0, 1, 2, 3] env;
          ks = po_keyboardScaling opr;
          ks = ks\<lparr>ks_breakPoint := min (masked (opData ! 8) 0 0x7f) 99,
                  ks_leftDepth := min (masked (opData ! 9) 0 0x7f) 99,
                  ks_rightDepth := min (masked (opData ! 10) 0 0x7f) 99,
                  ks_leftCurve := masked (opData ! 11) 0 0x3,
                  ks_rightCurve := masked (opData ! 11) 2 0x3\<rparr>
      in opr\<lparr>po_envelope := env,
           po_keyboardScaling := ks,
           po_rateScaling := masked (opData ! 12) 0 0x7,
           po_ampModSensitivity := masked (opData ! 13) 0 0x3,
           po_velocitySensitivity := masked (opData ! 13) 2 0x7,
           po_level := min (masked (opData ! 14) 0 0x7f) 99,
           po_mode := masked (opData ! 15) 0 0x1,
           po_coarse := masked (opData ! 15) 1 0x1f,
           po_fine := min (masked (opData ! 16) 0 0x7f) 99,
           po_detune := min (masked (opData ! 12) 3 0xf) 14\<rparr>)"

definition unpack :: "Patch \<Rightarrow> u8 list \<Rightarrow> error + Patch" where
  "unpack this data =
     (if length data \<noteq> SYX_SIZE then Inl BadVoiceLength
      else
        let ops = fold (\<lambda>i ops. ops[i := unpack_operator (drop (i * 17) data) (ops ! i)])
                    [0, 1, 2, 3, 4, 5] (p_op this);
            pe = fold (\<lambda>j pe.
                   pe\<lparr>pe_rate := (pe_rate pe)[j := min (masked (data ! (102 + j)) 0 0x7f) 99],
                      pe_level := (pe_level pe)[j := min (masked (data ! (106 + j)) 0 0x7f) 99]\<rparr>)
                 [0, 1, 2, 3] (p_pitchEnvelope this);
            m = p_modulations this;
            m = m\<lparr>mp_rate := min (masked (data ! 112) 0 0x7f) 99,
                  mp_delay := min (masked (data ! 113) 0 0x7f) 99,
                  mp_pitchModDepth := min (masked (data ! 114) 0 0x7f) 99,
                  mp_ampModDepth := min (masked (data ! 115) 0 0x7f) 99,
                  mp_resetPhase := masked (data ! 116) 0 0x1,
                  mp_waveform := min (masked (data ! 116) 1 0x7) 5,
                  mp_pitchModSensitivity := unat (drop_bit 4 (data ! 116))\<rparr>
        in Inr (this\<lparr>p_op := ops,
                     p_pitchEnvelope := pe,
                     p_algorithm := masked (data ! 110) 0 0x1f,
                     p_feedback := masked (data ! 111) 0 0x7,
                     p_resetPhase := masked (data ! 111) 3 0x1,
                     p_modulations := m,
                     p_transpose := min (masked (data ! 117) 0 0x7f) 48,
                     p_name := fold (\<lambda>i name.
                                 name[i := char_of (masked (data ! (118 + i)) 0 0x7f)])
                               [0, 1, 2, 3, 4, 5, 6, 7, 8, 9] (p_name this),
                     p_activeOperators := 0x3f\<rparr>))"

definition fromBytes :: "u8 list \<Rightarrow> error + Patch" where
  "fromBytes data = unpack Patch_new data"

fun parse_patches :: "u8 list \<Rightarrow> nat list \<Rightarrow> Patch list \<Rightarrow> error + Patch list" where
  \<comment> \<open>The loop of the bank constructor over the patch indices still to be read.\<close>
  "parse_patches patchData [] patches = Inr patches"
| "parse_patches patchData (idx # rest) patches =
     (let start = idx * SYX_SIZE; end' = (idx + 1) * SYX_SIZE
      in case fromBytes (slice patchData start end') of
           Inl e \<Rightarrow> Inl e
         | Inr patch \<Rightarrow> parse_patches patchData rest (patches @ [patch]))"

definition header_matches :: "u8 list \<Rightarrow> bool" where
  \<comment> \<open>No index below 6 takes the throwing branch of the header loop.\<close>
  "header_matches data = list_all (\<lambda>i. data ! i = HEADER_BANK ! i) [0, 1, 2, 3, 4, 5]"

definition PatchBank :: "u8 list \<Rightarrow> error + Patch list" where
  "PatchBank data =
     (if length data \<noteq> BULK_FULL_SYSEX_SIZE then Inl BadBankLength
      else if \<not> header_matches data then Inl BadBankHeader
      else parse_patches (slice data 6 (length data)) [0..<BANK_PATCHES] [])"

section \<open>fm/envelope.js\<close>

definition PREVIOUS_LEVEL :: real where
  "PREVIOUS_LEVEL = - 100"

text \<open>
  The stage of an envelope and its number of stages are integers, so that
  \<^verbatim>\<open>numStages - 1\<close> is what it is in the source also for an envelope without stages.
  A division by an increment of zero is infinite in the source and zero here; the
  increments the unit conversions produce are positive.
\<close>

record Envelope =
  e_numStages :: int
  e_reshapeAscending :: bool
  e_stage :: int
  e_phase :: real
  e_start :: real
  e_increment :: "real list"
  e_level :: "real list"
  e_scale :: real

definition Envelope_new :: "int \<Rightarrow> bool \<Rightarrow> Envelope" where
  "Envelope_new numStages reshapeAscending =
     \<lparr>e_numStages = numStages, e_reshapeAscending = reshapeAscending,
      e_stage = numStages - 1, e_phase = 1, e_start = 0,
      e_increment = replicate (nat numStages) 0.001,
      e_level = (map (\<lambda>i. 1 / 2 ^ i) [0..<nat numStages])[nat (numStages - 1) := 0],
      e_scale = 1\<rparr>"

definition Envelope_init :: "Envelope \<Rightarrow> real \<Rightarrow> Envelope" where
  "Envelope_init this scale =
     this\<lparr>e_scale := scale, e_stage := e_numStages this - 1, e_phase := 1, e_start := 0,
          e_increment := map (\<lambda>i. 0.001) [0..<length (e_increment this)],
          e_level := (map (\<lambda>i. 1 / 2 ^ i) [0..<length (e_level this)])
                       [nat (e_numStages this - 1) := 0]\<rparr>"

definition Envelope_set :: "Envelope \<Rightarrow> real list \<Rightarrow> real list \<Rightarrow> Envelope" where
  "Envelope_set this increment level =
     fold (\<lambda>i this. this\<lparr>e_increment := (e_increment this)[i := increment ! i],
                           e_level := (e_level this)[i := level ! i]\<rparr>)
       [0..<nat (e_numStages this)] this"

definition valueAt :: "Envelope \<Rightarrow> int \<Rightarrow> real \<Rightarrow> real \<Rightarrow> real" where
  "valueAt this stage phase startLevel =
     (let from = (if startLevel = PREVIOUS_LEVEL
                  then e_level this ! nat ((stage + e_numStages this - 1) mod e_numStages this)
                  else startLevel);
          to = e_level this ! nat stage
      in if e_reshapeAscending this \<and> from < to
         then (let from = max from 6.7; to = max to 6.7;
                   phase = phase * ((2.5 - phase) * 0.666667)
               in phase * (to - from) + from)
         else phase * (to - from) + from)"

definition Envelope_value :: "Envelope \<Rightarrow> real" where
  "Envelope_value this = valueAt this (e_stage this) (e_phase this) (e_start this)"

definition renderScaled :: "Envelope \<Rightarrow> bool \<Rightarrow> real \<Rightarrow> real \<Rightarrow> real \<Rightarrow> real \<times> Envelope" where
  \<comment> \<open>The returned value, and the envelope as the call leaves it.\<close>
  "renderScaled this gate rate adScale releaseScale =
     (let this =
            (if gate then
               (if e_stage this = e_numStages this - 1
                then this\<lparr>e_start := Envelope_value this, e_stage := 0, e_phase := 0\<rparr>
                else this)
             else
               (if e_stage this \<noteq> e_numStages this - 1
                then this\<lparr>e_start := Envelope_value this, e_stage := e_numStages this - 1, e_phase := 0\<rparr>
                else this));
          scaleFactor = (if e_stage this = e_numStages this - 1 then releaseScale else adScale);
          this = this\<lparr>e_phase :=
                   e_phase this + e_increment this ! nat (e_stage this) * rate * scaleFactor\<rparr>;
          this =
            (if e_phase this \<ge> 1 then
               (if e_stage this \<ge> e_numStages this - 2
                then this\<lparr>e_phase := 1\<rparr>
                else this\<lparr>e_phase := 0, e_stage := e_stage this + 1\<rparr>)
               \<lparr>e_start := PREVIOUS_LEVEL\<rparr>
             else this)
      in (Envelope_value this, this))"

definition render :: "Envelope \<Rightarrow> bool \<Rightarrow> real \<times> Envelope" where
  "render this gate = renderScaled this gate 1 1 1"

function find_stage :: "Envelope \<Rightarrow> int \<Rightarrow> int \<Rightarrow> real \<Rightarrow> int \<times> real" where
  \<comment> \<open>The stage search of \<^verbatim>\<open>renderAtSample\<close> from index \<open>i\<close> on: the stage found and the
      time remaining in it.\<close>
  "find_stage this i stage remainingTime =
     (if 0 \<le> i \<and> i < e_numStages this - 1 then
        let stageDuration = 1 / e_increment this ! nat i
        in if remainingTime < stageDuration then (i, remainingTime)
           else find_stage this (i + 1) (i + 1) (remainingTime - stageDuration)
      else (stage, remainingTime))"
  by pat_completeness auto
termination
  by (relation "measure (\<lambda>(this, i, stage, r). nat (e_numStages this - 1 - i))") auto

declare find_stage.simps [simp del]

definition renderAtSample_held :: "Envelope \<Rightarrow> real \<Rightarrow> real \<Rightarrow> real" where
  \<comment> \<open>\<^verbatim>\<open>renderAtSample\<close> below its first test, for \<open>t\<close> not after the gate duration.\<close>
  "renderAtSample_held this t gateDuration =
     (let n = e_numStages this;
          (stage, remainingTime) = find_stage this 0 0 t
      in if stage = n - 1 then
           (let remainingTime = remainingTime - gateDuration
            in if remainingTime \<le> 0 then e_level this ! nat (n - 2)
               else if remainingTime * e_increment this ! nat (n - 1) > 1
               then e_level this ! nat (n - 1)
               else valueAt this stage (remainingTime * e_increment this ! nat stage)
                      PREVIOUS_LEVEL)
         else valueAt this stage (remainingTime * e_increment this ! nat stage) PREVIOUS_LEVEL)"

definition renderAtSample :: "Envelope \<Rightarrow> real \<Rightarrow> real \<Rightarrow> real" where
  "renderAtSample this t gateDuration =
     (let n = e_numStages this
      in if t > gateDuration then
           (let phase = (t - gateDuration) * e_increment this ! nat (n - 1)
            in if phase \<ge> 1 then e_level this ! nat (n - 1)
               else (let sustainValue = renderAtSample_held this gateDuration gateDuration
                     in valueAt this (n - 1) phase sustainValue))
         else renderAtSample_held this t gateDuration)"

text \<open>
  \<^verbatim>\<open>OperatorEnvelope\<close> and \<^verbatim>\<open>PitchEnvelope\<close> wrap one \<^verbatim>\<open>Envelope\<close> of four stages and
  forward \<^verbatim>\<open>init\<close>, \<^verbatim>\<open>render\<close>, \<^verbatim>\<open>renderScaled\<close> and \<^verbatim>\<open>renderAtSample\<close> to it;
  they are that envelope here.
\<close>

definition OperatorEnvelope_new :: Envelope where
  "OperatorEnvelope_new = Envelope_new 4 True"

definition PitchEnvelope_new :: Envelope where
  "PitchEnvelope_new = Envelope_new 4 False"

definition OperatorEnvelope_set :: "Envelope \<Rightarrow> nat list \<Rightarrow> nat list \<Rightarrow> nat \<Rightarrow> Envelope" where
  "OperatorEnvelope_set envelope rate level globalLevel =
     (let envelope =
            fold (\<lambda>i envelope.
                   let levelScaled = int (operatorLevel (level ! i));
                       levelScaled = (levelScaled AND NOT 1) + int globalLevel - 133
                   in envelope\<lparr>e_level := (e_level envelope)
                        [i := 0.125 * (if levelScaled < 1 then 0.5 else of_int levelScaled)]\<rparr>)
              [0, 1, 2, 3] envelope
      in fold (\<lambda>i envelope.
                let increment = operatorEnvelopeIncrement (rate ! i);
                    from = e_level envelope ! ((i + 4 - 1) mod 4);
                    to = e_level envelope ! i;
                    increment =
                      (if from = to then
                         (let increment = increment * 0.6
                          in if i = 0 \<and> level ! i = 0 then increment * 20 else increment)
                       else if from < to then
                         (let fromClamped = max from 6.7; toClamped = max to 6.7
                          in if fromClamped = toClamped then 1
                             else increment * (7.2 / (toClamped - fromClamped)))
                       else increment * (1 / (from - to)))
                in envelope\<lparr>e_increment := (e_increment envelope)
                     [i := increment * e_scale envelope]\<rparr>)
           [0, 1, 2, 3] envelope)"

definition PitchEnvelope_set :: "Envelope \<Rightarrow> nat list \<Rightarrow> nat list \<Rightarrow> Envelope" where
  "PitchEnvelope_set envelope rate level =
     (let envelope =
            fold (\<lambda>i envelope.
                   envelope\<lparr>e_level := (e_level envelope)
                     [i := pitchEnvelopeLevel (real (level ! i))]\<rparr>)
              [0, 1, 2, 3] envelope
      in fold (\<lambda>i envelope.
                let from = e_level envelope ! ((i + 4 - 1) mod 4);
                    to = e_level envelope ! i;
                    increment = pitchEnvelopeIncrement (real (rate ! i));
                    increment =
                      (if from \<noteq> to then increment * (1 / \<bar>from - to\<bar>)
                       else if i \<noteq> 3 then 0.2
                       else increment)
                in envelope\<lparr>e_increment := (e_increment envelope)
                     [i := increment * e_scale envelope]\<rparr>)
           [0, 1, 2, 3] envelope)"

fun render_calls :: "Envelope \<Rightarrow> (bool \<times> real \<times> real \<times> real) list \<Rightarrow> Envelope" where
  \<comment> \<open>The envelope after a sequence of \<^verbatim>\<open>renderScaled\<close> calls, each given by its gate,
      rate, attack/decay scale and release scale.\<close>
  "render_calls this [] = this"
| "render_calls this ((gate, rate, adScale, releaseScale) # calls) =
     render_calls (snd (renderScaled this gate rate adScale releaseScale)) calls"

section \<open>fm/lfo.js\<close>

datatype Waveform = Triangle | RampDown | RampUp | Square | Sine | SAndH


record Lfo =
  l_phase :: real
  l_frequency :: real
  l_delayPhase :: real
  l_delayIncrement :: "real list"
  l_value :: real
  l_randomValue :: real
  l_oneHz :: real
  l_ampModDepth :: real
  l_pitchModDepth :: real
  l_waveform :: Waveform
  l_resetPhase :: bool
  l_phaseIntegral :: int





definition Lfo_value :: "real list \<Rightarrow> Lfo \<Rightarrow> real" where
  "Lfo_value lut this =
     (case l_waveform this of
        Triangle \<Rightarrow> 2 * (if l_phase this < 0.5 then 0.5 - l_phase this else l_phase this - 0.5)
      | RampDown \<Rightarrow> 1 - l_phase this
      | RampUp \<Rightarrow> l_phase this
      | Square \<Rightarrow> (if l_phase this < 0.5 then 0 else 1)
      | Sine \<Rightarrow> 0.5 + 0.5 * sine lut (l_phase this + 0.5)
      | SAndH \<Rightarrow> l_randomValue this)"

text \<open>
  \<^verbatim>\<open>getFloat\<close> of \<^verbatim>\<open>stmlib/random.js\<close> is not among the sources. The number it returns
  is an argument of the two functions that call it, \<open>getFloat\<close>: what the generator
  would return if the call takes place.
\<close>

definition step :: "real list \<Rightarrow> real \<Rightarrow> Lfo \<Rightarrow> real \<Rightarrow> Lfo" where
  "step lut getFloat this scale =
     (let this = this\<lparr>l_phase := l_phase this + scale * l_frequency this\<rparr>;
          this = (if l_phase this \<ge> 1
                  then this\<lparr>l_phase := l_phase this - 1, l_randomValue := getFloat\<rparr>
                  else this);
          this = this\<lparr>l_value := Lfo_value lut this\<rparr>;
          this = this\<lparr>l_delayPhase := l_delayPhase this
                   + scale * l_delayIncrement this ! (if l_delayPhase this < 0.5 then 0 else 1)\<rparr>
      in if l_delayPhase this \<ge> 1 then this\<lparr>l_delayPhase := 1\<rparr> else this)"

definition scrub :: "real list \<Rightarrow> real \<Rightarrow> Lfo \<Rightarrow> real \<Rightarrow> Lfo" where
  "scrub lut getFloat this sample =
     (let phase = sample * l_frequency this;
          phaseIntegral = \<lfloor>phase\<rfloor>;
          phaseFractional = phase - of_int phaseIntegral;
          this = this\<lparr>l_phase := phaseFractional\<rparr>;
          this = (if phaseIntegral \<noteq> l_phaseIntegral this
                  then this\<lparr>l_phaseIntegral := phaseIntegral, l_randomValue := getFloat\<rparr>
                  else this);
          this = this\<lparr>l_value := Lfo_value lut this\<rparr>;
          this = this\<lparr>l_delayPhase := sample * l_delayIncrement this ! 0\<rparr>
      in if l_delayPhase this > 0.5 then
           (let sampleAdjusted = sample - 0.5 / l_delayIncrement this ! 0;
                this = this\<lparr>l_delayPhase := 0.5 + sampleAdjusted * l_delayIncrement this ! 1\<rparr>
            in if l_delayPhase this \<ge> 1 then this\<lparr>l_delayPhase := 1\<rparr> else this)
         else this)"

definition delayRamp :: "Lfo \<Rightarrow> real" where
  "delayRamp this = (if l_delayPhase this < 0.5 then 0 else (l_delayPhase this - 0.5) * 2)"

definition pitchMod :: "Lfo \<Rightarrow> real" where
  "pitchMod this = (l_value this - 0.5) * delayRamp this * l_pitchModDepth this"

definition ampMod :: "Lfo \<Rightarrow> real" where
  "ampMod this = (1 - l_value this) * delayRamp this * l_ampModDepth this"

fun lfo_run :: "real list \<Rightarrow> Lfo \<Rightarrow> (real \<times> real) list \<Rightarrow> (real \<times> real) list" where
  \<comment> \<open>The modulations a caller reads block after block, as \<^verbatim>\<open>generateSamples\<close> does:
      each block is given by what \<^verbatim>\<open>getFloat\<close> would return and by the scale of the step;
      after \<^verbatim>\<open>lfo.step(scale)\<close> the caller takes \<^verbatim>\<open>lfo.pitchMod()\<close> and \<^verbatim>\<open>lfo.ampMod()\<close>.\<close>
  "lfo_run lut this [] = []"
| "lfo_run lut this ((getFloat, scale) # blocks) =
     (let this = step lut getFloat this scale
      in (pitchMod this, ampMod this) # lfo_run lut this blocks)"

section \<open>fm/algorithms.js\<close>

definition NUM_OPERATORS :: nat where "NUM_OPERATORS = 6"
definition NUM_ALGORITHMS :: nat where "NUM_ALGORITHMS = 32"

definition DESTINATION_MASK :: nat where "DESTINATION_MASK = 0x03"
definition SOURCE_MASK :: nat where "SOURCE_MASK = 0x30"
definition SOURCE_FEEDBACK :: nat where "SOURCE_FEEDBACK = 0x30"
definition ADDITIVE_FLAG :: nat where "ADDITIVE_FLAG = 0x04"
definition FEEDBACK_SOURCE_FLAG :: nat where "FEEDBACK_SOURCE_FLAG = 0x40"

definition modFlags :: "nat \<Rightarrow> nat" where "modFlags n = push_bit 4 n"
definition addFlags :: "nat \<Rightarrow> nat" where "addFlags n = n OR ADDITIVE_FLAG"
definition outFlags :: "nat \<Rightarrow> nat" where "outFlags n = n"

definition FB_SRC :: nat where "FB_SRC = FEEDBACK_SOURCE_FLAG"
definition FB_DST :: nat where "FB_DST = modFlags 3"
definition FB :: nat where "FB = FB_SRC OR FB_DST"
definition NO_MOD :: nat where "NO_MOD = modFlags 0"
definition OUTPUT :: nat where "OUTPUT = addFlags 0"

text \<open>
  A renderer is \<^verbatim>\<open>renderOperators(N, MODULATION_SOURCE, ADDITIVE)\<close>: the closure is
  the triple of its three parameters, and calling it is \<^const>\<open>renderOperators\<close> at them.
\<close>

type_synonym renderer = "nat \<times> int \<times> bool"

record RenderCall =
  rc_renderFn :: renderer
  rc_n :: nat
  rc_inputIndex :: nat
  rc_outputIndex :: nat

definition RenderCall_new :: "renderer option \<Rightarrow> nat \<Rightarrow> nat \<Rightarrow> nat \<Rightarrow> RenderCall" where
  \<comment> \<open>\<^verbatim>\<open>renderFn || renderOperators(1, -1, false)\<close>\<close>
  "RenderCall_new renderFn n inputIndex outputIndex =
     \<lparr>rc_renderFn = (case renderFn of None \<Rightarrow> (1, - 1, False) | Some r \<Rightarrow> r),
      rc_n = n, rc_inputIndex = inputIndex, rc_outputIndex = outputIndex\<rparr>"

record RendererSpecs =
  rs_n :: nat
  rs_modulationSource :: int
  rs_additive :: bool
  rs_renderFn :: renderer

definition RendererSpecs_new :: "nat \<Rightarrow> int \<Rightarrow> bool \<Rightarrow> renderer \<Rightarrow> RendererSpecs" where
  "RendererSpecs_new n modulationSource isAdditive renderFn =
     \<lparr>rs_n = n, rs_modulationSource = modulationSource, rs_additive = isAdditive,
      rs_renderFn = renderFn\<rparr>"

definition OPCODES_6 :: "nat list list" where
  "OPCODES_6 =
   [[FB OR outFlags 1, modFlags 1 OR outFlags 1, modFlags 1 OR outFlags 1, modFlags 1 OR OUTPUT, NO_MOD OR outFlags 1, modFlags 1 OR addFlags 0],
    [NO_MOD OR outFlags 1, modFlags 1 OR outFlags 1, modFlags 1 OR outFlags 1, modFlags 1 OR OUTPUT, FB OR outFlags 1, modFlags 1 OR addFlags 0],
    [FB OR outFlags 1, modFlags 1 OR outFlags 1, modFlags 1 OR OUTPUT, NO_MOD OR outFlags 1, modFlags 1 OR outFlags 1, modFlags 1 OR addFlags 0],
    [FB_DST OR NO_MOD OR outFlags 1, modFlags 1 OR outFlags 1, FB_SRC OR modFlags 1 OR OUTPUT, NO_MOD OR outFlags 1, modFlags 1 OR outFlags 1, modFlags 1 OR addFlags 0],
    [FB OR outFlags 1, modFlags 1 OR OUTPUT, NO_MOD OR outFlags 1, modFlags 1 OR addFlags 0, NO_MOD OR outFlags 1, modFlags 1 OR addFlags 0],
    [FB_DST OR NO_MOD OR outFlags 1, FB_SRC OR modFlags 1 OR OUTPUT, NO_MOD OR outFlags 1, modFlags 1 OR addFlags 0, NO_MOD OR outFlags 1, modFlags 1 OR addFlags 0],
    [FB OR outFlags 1, modFlags 1 OR outFlags 1, NO_MOD OR addFlags 1, modFlags 1 OR OUTPUT, NO_MOD OR outFlags 1, modFlags 1 OR addFlags 0],
    [NO_MOD OR outFlags 1, modFlags 1 OR outFlags 1, FB OR addFlags 1, modFlags 1 OR OUTPUT, NO_MOD OR outFlags 1, modFlags 1 OR addFlags 0],
    [NO_MOD OR outFlags 1, modFlags 1 OR outFlags 1, NO_MOD OR addFlags 1, modFlags 1 OR OUTPUT, FB OR outFlags 1, modFlags 1 OR addFlags 0],
    [NO_MOD OR outFlags 1, NO_MOD OR addFlags 1, modFlags 1 OR OUTPUT, FB OR outFlags 1, modFlags 1 OR outFlags 1, modFlags 1 OR addFlags 0],
    [FB OR outFlags 1, NO_MOD OR addFlags 1, modFlags 1 OR OUTPUT, NO_MOD OR outFlags 1, modFlags 1 OR outFlags 1, modFlags 1 OR addFlags 0],
    [NO_MOD OR outFlags 1, NO_MOD OR addFlags 1, NO_MOD OR addFlags 1, modFlags 1 OR OUTPUT, FB OR outFlags 1, modFlags 1 OR addFlags 0],
    [FB OR outFlags 1, NO_MOD OR addFlags 1, NO_MOD OR addFlags 1, modFlags 1 OR OUTPUT, NO_MOD OR outFlags 1, modFlags 1 OR addFlags 0],
    [FB OR outFlags 1, NO_MOD OR addFlags 1, modFlags 1 OR outFlags 1, modFlags 1 OR OUTPUT, NO_MOD OR outFlags 1, modFlags 1 OR addFlags 0],
    [NO_MOD OR outFlags 1, NO_MOD OR addFlags 1, modFlags 1 OR outFlags 1, modFlags 1 OR OUTPUT, FB OR outFlags 1, modFlags 1 OR addFlags 0],
    [FB OR outFlags 1, modFlags 1 OR outFlags 1, NO_MOD OR outFlags 2, modFlags 2 OR addFlags 1, NO_MOD OR addFlags 1, modFlags 1 OR OUTPUT],
    [NO_MOD OR outFlags 1, modFlags 1 OR outFlags 1, NO_MOD OR outFlags 2, modFlags 2 OR addFlags 1, FB OR addFlags 1, modFlags 1 OR OUTPUT],
    [NO_MOD OR outFlags 1, modFlags 1 OR outFlags 1, modFlags 1 OR outFlags 1, FB OR addFlags 1, NO_MOD OR addFlags 1, modFlags 1 OR OUTPUT],
    [FB OR outFlags 1, modFlags 1 OR OUTPUT, modFlags 1 OR addFlags 0, NO_MOD OR outFlags 1, modFlags 1 OR outFlags 1, modFlags 1 OR addFlags 0],
    [NO_MOD OR outFlags 1, NO_MOD OR addFlags 1, modFlags 1 OR OUTPUT, FB OR outFlags 1, modFlags 1 OR addFlags 0, modFlags 1 OR addFlags 0],
    [NO_MOD OR outFlags 1, modFlags 1 OR OUTPUT, modFlags 1 OR addFlags 0, FB OR outFlags 1, modFlags 1 OR addFlags 0, modFlags 1 OR addFlags 0],
    [FB OR outFlags 1, modFlags 1 OR OUTPUT, modFlags 1 OR addFlags 0, modFlags 1 OR addFlags 0, NO_MOD OR outFlags 1, modFlags 1 OR addFlags 0],
    [FB OR outFlags 1, modFlags 1 OR OUTPUT, modFlags 1 OR addFlags 0, NO_MOD OR outFlags 1, modFlags 1 OR addFlags 0, NO_MOD OR addFlags 0],
    [FB OR outFlags 1, modFlags 1 OR OUTPUT, modFlags 1 OR addFlags 0, modFlags 1 OR addFlags 0, NO_MOD OR addFlags 0, NO_MOD OR addFlags 0],
    [FB OR outFlags 1, modFlags 1 OR OUTPUT, modFlags 1 OR addFlags 0, NO_MOD OR addFlags 0, NO_MOD OR addFlags 0, NO_MOD OR addFlags 0],
    [FB OR outFlags 1, NO_MOD OR addFlags 1, modFlags 1 OR OUTPUT, NO_MOD OR outFlags 1, modFlags 1 OR addFlags 0, NO_MOD OR addFlags 0],
    [NO_MOD OR outFlags 1, NO_MOD OR addFlags 1, modFlags 1 OR OUTPUT, FB OR outFlags 1, modFlags 1 OR addFlags 0, NO_MOD OR addFlags 0],
    [NO_MOD OR OUTPUT, FB OR outFlags 1, modFlags 1 OR outFlags 1, modFlags 1 OR addFlags 0, NO_MOD OR outFlags 1, modFlags 1 OR addFlags 0],
    [FB OR outFlags 1, modFlags 1 OR OUTPUT, NO_MOD OR outFlags 1, modFlags 1 OR addFlags 0, NO_MOD OR addFlags 0, NO_MOD OR addFlags 0],
    [NO_MOD OR OUTPUT, FB OR outFlags 1, modFlags 1 OR outFlags 1, modFlags 1 OR addFlags 0, NO_MOD OR addFlags 0, NO_MOD OR addFlags 0],
    [FB OR outFlags 1, modFlags 1 OR OUTPUT, NO_MOD OR addFlags 0, NO_MOD OR addFlags 0, NO_MOD OR addFlags 0, NO_MOD OR addFlags 0],
    [FB OR OUTPUT, NO_MOD OR addFlags 0, NO_MOD OR addFlags 0, NO_MOD OR addFlags 0, NO_MOD OR addFlags 0, NO_MOD OR addFlags 0]]"

definition RENDERERS_6 :: "RendererSpecs list" where
  "RENDERERS_6 =
     [RendererSpecs_new 1 (- 2) False (1, - 2, False),
      RendererSpecs_new 1 (- 2) True (1, - 2, True),
      RendererSpecs_new 1 (- 1) False (1, - 1, False),
      RendererSpecs_new 1 (- 1) True (1, - 1, True),
      RendererSpecs_new 1 0 False (1, 0, False),
      RendererSpecs_new 1 0 True (1, 0, True),
      RendererSpecs_new 3 2 True (3, 2, True),
      RendererSpecs_new 2 1 True (2, 1, True),
      RendererSpecs_new 0 0 False (1, - 1, False)]"

fun getRenderer_from :: "RendererSpecs list \<Rightarrow> nat \<Rightarrow> int \<Rightarrow> bool \<Rightarrow> renderer option" where
  \<comment> \<open>The loop of \<^verbatim>\<open>getRenderer\<close> over the specifications still to be looked at;
      \<open>None\<close> is \<^verbatim>\<open>null\<close>.\<close>
  "getRenderer_from [] n modulationSource isAdditive = None"
| "getRenderer_from (specs # rest) n modulationSource isAdditive =
     (if rs_n specs = 0 then None
      else if rs_n specs = n \<and> rs_modulationSource specs = modulationSource
              \<and> rs_additive specs = isAdditive
      then Some (rs_renderFn specs)
      else getRenderer_from rest n modulationSource isAdditive)"

definition getRenderer :: "nat \<Rightarrow> int \<Rightarrow> bool \<Rightarrow> renderer option" where
  "getRenderer n modulationSource isAdditive =
     getRenderer_from RENDERERS_6 n modulationSource isAdditive"

function chain_length :: "nat list \<Rightarrow> nat \<Rightarrow> nat \<Rightarrow> nat \<Rightarrow> nat" where
  \<comment> \<open>The loop of \<^verbatim>\<open>compile\<close> that tries to chain operators: the \<open>n\<close> it ends with.\<close>
  "chain_length opcodes i opcode n =
     (if i + n < NUM_OPERATORS then
        let from = opcodes ! (i + n - 1);
            to = drop_bit 4 (opcodes ! (i + n) AND SOURCE_MASK);
            hasAdditive = (from AND ADDITIVE_FLAG \<noteq> 0);
            broken = (from AND DESTINATION_MASK \<noteq> to)
        in if hasAdditive \<or> broken
           then (if to = opcode AND DESTINATION_MASK then 1 else n)
           else chain_length opcodes i opcode (n + 1)
      else n)"
  by pat_completeness auto
termination
  by (relation "measure (\<lambda>(opcodes, i, opcode, n). NUM_OPERATORS - (i + n))") auto

declare chain_length.simps [simp del]

definition modulation_source :: "nat list \<Rightarrow> nat \<Rightarrow> nat \<Rightarrow> nat \<Rightarrow> int" where
  "modulation_source opcodes i opcode n =
     (if opcode AND SOURCE_MASK = 0 then - 1
      else if opcode AND SOURCE_MASK \<noteq> SOURCE_FEEDBACK then - 2
      else fold (\<lambda>j modulationSource.
                  if opcodes ! (i + j) AND FEEDBACK_SOURCE_FLAG \<noteq> 0 then int j
                  else modulationSource)
             [0..<n] (- 3))"

fun find_renderer :: "nat list \<Rightarrow> nat \<Rightarrow> nat \<Rightarrow> nat \<Rightarrow> nat \<Rightarrow> nat \<times> RenderCall option" where
  \<comment> \<open>The loop \<^verbatim>\<open>for (attempt = 0; attempt < 2; attempt++)\<close> with \<open>attempts\<close> rounds
      left: the \<open>n\<close> it ends with, and the render call it stores, if any.\<close>
  "find_renderer opcodes i opcode n 0 = (n, None)"
| "find_renderer opcodes i opcode n (Suc attempts) =
     (let outOpcode = opcodes ! (i + n - 1);
          isAdditive = (outOpcode AND ADDITIVE_FLAG \<noteq> 0);
          modulationSource = modulation_source opcodes i opcode n
      in case getRenderer n modulationSource isAdditive of
           Some renderFn \<Rightarrow>
             (n, Some (RenderCall_new (Some renderFn) n (drop_bit 4 (opcode AND SOURCE_MASK))
                         (outOpcode AND DESTINATION_MASK)))
         | None \<Rightarrow> find_renderer opcodes i opcode (if n > 1 then 1 else n) attempts)"

text \<open>
  The outer loop of \<^verbatim>\<open>compile\<close> advances by the \<open>n\<close> of the two inner loops. A step
  of zero would leave it running for ever: that is the error \<open>Diverges\<close>.
\<close>

function compile_from :: "nat list \<Rightarrow> nat \<Rightarrow> RenderCall list \<Rightarrow> error + RenderCall list" where
  "compile_from opcodes i calls =
     (if i < NUM_OPERATORS then
        let opcode = opcodes ! i;
            n = chain_length opcodes i opcode 1;
            found = find_renderer opcodes i opcode n 2;
            calls = (case snd found of None \<Rightarrow> calls | Some call \<Rightarrow> calls[i := call])
        in if fst found = 0 then Inl Diverges
           else compile_from opcodes (i + fst found) calls
      else Inr calls)"
  by pat_completeness auto
termination
  by (relation "measure (\<lambda>(opcodes, i, calls). NUM_OPERATORS - i)") auto

declare compile_from.simps [simp del]

record Algorithms =
  al_renderCalls :: "RenderCall list list"

definition compile :: "Algorithms \<Rightarrow> nat \<Rightarrow> error + Algorithms" where
  \<comment> \<open>\<^verbatim>\<open>OPCODES_6[algorithm]\<close> of an algorithm outside the table is \<^verbatim>\<open>undefined\<close>, and
      reading its first opcode throws.\<close>
  "compile this algorithm =
     (if algorithm < length OPCODES_6 then
        (case compile_from (OPCODES_6 ! algorithm) 0 (al_renderCalls this ! algorithm) of
           Inl e \<Rightarrow> Inl e
         | Inr calls \<Rightarrow>
             Inr (this\<lparr>al_renderCalls := (al_renderCalls this)[algorithm := calls]\<rparr>))
      else Inl TypeError)"

fun init_from :: "Algorithms \<Rightarrow> nat list \<Rightarrow> error + Algorithms" where
  "init_from this [] = Inr this"
| "init_from this (i # rest) =
     (case compile this i of Inl e \<Rightarrow> Inl e | Inr this \<Rightarrow> init_from this rest)"

definition Algorithms_new :: "error + Algorithms" where
  \<comment> \<open>The constructor: every entry a default render call, then \<^verbatim>\<open>init()\<close>.\<close>
  "Algorithms_new =
     init_from
       \<lparr>al_renderCalls =
          replicate NUM_ALGORITHMS (replicate NUM_OPERATORS (RenderCall_new None 0 0 0))\<rparr>
       [0..<NUM_ALGORITHMS]"

definition renderCall :: "Algorithms \<Rightarrow> nat \<Rightarrow> nat \<Rightarrow> error + RenderCall" where
  "renderCall this algorithm op =
     (if algorithm < length (al_renderCalls this)
         \<and> op < length (al_renderCalls this ! algorithm)
      then Inr (al_renderCalls this ! algorithm ! op)
      else Inl TypeError)"

definition isModulator :: "nat \<Rightarrow> nat \<Rightarrow> error + bool" where
  "isModulator algorithm op =
     (if algorithm < length OPCODES_6
      then Inr (OPCODES_6 ! algorithm ! op AND DESTINATION_MASK \<noteq> 0)
      else Inl TypeError)"

section \<open>fm/voice.js\<close>

record Parameters =
  pa_sustain :: bool
  pa_gate :: bool
  pa_note :: real
  pa_velocity :: real
  pa_brightness :: real
  pa_envelopeControl :: real
  pa_pitchMod :: real
  pa_ampMod :: real

definition Parameters_new :: Parameters where
  "Parameters_new =
     \<lparr>pa_sustain = False, pa_gate = False, pa_note = 48, pa_velocity = 0.5,
      pa_brightness = 0.5, pa_envelopeControl = 0.5, pa_pitchMod = 0, pa_ampMod = 0\<rparr>"

text \<open>
  A voice holds six operators and six operator envelopes, and its patch six operators,
  as the constructors make them. An exception ends a call: the model returns the error
  and not the state the call had reached.
\<close>

record Voice =
  vo_algorithms :: Algorithms
  vo_sampleRate :: real
  vo_oneHz :: real
  vo_a0 :: real
  vo_gate :: bool
  vo_operator :: "Operator list"
  vo_operatorEnvelope :: "Envelope list"
  vo_pitchEnvelope :: Envelope
  vo_normalizedVelocity :: real
  vo_note :: real
  vo_ratios :: "real list"
  vo_levelHeadroom :: "real list"
  vo_level :: "real list"
  vo_feedbackState :: "real list"
  vo_patch :: Patch
  vo_dirty :: bool

definition setup_operator :: "nat \<Rightarrow> Voice \<Rightarrow> Voice" where
  \<comment> \<open>The body of the loop of \<^verbatim>\<open>setup\<close> for operator \<open>i\<close>. The product by the sign
      is exact; the stores into \<^verbatim>\<open>levelHeadroom\<close> and \<^verbatim>\<open>ratios\<close> round.\<close>
  "setup_operator i this =
     (let op = p_op (vo_patch this) ! i;
          level = operatorLevel (po_level op);
          sign = (if po_mode op = 0 then 1 else - 1)
      in this\<lparr>vo_operatorEnvelope := (vo_operatorEnvelope this)
                [i := OperatorEnvelope_set (vo_operatorEnvelope this ! i)
                        (oe_rate (po_envelope op)) (oe_level (po_envelope op)) level],
              vo_levelHeadroom := (vo_levelHeadroom this)[i := float32 (127 - real level)],
              vo_ratios := (vo_ratios this)[i := float32 (sign * frequencyRatio op)]\<rparr>)"

definition Voice_setup :: "Voice \<Rightarrow> bool \<times> Voice" where
  \<comment> \<open>What \<^verbatim>\<open>setup()\<close> returns, and the voice as it leaves it.\<close>
  "Voice_setup this =
     (if \<not> vo_dirty this then (False, this)
      else
        let this = this\<lparr>vo_pitchEnvelope :=
                     PitchEnvelope_set (vo_pitchEnvelope this)
                       (pe_rate (p_pitchEnvelope (vo_patch this)))
                       (pe_level (p_pitchEnvelope (vo_patch this)))\<rparr>;
            this = fold setup_operator [0, 1, 2, 3, 4, 5] this
        in (True, this\<lparr>vo_dirty := False\<rparr>))"

definition Voice_init :: "Algorithms \<Rightarrow> Patch \<Rightarrow> real \<Rightarrow> Voice" where
  \<comment> \<open>The voice as the constructor has built it when it calls \<^verbatim>\<open>this.setup()\<close>.\<close>
  "Voice_init algorithms patch sampleRate =
     (let oneHz = double (1 / sampleRate);
          nativeSr = 44100;
          envelopeScale = double (nativeSr * oneHz)
      in \<lparr>vo_algorithms = algorithms, vo_sampleRate = sampleRate, vo_oneHz = oneHz,
          vo_a0 = double (55 / sampleRate), vo_gate = False,
          vo_operator = replicate NUM_OPERATORS (Operator_reset Operator_new),
          vo_operatorEnvelope =
            replicate NUM_OPERATORS (Envelope_init OperatorEnvelope_new envelopeScale),
          vo_pitchEnvelope = Envelope_init PitchEnvelope_new envelopeScale,
          vo_normalizedVelocity = 10, vo_note = 48,
          vo_ratios = replicate NUM_OPERATORS 0,
          vo_levelHeadroom = replicate NUM_OPERATORS 0,
          vo_level = replicate NUM_OPERATORS 0,
          vo_feedbackState = [0, 0], vo_patch = patch, vo_dirty = True\<rparr>)"

definition Voice_new :: "Patch \<Rightarrow> real \<Rightarrow> error + Voice" where
  "Voice_new patch sampleRate =
     (case Algorithms_new of
        Inl e \<Rightarrow> Inl e
      | Inr algorithms \<Rightarrow> Inr (snd (Voice_setup (Voice_init algorithms patch sampleRate))))"

definition opLevel :: "Voice \<Rightarrow> nat \<Rightarrow> real" where
  "opLevel this i = vo_level this ! i"

definition operator_frequency :: "Voice \<Rightarrow> real \<Rightarrow> nat \<Rightarrow> real" where
  \<comment> \<open>What \<^verbatim>\<open>f[i] = this.ratios[i] * (this.ratios[i] < 0.0 ? -this.oneHz : f0)\<close> stores
      in the \<^verbatim>\<open>Float32Array f\<close>: the product in double precision, rounded again by the
      store.\<close>
  "operator_frequency this f0 i =
     float32 (double (vo_ratios this ! i * (if vo_ratios this ! i < 0 then - vo_oneHz this else f0)))"

definition render_operator_level ::
  "Parameters \<Rightarrow> real \<Rightarrow> real \<Rightarrow> real \<Rightarrow> real \<Rightarrow> real \<Rightarrow> real \<Rightarrow> nat
     \<Rightarrow> Voice \<times> real list \<times> real list \<Rightarrow> error + (Voice \<times> real list \<times> real list)" where
  \<comment> \<open>The body of the operator loop of \<^verbatim>\<open>renderInternal\<close> for operator \<open>i\<close>, on the voice
      and the arrays \<open>f\<close> and \<open>a\<close>.\<close>
  "render_operator_level parameters envelopeRate adScale rScale envelopeSample gateDuration f0 i
       tfa =
     (let (this, f, a) = tfa;
          op = p_op (vo_patch this) ! i;
          f = f[i := operator_frequency this f0 i];
          rateScalingVal = rateScaling (vo_note this) (po_rateScaling op);
          rendered =
            (if pa_sustain parameters
             then (renderAtSample (vo_operatorEnvelope this ! i) envelopeSample gateDuration,
                   vo_operatorEnvelope this ! i)
             else renderScaled (vo_operatorEnvelope this ! i) (pa_gate parameters)
                    (envelopeRate * rateScalingVal) adScale rScale);
          level = fst rendered;
          this = this\<lparr>vo_operatorEnvelope := (vo_operatorEnvelope this)[i := snd rendered]\<rparr>;
          kbScaling = keyboardScaling (vo_note this) (po_keyboardScaling op);
          velocityScaling = vo_normalizedVelocity this * real (po_velocitySensitivity op)
      in case isModulator (p_algorithm (vo_patch this)) i of
           Inl e \<Rightarrow> Inl e
         | Inr modulator \<Rightarrow>
             let brightness = (if modulator then (pa_brightness parameters - 0.5) * 32 else 0);
                 levelAdjusted = level
                   + 0.125 * min (kbScaling + velocityScaling + brightness)
                               (vo_levelHeadroom this ! i);
                 this = this\<lparr>vo_level := (vo_level this)[i := float32 levelAdjusted]\<rparr>;
                 sensitivity = ampModSensitivity (po_ampModSensitivity op);
                 logLevelMod = sensitivity * pa_ampMod parameters - 1;
                 levelMod = 1 - pow2Fast (6.4 * logLevelMod) 2;
                 a = a[i := float32 (pow2Fast (- 14 + levelAdjusted * levelMod) 2)]
             in Inr (this, f, a))"

fun render_operator_levels ::
  "Parameters \<Rightarrow> real \<Rightarrow> real \<Rightarrow> real \<Rightarrow> real \<Rightarrow> real \<Rightarrow> real \<Rightarrow> nat list
     \<Rightarrow> Voice \<times> real list \<times> real list \<Rightarrow> error + (Voice \<times> real list \<times> real list)" where
  "render_operator_levels parameters envelopeRate adScale rScale envelopeSample gateDuration f0
       [] tfa = Inr tfa"
| "render_operator_levels parameters envelopeRate adScale rScale envelopeSample gateDuration f0
       (i # rest) tfa =
     (case render_operator_level parameters envelopeRate adScale rScale envelopeSample
             gateDuration f0 i tfa of
        Inl e \<Rightarrow> Inl e
      | Inr tfa \<Rightarrow>
          render_operator_levels parameters envelopeRate adScale rScale envelopeSample
            gateDuration f0 rest tfa)"

function dispatch ::
  "real list \<Rightarrow> View list \<Rightarrow> real list \<Rightarrow> real list \<Rightarrow> nat \<Rightarrow> Voice \<times> memory
     \<Rightarrow> error + (Voice \<times> memory)" where
  \<comment> \<open>The last loop of \<^verbatim>\<open>renderInternal\<close>, from operator \<open>i\<close> on. The operators of the
      slice are the voice's own objects, so what the renderer does to them is written
      back. A render call of length zero whose renderer returns would be repeated for
      ever.\<close>
  "dispatch lut buffers f a i vm =
     (if i < NUM_OPERATORS then
        (case renderCall (vo_algorithms (fst vm)) (p_algorithm (vo_patch (fst vm))) i of
           Inl e \<Rightarrow> Inl e
         | Inr call \<Rightarrow>
             (case renderOperators (fst (rc_renderFn call)) (fst (snd (rc_renderFn call)))
                     (snd (snd (rc_renderFn call))) lut
                     (slice (vo_operator (fst vm)) i (i + rc_n call))
                     (slice f i (i + rc_n call))
                     (slice a i (i + rc_n call))
                     (vo_feedbackState (fst vm))
                     (p_feedback (vo_patch (fst vm)))
                     (buffers ! rc_inputIndex call)
                     (buffers ! rc_outputIndex call)
                     (snd vm) of
                Inl e \<Rightarrow> Inl e
              | Inr r \<Rightarrow>
                  if rc_n call = 0 then Inl Diverges
                  else dispatch lut buffers f a (i + rc_n call)
                         ((fst vm)\<lparr>vo_operator :=
                              take i (vo_operator (fst vm)) @ fst r
                                @ drop (i + length (fst r)) (vo_operator (fst vm)),
                            vo_feedbackState := fst (snd r)\<rparr>,
                          snd (snd r))))
      else Inr vm)"
  by pat_completeness auto
termination
  by (relation "measure (\<lambda>(lut, buffers, f, a, i, vm). NUM_OPERATORS - i)") auto

declare dispatch.simps [simp del]

definition voice_f0 :: "Voice \<Rightarrow> Parameters \<Rightarrow> nat \<Rightarrow> real" where
  \<comment> \<open>The local \<^verbatim>\<open>f0\<close> of \<^verbatim>\<open>renderInternal\<close> for a block of \<open>bsize\<close> samples: the frequency of
      the note, bent by the pitch envelope and the pitch modulation.\<close>
  "voice_f0 this parameters bsize =
     (let envelopeRate = real bsize;
          adScale = pow2Fast ((0.5 - pa_envelopeControl parameters) * 8) 1;
          rScale = pow2Fast (- \<bar>pa_envelopeControl parameters - 0.3\<bar> * 8) 1;
          gateDuration = 1.5 * vo_sampleRate this;
          envelopeSample = gateDuration * pa_envelopeControl parameters;
          inputNote = pa_note parameters - 24 + real (p_transpose (vo_patch this));
          pitchEnvelope =
            (if pa_sustain parameters
             then renderAtSample (vo_pitchEnvelope this) envelopeSample gateDuration
             else fst (renderScaled (vo_pitchEnvelope this) (pa_gate parameters) envelopeRate
                         adScale rScale));
          pitchMod = pitchEnvelope + pa_pitchMod parameters
      in vo_a0 this * 0.25 * semitonesToRatioSafe (inputNote - 9 + pitchMod * 12))"

definition renderInternal ::
  "real list \<Rightarrow> Voice \<Rightarrow> Parameters \<Rightarrow> View list \<Rightarrow> nat \<Rightarrow> memory \<Rightarrow> error + (Voice \<times> memory)" where
  "renderInternal lut this parameters buffers bsize mem =
     (let s = Voice_setup this
      in if fst s then Inr (snd s, mem)
         else
           let this = snd s;
               envelopeRate = real bsize;
               adScale = pow2Fast ((0.5 - pa_envelopeControl parameters) * 8) 1;
               rScale = pow2Fast (- \<bar>pa_envelopeControl parameters - 0.3\<bar> * 8) 1;
               gateDuration = 1.5 * vo_sampleRate this;
               envelopeSample = gateDuration * pa_envelopeControl parameters;
               inputNote = pa_note parameters - 24 + real (p_transpose (vo_patch this));
               rendered =
                 (if pa_sustain parameters
                  then (renderAtSample (vo_pitchEnvelope this) envelopeSample gateDuration,
                        vo_pitchEnvelope this)
                  else renderScaled (vo_pitchEnvelope this) (pa_gate parameters) envelopeRate
                         adScale rScale);
               pitchEnvelope = fst rendered;
               this = this\<lparr>vo_pitchEnvelope := snd rendered\<rparr>;
               pitchMod = pitchEnvelope + pa_pitchMod parameters;
               f0 = vo_a0 this * 0.25 * semitonesToRatioSafe (inputNote - 9 + pitchMod * 12);
               noteOn = (pa_gate parameters \<and> \<not> vo_gate this);
               this = this\<lparr>vo_gate := pa_gate parameters\<rparr>;
               this = (if noteOn \<or> pa_sustain parameters
                       then this\<lparr>vo_normalizedVelocity :=
                                    normalizeVelocity (pa_velocity parameters),
                                  vo_note := inputNote\<rparr>
                       else this);
               this = (if noteOn \<and> p_resetPhase (vo_patch this) \<noteq> 0
                       then this\<lparr>vo_operator :=
                                    map (\<lambda>opr. opr\<lparr>op_phase := 0\<rparr>) (vo_operator this)\<rparr>
                       else this)
           in case render_operator_levels parameters envelopeRate adScale rScale envelopeSample
                     gateDuration f0 [0, 1, 2, 3, 4, 5]
                     (this, replicate NUM_OPERATORS 0, replicate NUM_OPERATORS 0) of
                Inl e \<Rightarrow> Inl e
              | Inr tfa \<Rightarrow> dispatch lut buffers (fst (snd tfa)) (snd (snd tfa)) 0 (fst tfa, mem))"

definition renderStereo ::
  "real list \<Rightarrow> Voice \<Rightarrow> Parameters \<Rightarrow> View \<Rightarrow> View \<Rightarrow> View \<Rightarrow> memory
     \<Rightarrow> error + (Voice \<times> memory)" where
  "renderStereo lut this parameters temp out aux mem =
     (let bsize = v_length out;
          buffers = [out, aux, subarray temp 0 bsize, subarray temp bsize (bsize * 2)]
      in renderInternal lut this parameters buffers bsize mem)"


section \<open>dx7.js\<close>

text \<open>
  \<^verbatim>\<open>generateSamples\<close> drives an LFO and a voice block by block. What it does per block
  (step the LFO, copy its modulations into the parameters, render the voice into a
  fresh buffer of three times the block size) is its argument \<open>engine\<close> here: a
  function from the state of LFO and voice, the gate and the block size to the new
  state and the buffer. The loops, the silence counter, the truncation and the safety
  limit are the source's.
\<close>

definition MAX_BLOCK_SIZE :: nat where "MAX_BLOCK_SIZE = 24"
definition silenceThreshold :: real where "silenceThreshold = 0.0001"

function gate_loop ::
  "('s \<Rightarrow> bool \<Rightarrow> nat \<Rightarrow> 's \<times> real list) \<Rightarrow> 's \<Rightarrow> int \<Rightarrow> real list \<Rightarrow> 's \<times> real list" where
  \<comment> \<open>Phase 1: \<^verbatim>\<open>while (remaining > 0)\<close>.\<close>
  "gate_loop engine st remaining output =
     (if remaining > 0 then
        let blockSize = nat (min remaining (int MAX_BLOCK_SIZE));
            r = engine st True blockSize;
            output = output @ map (\<lambda>i. snd r ! i) [0..<blockSize]
        in gate_loop engine (fst r) (remaining - int blockSize) output
      else (st, output))"
  by pat_completeness auto
termination
  by (relation "measure (\<lambda>(engine, st, remaining, output). nat remaining)")
    (auto simp: MAX_BLOCK_SIZE_def)

declare gate_loop.simps [simp del]

definition silent_run :: "real list \<Rightarrow> int \<Rightarrow> int" where
  \<comment> \<open>The silence counter after the loop over one rendered chunk.\<close>
  "silent_run chunk consecutiveSilentSamples =
     fold (\<lambda>i consecutiveSilentSamples.
            let sample = chunk ! i
            in if \<bar>sample\<bar> < silenceThreshold then consecutiveSilentSamples + 1 else 0)
       [0..<MAX_BLOCK_SIZE] consecutiveSilentSamples"

function release_loop ::
  "('s \<Rightarrow> bool \<Rightarrow> nat \<Rightarrow> 's \<times> real list) \<Rightarrow> real \<Rightarrow> int \<Rightarrow> 's \<Rightarrow> int \<Rightarrow> real list \<Rightarrow> real list" where
  \<comment> \<open>Phase 2: \<^verbatim>\<open>while (true)\<close> with its two exits. The loop over the chunk pushes each
      of its first 24 samples and updates the silence counter.\<close>
  "release_loop engine sampleRate silenceDurationSamples st consecutiveSilentSamples output =
     (let r = engine st False MAX_BLOCK_SIZE;
          consecutiveSilentSamples = silent_run (snd r) consecutiveSilentSamples;
          output = output @ map (\<lambda>i. snd r ! i) [0..<MAX_BLOCK_SIZE]
      in if consecutiveSilentSamples \<ge> silenceDurationSamples then
           (let truncateTo =
                  max 0 (int (length output)
                         - (consecutiveSilentSamples - silenceDurationSamples))
            in take (nat truncateTo) output)
         else if real (length output) > sampleRate * 10 then output
         else release_loop engine sampleRate silenceDurationSamples (fst r)
                consecutiveSilentSamples output)"
  by pat_completeness auto
termination
proof (relation "measure (\<lambda>(engine, sampleRate, sd, st, c, output).
    nat (\<lfloor>sampleRate * 10\<rfloor> + 25 - int (length output)))")
  show "wf (measure (\<lambda>(engine :: 's \<Rightarrow> bool \<Rightarrow> nat \<Rightarrow> 's \<times> real list, sampleRate :: real,
      sd :: int, st :: 's, c :: int, output :: real list).
    nat (\<lfloor>sampleRate * 10\<rfloor> + 25 - int (length output))))" by simp
next
  fix engine :: "'s \<Rightarrow> bool \<Rightarrow> nat \<Rightarrow> 's \<times> real list"
  fix sampleRate :: real and silenceDurationSamples :: int and st :: 's
  fix consecutiveSilentSamples :: int and outp :: "real list"
  fix r :: "'s \<times> real list" and c :: int and out :: "real list"
  assume "out = outp @ map ((!) (snd r)) [0..<MAX_BLOCK_SIZE]"
    and "\<not> sampleRate * 10 < real (length out)"
  then have "real (length outp + 24) \<le> sampleRate * 10"
    by (simp add: MAX_BLOCK_SIZE_def)
  then have "of_int (int (length outp + 24)) \<le> sampleRate * 10" by simp
  then have "int (length outp + 24) \<le> \<lfloor>sampleRate * 10\<rfloor>" by (simp only: le_floor_iff)
  with \<open>out = outp @ map ((!) (snd r)) [0..<MAX_BLOCK_SIZE]\<close>
  show "((engine, sampleRate, silenceDurationSamples, fst r, c, out),
         (engine, sampleRate, silenceDurationSamples, st, consecutiveSilentSamples, outp))
        \<in> measure (\<lambda>(engine, sampleRate, sd, st, c, outp).
              nat (\<lfloor>sampleRate * 10\<rfloor> + 25 - int (length outp)))"
    by (simp add: MAX_BLOCK_SIZE_def)
qed

declare release_loop.simps [simp del]

definition generateSamples ::
  "('s \<Rightarrow> bool \<Rightarrow> nat \<Rightarrow> 's \<times> real list) \<Rightarrow> 's \<Rightarrow> real \<Rightarrow> real \<Rightarrow> real list" where
  \<comment> \<open>\<open>st\<close> is the state of the voice and the LFO as the source has constructed,
      initialised and reset them for the patch.\<close>
  "generateSamples engine st sampleRate durationMs =
     (let nSamples = \<lfloor>durationMs / 1000 * sampleRate\<rfloor>;
          silenceDurationSamples = \<lfloor>sampleRate * 100 / 1000\<rfloor>;
          (st, output) = gate_loop engine st nSamples []
      in release_loop engine sampleRate silenceDurationSamples st 0 output)"



section \<open>Properties\<close>

subsection \<open>Rounding\<close>

lemma round_half_even_of_int: "round_half_even (of_int z) = z"
  by (simp add: round_half_even_def)

lemma round_to_exact:
  assumes m: "\<bar>m\<bar> < 2 ^ p" 
  shows "round_to p (of_int m * 2 powr of_int e0) = of_int m * 2 powr of_int e0"
proof (cases "m = 0")
  case True
  then show ?thesis by (simp add: round_to_def)
next
  case False
  let ?x = "of_int m * 2 powr of_int e0 :: real"
  have x0: "?x \<noteq> 0" using False by simp
  have ax: "\<bar>?x\<bar> = of_int \<bar>m\<bar> * 2 powr of_int e0" by (simp add: abs_mult)
  have pos: "0 < \<bar>?x\<bar>" using x0 by simp
  from m have "(of_int \<bar>m\<bar> :: real) < 2 ^ p"
    by (metis of_int_less_numeral_power_cancel_iff)
  then have "\<bar>?x\<bar> < 2 ^ p * 2 powr of_int e0"
    unfolding ax by (simp add: mult_strict_right_mono)
  also have "\<dots> = 2 powr (of_int (int p + e0))"
    by (simp add: powr_add powr_realpow)
  finally have "log 2 \<bar>?x\<bar> < of_int (int p + e0)"
    using pos by (simp add: log_less_iff)
  then have "\<lfloor>log 2 \<bar>?x\<bar>\<rfloor> < int p + e0" by (simp only: floor_less_iff)
  then have k: "0 \<le> e0 - (\<lfloor>log 2 \<bar>?x\<bar>\<rfloor> - int p + 1)" by simp
  define e where "e = \<lfloor>log 2 \<bar>?x\<bar>\<rfloor> - int p + 1"
  define k where "k = nat (e0 - e)"
  define u :: real where "u = 2 powr of_int e"
  have upos: "0 < u" by (simp add: u_def)
  have e0: "e0 = e + int k" using k by (simp add: k_def e_def)
  have pw: "(2::real) powr of_int e0 = u * 2 ^ k"
    unfolding u_def
    by (subst e0) (simp only: of_int_add powr_add of_int_of_nat_eq powr_realpow [of 2 k, simplified])
  have "?x / u = of_int m * (u * 2 ^ k) / u" by (simp only: pw)
  also have "\<dots> = of_int (m * 2 ^ k)" using upos by simp
  finally have q: "?x / u = of_int (m * 2 ^ k)" .
  have "round_to p ?x = u * of_int (round_half_even (?x / u))"
    using x0 by (simp add: round_to_def Let_def u_def e_def)
  also have "\<dots> = u * of_int (m * 2 ^ k)"
    by (simp only: q round_half_even_of_int)
  also have "\<dots> = u * (?x / u)" by (simp only: q)
  also have "\<dots> = ?x" using upos by simp
  finally show ?thesis .
qed


lemma round_to_dyadic:
  "\<bar>m\<bar> < 2 ^ p \<Longrightarrow> round_to p (of_int m / 2 ^ k) = of_int m / 2 ^ k"
proof -
  assume m: "\<bar>m\<bar> < 2 ^ p"
  have "(of_int m / 2 ^ k :: real) = of_int m * 2 powr of_int (- int k)"
    by (simp add: powr_minus powr_realpow field_simps)
  with round_to_exact [OF m, of "- int k"] show ?thesis by simp
qed

lemma round_to_int:
  "\<bar>m\<bar> < 2 ^ p \<Longrightarrow> round_to p (of_int m) = of_int m"
  using round_to_dyadic [of m p 0] by simp

lemma round_half_even_ge: "\<lfloor>y\<rfloor> \<le> round_half_even y"
  by (simp add: round_half_even_def Let_def)

lemma round_half_even_le: "round_half_even y \<le> \<lfloor>y\<rfloor> + 1"
  by (simp add: round_half_even_def Let_def)

lemma round_to_pos:
  assumes "0 < x" "2 \<le> p"
  shows "0 < round_to p x"
proof -
  define e where "e = \<lfloor>log 2 \<bar>x\<bar>\<rfloor>"
  define u :: real where "u = 2 powr of_int (e - int p + 1)"
  have upos: "0 < u" by (simp add: u_def)
  have "of_int e \<le> log 2 x" using assms by (simp add: e_def)
  then have "2 powr of_int e \<le> x" using assms by (simp add: le_log_iff)
  moreover have "2 powr of_int e = u * 2 powr (real p - 1)"
    by (simp add: u_def powr_add [symmetric])
  moreover have "(1::real) \<le> 2 powr (real p - 1)"
  proof -
    have "(2::real) powr 0 \<le> 2 powr (real p - 1)" using assms by (intro powr_mono) simp_all
    then show ?thesis by simp
  qed
  ultimately have "u * 1 \<le> x"
    by (metis mult_left_mono order_trans less_imp_le upos)
  then have "1 \<le> x / u" using upos by (simp add: pos_le_divide_eq mult.commute)
  then have "1 \<le> \<lfloor>x / u\<rfloor>" by simp
  then have "1 \<le> round_half_even (x / u)"
    using round_half_even_ge [of "x / u"] by (rule order_trans)
  then have "0 < u * of_int (round_half_even (x / u))" using upos by simp
  then show ?thesis using assms by (simp add: round_to_def Let_def u_def e_def)
qed

lemma round_to_neg:
  assumes "x < 0" "2 \<le> p"
  shows "round_to p x < 0"
proof -
  define e where "e = \<lfloor>log 2 \<bar>x\<bar>\<rfloor>"
  define u :: real where "u = 2 powr of_int (e - int p + 1)"
  have upos: "0 < u" by (simp add: u_def)
  have "of_int e \<le> log 2 \<bar>x\<bar>" by (simp add: e_def)
  then have "2 powr of_int e \<le> \<bar>x\<bar>" using assms by (simp add: le_log_iff)
  moreover have "2 powr of_int e = u * 2 powr (real p - 1)"
    by (simp add: u_def powr_add [symmetric])
  moreover have "(2::real) \<le> 2 powr (real p - 1)"
  proof -
    have "(2::real) powr 1 \<le> 2 powr (real p - 1)" using assms by (intro powr_mono) simp_all
    then show ?thesis by simp
  qed
  ultimately have "u * 2 \<le> \<bar>x\<bar>"
    by (metis mult_left_mono order_trans less_imp_le upos)
  then have "x / u \<le> - 2" using upos assms by (simp add: pos_divide_le_eq mult.commute)
  then have "\<lfloor>x / u\<rfloor> \<le> - 2" by (simp add: floor_le_iff)
  then have "\<lfloor>x / u\<rfloor> + 1 \<le> - 1" by arith
  with round_half_even_le [of "x / u"] have "round_half_even (x / u) \<le> - 1"
    by (rule order_trans)
  then have "round_half_even (x / u) < 0" by simp
  then have "u * of_int (round_half_even (x / u)) < 0" using upos by (simp add: mult_pos_neg)
  then show ?thesis using assms by (simp add: round_to_def Let_def u_def e_def)
qed


lemma round_to_scale:
  "round_to p (x * 2 ^ k) = round_to p x * 2 ^ k"
proof (cases "x = 0")
  case True
  then show ?thesis by (simp add: round_to_def)
next
  case False
  have l: "log 2 \<bar>x * 2 ^ k\<bar> = log 2 \<bar>x\<bar> + real k"
    using False by (simp add: abs_mult log_mult log_nat_power)
  have "\<lfloor>log 2 \<bar>x\<bar> + real k\<rfloor> = \<lfloor>log 2 \<bar>x\<bar>\<rfloor> + int k"
    by (metis floor_add_int of_int_of_nat_eq)
  with l have e: "\<lfloor>log 2 \<bar>x * 2 ^ k\<bar>\<rfloor> = \<lfloor>log 2 \<bar>x\<bar>\<rfloor> + int k" by simp
  define u :: real where "u = 2 powr of_int (\<lfloor>log 2 \<bar>x\<bar>\<rfloor> - int p + 1)"
  have upos: "0 < u" by (simp add: u_def)
  have u': "2 powr of_int (\<lfloor>log 2 \<bar>x\<bar>\<rfloor> + int k - int p + 1) = u * 2 ^ k"
  proof -
    have "2 powr of_int (\<lfloor>log 2 \<bar>x\<bar>\<rfloor> + int k - int p + 1)
        = 2 powr (of_int (\<lfloor>log 2 \<bar>x\<bar>\<rfloor> - int p + 1) + real k)"
      by (simp add: algebra_simps)
    also have "\<dots> = u * 2 powr real k" unfolding u_def by (rule powr_add)
    also have "\<dots> = u * 2 ^ k" by (simp add: powr_realpow)
    finally show ?thesis .
  qed
  have q: "x * 2 ^ k / (u * 2 ^ k) = x / u" by simp
  have "round_to p (x * 2 ^ k) = (u * 2 ^ k) * of_int (round_half_even (x * 2 ^ k / (u * 2 ^ k)))"
    using False unfolding round_to_def Let_def e u' by simp
  also have "\<dots> = (u * of_int (round_half_even (x / u))) * 2 ^ k"
    by (simp only: q) simp
  also have "u * of_int (round_half_even (x / u)) = round_to p x"
    using False by (simp add: round_to_def Let_def u_def)
  finally show ?thesis .
qed

lemma round_to_idem:
  assumes p: "1 \<le> p"
  shows "round_to p (round_to p x) = round_to p x"
proof (cases "x = 0")
  case True
  then show ?thesis by (simp add: round_to_def)
next
  case False
  define e where "e = \<lfloor>log 2 \<bar>x\<bar>\<rfloor>"
  define u :: real where "u = 2 powr of_int (e - int p + 1)"
  define n where "n = round_half_even (x / u)"
  have upos: "0 < u" by (simp add: u_def)
  have r: "round_to p x = of_int n * 2 powr of_int (e - int p + 1)"
    using False by (simp add: round_to_def Let_def u_def e_def n_def)
  have "log 2 \<bar>x\<bar> < of_int e + 1" unfolding e_def by linarith
  then have "\<bar>x\<bar> < 2 powr (of_int e + 1)" using False by (simp add: log_less_iff)
  also have "\<dots> = u * 2 powr real p"
    by (simp add: u_def powr_add [symmetric])
  also have "\<dots> = u * 2 ^ p" by (simp add: powr_realpow)
  finally have "\<bar>x\<bar> / u < 2 ^ p" using upos by (simp add: pos_divide_less_eq mult.commute)
  then have b: "\<bar>x / u\<bar> < 2 ^ p" using upos by simp
  then have "x / u < of_int (2 ^ p)" "- of_int (2 ^ p) < x / u"
    by (simp_all only: abs_less_iff of_int_power of_int_numeral) linarith+
  then have "\<lfloor>x / u\<rfloor> < 2 ^ p" "- (2 ^ p) \<le> \<lfloor>x / u\<rfloor>"
    by (simp_all only: floor_less_iff le_floor_iff of_int_minus)
  with round_half_even_le [of "x / u"] round_half_even_ge [of "x / u"]
  have "n \<le> 2 ^ p" "- (2 ^ p) \<le> n" unfolding n_def by linarith+
  then consider "\<bar>n\<bar> < 2 ^ p" | "n = 2 ^ p" | "n = - (2 ^ p)" by linarith
  then show ?thesis
  proof cases
    case 1
    from round_to_exact [OF 1, of "e - int p + 1"] show ?thesis by (simp only: r)
  next
    case 2
    have "of_int n * 2 powr of_int (e - int p + 1) = (of_int 1 * 2 powr of_int (e + 1) :: real)"
    proof -
      have "of_int n * 2 powr of_int (e - int p + 1) = (2 powr real p * 2 powr of_int (e - int p + 1) :: real)"
        by (simp add: 2 powr_realpow)
      also have "\<dots> = 2 powr of_int (e + 1)" by (simp add: powr_add [symmetric])
      finally show ?thesis by simp
    qed
    moreover have "\<bar>1 :: int\<bar> < 2 ^ p" using p by (simp add: one_less_power)
    from round_to_exact [OF this, of "e + 1"]
    have "round_to p (of_int 1 * 2 powr of_int (e + 1)) = of_int 1 * 2 powr of_int (e + 1)" .
    ultimately show ?thesis by (simp only: r)
  next
    case 3
    have "of_int n * 2 powr of_int (e - int p + 1) = (of_int (- 1) * 2 powr of_int (e + 1) :: real)"
    proof -
      have "of_int n * 2 powr of_int (e - int p + 1) = (- (2 powr real p * 2 powr of_int (e - int p + 1)) :: real)"
        by (simp add: 3 powr_realpow)
      also have "\<dots> = - (2 powr of_int (e + 1))" by (simp add: powr_add [symmetric])
      finally show ?thesis by simp
    qed
    moreover have "\<bar>- 1 :: int\<bar> < 2 ^ p" using p by (simp add: one_less_power)
    from round_to_exact [OF this, of "e + 1"]
    have "round_to p (of_int (- 1) * 2 powr of_int (e + 1)) = of_int (- 1) * 2 powr of_int (e + 1)" .
    ultimately show ?thesis by (simp only: r)
  qed
qed

lemma double_dyadic: "\<bar>m\<bar> < 2 ^ 53 \<Longrightarrow> double (of_int m / 2 ^ k) = of_int m / 2 ^ k"
  unfolding double_def by (rule round_to_dyadic)

lemma double_int: "\<bar>m\<bar> < 2 ^ 53 \<Longrightarrow> double (of_int m) = of_int m"
  unfolding double_def by (rule round_to_int)

lemma float32_int: "\<bar>m\<bar> < 2 ^ 24 \<Longrightarrow> float32 (of_int m) = of_int m"
  unfolding float32_def by (rule round_to_int)

lemma double_idem: "double (double x) = double x"
  unfolding double_def by (rule round_to_idem) simp

lemma float32_idem: "float32 (float32 x) = float32 x"
  unfolding float32_def by (rule round_to_idem) simp

lemma double_scale: "double (x * 2 ^ k) = double x * 2 ^ k"
  unfolding double_def by (rule round_to_scale)

lemma double_pos: "0 < x \<Longrightarrow> 0 < double x"
  unfolding double_def by (rule round_to_pos) simp_all

lemma double_neg: "x < 0 \<Longrightarrow> double x < 0"
  unfolding double_def by (rule round_to_neg) simp_all

lemma float32_pos: "0 < x \<Longrightarrow> 0 < float32 x"
  unfolding float32_def by (rule round_to_pos) simp_all

lemma float32_neg: "x < 0 \<Longrightarrow> float32 x < 0"
  unfolding float32_def by (rule round_to_neg) simp_all

lemma double_0: "double 0 = 0"
  by (simp add: double_def round_to_def)

lemma float32_0: "float32 0 = 0"
  by (simp add: float32_def round_to_def)

subsection \<open>Words\<close>

lemma uint32_of_int_word_of_int: "uint32_of_int x = word_of_int x"
  by (simp add: uint32_of_int_def word_of_int_eq_iff take_bit_eq_mod)

lemma phase_advance_plus: "phase_advance p f = p + f"
  by (simp add: phase_advance_def uint32_of_int_word_of_int)

lemma accumulate_sum: "accumulate p incs = p + sum_list incs"
  unfolding accumulate_def
  by (induction incs arbitrary: p) (simp_all add: phase_advance_plus add.assoc)

lemma accumulate_u64_sum: "accumulate_u64 p incs = ucast p + sum_list (map ucast incs)"
  unfolding accumulate_u64_def
  by (induction incs arbitrary: p rule: rev_induct) simp_all

subsection \<open>Phase accumulation\<close>

lemma sum_list_word_of_nat:
  "sum_list (incs :: 'a::len word list) = word_of_nat (sum_list (map unat incs))"
  by (induction incs) simp_all

lemma sum_list_ucast_of_nat:
  "sum_list (map ucast (incs :: u32 list)) = (word_of_nat (sum_list (map unat incs)) :: u64)"
  by (induction incs) simp_all

lemma ucast_of_nat_down: "(ucast (word_of_nat n :: u64) :: u32) = word_of_nat n"
proof -
  have "(2::nat) ^ 32 dvd 2 ^ 64" by (rule le_imp_power_dvd) simp
  then have "n mod 2 ^ 64 mod 2 ^ 32 = n mod 2 ^ 32" by (rule mod_mod_cancel)
  then have "(word_of_nat (n mod 2 ^ 64) :: u32) = word_of_nat n"
    by (simp add: word_of_nat_eq_iff take_bit_eq_mod)
  moreover have "(ucast (word_of_nat n :: u64) :: u32) = word_of_nat (unat (word_of_nat n :: u64))"
    by simp
  ultimately show ?thesis by (simp add: unat_of_nat)
qed

lemma operator_loop_phase:
  "length (c_phase c) = N \<Longrightarrow>
   c_phase (operator_loop lut N MS frequency ai i c) =
     map (\<lambda>j. if i \<le> j then phase_advance (c_phase c ! j) (frequency ! j) else c_phase c ! j)
       [0..<N]"
proof (induction lut N MS frequency ai i c rule: operator_loop.induct)
  case (1 lut N MS frequency ai i c)
  show ?case
  proof (cases "i < N")
    case False
    with 1(2) show ?thesis
      by (subst operator_loop.simps) (auto intro!: nth_equalityI)
  next
    case True
    let ?phase = "(c_phase c)[i := phase_advance (c_phase c ! i) (frequency ! i)]"
    let ?pm = "sinePm lut (?phase ! i) (c_pm c) * (c_amplitude c ! i)"
    let ?amp = "(c_amplitude c)[i := float32 (c_amplitude c ! i + ai ! i)]"
    let ?c1 = "c\<lparr>c_phase := ?phase, c_amplitude := ?amp, c_pm := ?pm\<rparr>"
    let ?c2 = "if int i = MS then ?c1\<lparr>c_previous1 := c_previous0 ?c1, c_previous0 := ?pm\<rparr> else ?c1"
    have ph: "c_phase ?c2 = ?phase" by simp
    with 1(2) have len: "length (c_phase ?c2) = N" by simp
    have u: "operator_loop lut N MS frequency ai i c = operator_loop lut N MS frequency ai (i + 1) ?c2"
      using True by (subst operator_loop.simps) (simp add: Let_def)
    from 1(1) [OF True refl refl refl refl refl len]
    have "c_phase (operator_loop lut N MS frequency ai (i + 1) ?c2) =
       map (\<lambda>j. if i + 1 \<le> j then phase_advance (c_phase ?c2 ! j) (frequency ! j) else c_phase ?c2 ! j)
         [0..<N]" .
    also have "\<dots> = map (\<lambda>j. if i \<le> j then phase_advance (c_phase c ! j) (frequency ! j) else c_phase c ! j)
       [0..<N]"
    proof (rule map_cong [OF refl])
      fix j assume "j \<in> set [0..<N]"
      then have j: "j < N" by simp
      consider "j < i" | "j = i" | "i < j" by linarith
      then show "(if i + 1 \<le> j then phase_advance (c_phase ?c2 ! j) (frequency ! j) else c_phase ?c2 ! j)
          = (if i \<le> j then phase_advance (c_phase c ! j) (frequency ! j) else c_phase c ! j)"
        unfolding ph using 1(2) True j by cases (simp_all add: nth_list_update)
    qed
    finally show ?thesis by (simp only: u)
  qed
qed


lemma accumulate_replicate_Suc:
  "accumulate p (replicate (Suc n) x) = accumulate (phase_advance p x) (replicate n x)"
  by (simp add: accumulate_def)

lemma sample_loop_phase:
  "length (c_phase (fst cm)) = N \<Longrightarrow>
   c_phase (fst (sample_loop lut N MS ADD frequency ai fbScale modulation out bsize k cm)) =
     map (\<lambda>j. accumulate (c_phase (fst cm) ! j) (replicate (bsize - k) (frequency ! j))) [0..<N]"
proof (induction lut N MS ADD frequency ai fbScale modulation out bsize k cm rule: sample_loop.induct)
  case (1 lut N MS ADD frequency ai fbScale modulation out bsize k cm)
  show ?case
  proof (cases "k < bsize")
    case False
    with 1(2) show ?thesis
      by (subst sample_loop.simps) (auto simp add: accumulate_def intro!: nth_equalityI)
  next
    case True
    obtain c mem where cm: "cm = (c, mem)" by (cases cm)
    let ?pm = "if MS \<ge> 0 then (c_previous0 c + c_previous1 c) * fbScale
                  else if MS = - 2 then view_get mem modulation k else 0"
    let ?c = "operator_loop lut N MS frequency ai 0 (c\<lparr>c_pm := ?pm\<rparr>)"
    let ?mem = "if ADD then view_set mem out k (view_get mem out k + c_pm ?c)
                   else view_set mem out k (c_pm ?c)"
    from 1(2) cm have lc: "length (c_phase (c\<lparr>c_pm := ?pm\<rparr>)) = N" by simp
    have ph: "c_phase ?c = map (\<lambda>j. phase_advance (c_phase c ! j) (frequency ! j)) [0..<N]"
      using operator_loop_phase [OF lc, of lut MS frequency ai 0] by simp
    then have len: "length (c_phase (fst (?c, ?mem))) = N" by simp
    have u: "sample_loop lut N MS ADD frequency ai fbScale modulation out bsize k cm =
             sample_loop lut N MS ADD frequency ai fbScale modulation out bsize (k + 1) (?c, ?mem)"
      using True unfolding cm by (subst sample_loop.simps) (simp add: Let_def)
    from True have b: "bsize - k = Suc (bsize - (k + 1))" by simp
    from 1(1) [OF True refl cm [symmetric] refl refl refl len]
    have "c_phase (fst (sample_loop lut N MS ADD frequency ai fbScale modulation out bsize (k + 1) (?c, ?mem))) =
       map (\<lambda>j. accumulate (c_phase (fst (?c, ?mem)) ! j) (replicate (bsize - (k + 1)) (frequency ! j))) [0..<N]" .
    also have "\<dots> = map (\<lambda>j. accumulate (c_phase (fst cm) ! j) (replicate (bsize - k) (frequency ! j))) [0..<N]"
      unfolding b accumulate_replicate_Suc cm fst_conv ph
      by (rule map_cong [OF refl]) simp
    finally show ?thesis by (simp only: u)
  qed
qed

lemma renderOperators_phase:
  assumes "N \<le> length ops"
  shows "\<exists>ops' fb' mem'.
     renderOperators N MS ADD lut ops f a fbState fbAmount modulation out mem = Inr (ops', fb', mem')
     \<and> length ops' = length ops
     \<and> (\<forall>i<N. op_phase (ops' ! i) =
           accumulate (op_phase (ops ! i))
             (replicate (v_length out) (to_uint32 (min (f ! i) 0.5 * 4294967296))))
     \<and> (\<forall>i. N \<le> i \<longrightarrow> i < length ops \<longrightarrow> ops' ! i = ops ! i)"
  using assms unfolding renderOperators_def Let_def split_beta
  by (simp add: sample_loop_phase)


lemma accumulate_append: "accumulate p (xs @ ys) = accumulate (accumulate p xs) ys"
  by (simp add: accumulate_def)

lemma renderOperators_blocks_phase:
  "N \<le> length ops \<Longrightarrow>
   \<exists>ops' fb' mem'.
     renderOperators_blocks N MS ADD lut blocks (ops, fbState, mem) = Inr (ops', fb', mem')
     \<and> length ops' = length ops
     \<and> (\<forall>i<N. op_phase (ops' ! i) =
           accumulate (op_phase (ops ! i))
             (concat (map (\<lambda>(f, a, fbAmount, modulation, out).
                replicate (v_length out) (to_uint32 (min (f ! i) 0.5 * 4294967296))) blocks)))"
proof (induction blocks arbitrary: ops fbState mem)
  case Nil
  show ?case by (simp add: accumulate_def)
next
  case (Cons b blocks)
  obtain f a fbAmount modulation out where b: "b = (f, a, fbAmount, modulation, out)"
    by (cases b)
  from renderOperators_phase [OF Cons.prems, of MS ADD lut f a fbState fbAmount modulation out mem]
  obtain ops1 fb1 mem1 where
    r: "renderOperators N MS ADD lut ops f a fbState fbAmount modulation out mem = Inr (ops1, fb1, mem1)"
    and l: "length ops1 = length ops"
    and p: "\<forall>i<N. op_phase (ops1 ! i) =
           accumulate (op_phase (ops ! i))
             (replicate (v_length out) (to_uint32 (min (f ! i) 0.5 * 4294967296)))"
    by blast
  from Cons.prems l have "N \<le> length ops1" by simp
  from Cons.IH [OF this, of fb1 mem1]
  obtain ops' fb' mem' where
    r': "renderOperators_blocks N MS ADD lut blocks (ops1, fb1, mem1) = Inr (ops', fb', mem')"
    and l': "length ops' = length ops1"
    and p': "\<forall>i<N. op_phase (ops' ! i) =
           accumulate (op_phase (ops1 ! i))
             (concat (map (\<lambda>(f, a, fbAmount, modulation, out).
                replicate (v_length out) (to_uint32 (min (f ! i) 0.5 * 4294967296))) blocks))"
    by blast
  have "renderOperators_blocks N MS ADD lut (b # blocks) (ops, fbState, mem) = Inr (ops', fb', mem')"
    by (simp add: b r r')
  moreover have "length ops' = length ops" using l l' by simp
  moreover have "\<forall>i<N. op_phase (ops' ! i) =
           accumulate (op_phase (ops ! i))
             (concat (map (\<lambda>(f, a, fbAmount, modulation, out).
                replicate (v_length out) (to_uint32 (min (f ! i) 0.5 * 4294967296))) (b # blocks)))"
    using p p' by (simp add: b accumulate_append)
  ultimately show ?case by blast
qed

lemma accumulate_ucast: "accumulate p incs = ucast (accumulate_u64 p incs)"
proof -
  have a: "accumulate p incs = word_of_nat (unat p + sum_list (map unat incs))"
    by (simp add: accumulate_sum sum_list_word_of_nat [of incs])
  have "accumulate_u64 p incs = word_of_nat (unat p + sum_list (map unat incs))"
    by (simp add: accumulate_u64_sum sum_list_ucast_of_nat)
  with a show ?thesis by (simp only: ucast_of_nat_down)
qed

lemma accumulate_unat:
  "unat (accumulate p incs) = (unat p + sum_list (map unat incs)) mod 2 ^ 32"
proof -
  have a: "accumulate p incs = word_of_nat (unat p + sum_list (map unat incs))"
    by (simp add: accumulate_sum sum_list_word_of_nat [of incs])
  have "unat (word_of_nat (unat p + sum_list (map unat incs)) :: u32)
          = (unat p + sum_list (map unat incs)) mod 2 ^ 32"
    by (simp only: unat_of_nat) simp
  with a show ?thesis by (simp only:)
qed

text \<open>
  Claim C8. Starting from any 32-bit phase \<open>p\<close>, advancing it by the 32-bit increments
  of any finite list, each time by the renderer's update
  \<^verbatim>\<open>phase = (phase + increment) >>> 0\<close>, ends at \<open>(p + i\<^sub>1 + \<dots> + i\<^sub>n) mod 2\<^sup>3\<^sup>2\<close>, which is
  also what a 64-bit accumulation of the same values gives once truncated to 32 bits.
  This is what the chain renderer does to its operators: a call of a renderer of \<open>N\<close>
  operators on at least \<open>N\<close> operators returns, and the phase it leaves in operator \<open>i\<close>
  is the accumulation, from the phase it found there, of the increment
  \<^verbatim>\<open>(Math.min(f[i], 0.5) * 4294967296.0) >>> 0\<close> once per sample of the output buffer;
  over a sequence of calls, of the increments of the calls one after the other.
\<close>

theorem C8_phase_accumulation_exact:
  "accumulate p incs = ucast (accumulate_u64 p incs)
   \<and> unat (accumulate p incs) = (unat p + sum_list (map unat incs)) mod 2 ^ 32
   \<and> (N \<le> length ops \<longrightarrow>
        (\<exists>ops' fb' mem'.
           renderOperators N MS ADD lut ops f a fbState fbAmount modulation out mem
             = Inr (ops', fb', mem')
           \<and> (\<forall>i<N.
                 op_phase (ops' ! i) =
                   accumulate (op_phase (ops ! i))
                     (replicate (v_length out) (to_uint32 (min (f ! i) 0.5 * 4294967296)))
                 \<and> op_phase (ops' ! i) =
                   ucast (accumulate_u64 (op_phase (ops ! i))
                     (replicate (v_length out) (to_uint32 (min (f ! i) 0.5 * 4294967296)))))))
   \<and> (N \<le> length ops \<longrightarrow>
        (\<exists>ops' fb' mem'.
           renderOperators_blocks N MS ADD lut blocks (ops, fbState, mem) = Inr (ops', fb', mem')
           \<and> (\<forall>i<N.
                 op_phase (ops' ! i) =
                   accumulate (op_phase (ops ! i))
                     (concat (map (\<lambda>(f, a, fbAmount, modulation, out).
                        replicate (v_length out) (to_uint32 (min (f ! i) 0.5 * 4294967296)))
                        blocks))
                 \<and> op_phase (ops' ! i) =
                   ucast (accumulate_u64 (op_phase (ops ! i))
                     (concat (map (\<lambda>(f, a, fbAmount, modulation, out).
                        replicate (v_length out) (to_uint32 (min (f ! i) 0.5 * 4294967296)))
                        blocks))))))"
proof (intro conjI impI)
  show "accumulate p incs = ucast (accumulate_u64 p incs)" by (rule accumulate_ucast)
  show "unat (accumulate p incs) = (unat p + sum_list (map unat incs)) mod 2 ^ 32"
    by (rule accumulate_unat)
next
  assume n: "N \<le> length ops"
  from renderOperators_phase [OF n, of MS ADD lut f a fbState fbAmount modulation out mem]
  obtain ops' fb' mem' where
    r: "renderOperators N MS ADD lut ops f a fbState fbAmount modulation out mem = Inr (ops', fb', mem')"
    and p: "\<forall>i<N. op_phase (ops' ! i) =
           accumulate (op_phase (ops ! i))
             (replicate (v_length out) (to_uint32 (min (f ! i) 0.5 * 4294967296)))"
    by blast
  from p have "\<forall>i<N. op_phase (ops' ! i) =
                   accumulate (op_phase (ops ! i))
                     (replicate (v_length out) (to_uint32 (min (f ! i) 0.5 * 4294967296)))
                 \<and> op_phase (ops' ! i) =
                   ucast (accumulate_u64 (op_phase (ops ! i))
                     (replicate (v_length out) (to_uint32 (min (f ! i) 0.5 * 4294967296))))"
    by (simp only: accumulate_ucast [symmetric] simp_thms)
  with r show "\<exists>ops' fb' mem'.
           renderOperators N MS ADD lut ops f a fbState fbAmount modulation out mem
             = Inr (ops', fb', mem')
           \<and> (\<forall>i<N.
                 op_phase (ops' ! i) =
                   accumulate (op_phase (ops ! i))
                     (replicate (v_length out) (to_uint32 (min (f ! i) 0.5 * 4294967296)))
                 \<and> op_phase (ops' ! i) =
                   ucast (accumulate_u64 (op_phase (ops ! i))
                     (replicate (v_length out) (to_uint32 (min (f ! i) 0.5 * 4294967296)))))"
    by blast
next
  assume n: "N \<le> length ops"
  from renderOperators_blocks_phase [OF n, of MS ADD lut blocks fbState mem]
  obtain ops' fb' mem' where
    r: "renderOperators_blocks N MS ADD lut blocks (ops, fbState, mem) = Inr (ops', fb', mem')"
    and p: "\<forall>i<N. op_phase (ops' ! i) =
           accumulate (op_phase (ops ! i))
             (concat (map (\<lambda>(f, a, fbAmount, modulation, out).
                replicate (v_length out) (to_uint32 (min (f ! i) 0.5 * 4294967296))) blocks))"
    by blast
  from p have "\<forall>i<N.
                 op_phase (ops' ! i) =
                   accumulate (op_phase (ops ! i))
                     (concat (map (\<lambda>(f, a, fbAmount, modulation, out).
                        replicate (v_length out) (to_uint32 (min (f ! i) 0.5 * 4294967296)))
                        blocks))
                 \<and> op_phase (ops' ! i) =
                   ucast (accumulate_u64 (op_phase (ops ! i))
                     (concat (map (\<lambda>(f, a, fbAmount, modulation, out).
                        replicate (v_length out) (to_uint32 (min (f ! i) 0.5 * 4294967296)))
                        blocks)))"
    by (simp only: accumulate_ucast [symmetric] simp_thms)
  with r show "\<exists>ops' fb' mem'.
           renderOperators_blocks N MS ADD lut blocks (ops, fbState, mem) = Inr (ops', fb', mem')
           \<and> (\<forall>i<N.
                 op_phase (ops' ! i) =
                   accumulate (op_phase (ops ! i))
                     (concat (map (\<lambda>(f, a, fbAmount, modulation, out).
                        replicate (v_length out) (to_uint32 (min (f ! i) 0.5 * 4294967296)))
                        blocks))
                 \<and> op_phase (ops' ! i) =
                   ucast (accumulate_u64 (op_phase (ops ! i))
                     (concat (map (\<lambda>(f, a, fbAmount, modulation, out).
                        replicate (v_length out) (to_uint32 (min (f ! i) 0.5 * 4294967296)))
                        blocks))))"
    by blast
qed

lemma to_uint32_quarter: "to_uint32 1073741824 = 1073741824"
  by (simp add: to_uint32_def js_trunc_def uint32_of_int_word_of_int)

theorem C8_witness:
  "(1 :: nat) \<le> length [\<lparr>op_phase = 4294967295, op_amplitude = 0\<rparr>]
   \<and> (\<exists>ops' fb' mem'.
         renderOperators 1 (- 1) False LUT_SINE [\<lparr>op_phase = 4294967295, op_amplitude = 0\<rparr>]
           [1 / 4] [1] [0, 0] 0 \<lparr>v_array = 0, v_begin = 0, v_length = 3\<rparr>
           \<lparr>v_array = 0, v_begin = 0, v_length = 3\<rparr> [[0, 0, 0]] = Inr (ops', fb', mem')
         \<and> op_phase (ops' ! 0) = 3221225471)"
  using C8_phase_accumulation_exact [of 0 "[]" 1 "[\<lparr>op_phase = 4294967295, op_amplitude = 0\<rparr>]"
      "- 1" False LUT_SINE "[1 / 4]" "[1]" "[0, 0]" 0 "\<lparr>v_array = 0, v_begin = 0, v_length = 3\<rparr>"
      "\<lparr>v_array = 0, v_begin = 0, v_length = 3\<rparr>" "[[0, 0, 0]]" "[]"]
  by (auto simp add: to_uint32_quarter accumulate_def phase_advance_plus numeral_3_eq_3)

subsection \<open>LFO units\<close>

text \<open>
  Claim C5, as stated, fails: \<^verbatim>\<open>lfoFrequency(0)\<close> is eleven times the minimum LFO
  frequency, so multiplying it by the inverse of that minimum and by 11 gives 121.
\<close>

theorem C5_counterexample:
  "lfoFrequency 0 * inverse MIN_LFO_FREQUENCY * 11 \<noteq> 1"
  by (simp add: lfoFrequency_def MIN_LFO_FREQUENCY_def)

text \<open>
  Claim C5, amended. \<^verbatim>\<open>lfoFrequency(0)\<close> is \<open>11 \<sqdot> MIN_LFO_FREQUENCY\<close> with
  \<open>MIN_LFO_FREQUENCY = 0.005865\<close>: multiplied by the inverse of the minimum and divided
  by 11 it equals 1. \<^verbatim>\<open>lfoDelay(0)\<close> is the pair \<open>(10\<^sup>5, 10\<^sup>5)\<close>.
\<close>

theorem C5_lfo_units_at_zero:
  "lfoFrequency 0 * inverse MIN_LFO_FREQUENCY / 11 = 1
   \<and> lfoFrequency 0 = 11 * MIN_LFO_FREQUENCY
   \<and> MIN_LFO_FREQUENCY = 5865 / 1000000
   \<and> lfoDelay 0 = [100000, 100000]"
  by (simp add: lfoFrequency_def MIN_LFO_FREQUENCY_def lfoDelay_def)

subsection \<open>Patch decoding\<close>

text \<open>
  Claim C2 at a voice whose byte 116 has its top bit set: the decoder shifts that byte
  right by four and does not mask the result, so the pitch modulation sensitivity comes
  out as 8, outside \<open>0..7\<close>.
\<close>

theorem C2_pitchModSensitivity_unmasked:
  "case fromBytes (replicate 116 0 @ [0x80] @ replicate 11 0) of
     Inl e \<Rightarrow> False
   | Inr p \<Rightarrow> mp_pitchModSensitivity (p_modulations p) = 8"
  by (simp add: fromBytes_def unpack_def SYX_SIZE_def Let_def nth_append)


subsection \<open>Bank and voice errors\<close>

lemma unpack_ok: "length voice = 128 \<Longrightarrow> \<exists>p. unpack this voice = Inr p"
  by (simp add: unpack_def SYX_SIZE_def Let_def)

lemma unpack_bad: "length voice \<noteq> 128 \<Longrightarrow> unpack this voice = Inl BadVoiceLength"
  by (simp add: unpack_def SYX_SIZE_def)

lemma parse_patches_all:
  "\<forall>idx \<in> set idxs. length (slice patchData (idx * 128) ((idx + 1) * 128)) = 128 \<Longrightarrow>
   \<exists>ps. parse_patches patchData idxs acc = Inr (acc @ ps) \<and> length ps = length idxs
     \<and> (\<forall>k < length idxs.
           fromBytes (slice patchData ((idxs ! k) * 128) ((idxs ! k + 1) * 128)) = Inr (ps ! k))"
proof (induction idxs arbitrary: acc)
  case Nil
  then show ?case by simp
next
  case (Cons idx rest)
  from Cons.prems obtain p where
    p: "fromBytes (slice patchData (idx * 128) ((idx + 1) * 128)) = Inr p"
    using unpack_ok [of "slice patchData (idx * 128) ((idx + 1) * 128)" Patch_new]
    by (auto simp: fromBytes_def)
  from Cons.prems Cons.IH [of "acc @ [p]"] obtain ps where
    ps: "parse_patches patchData rest (acc @ [p]) = Inr (acc @ [p] @ ps)"
      "length ps = length rest"
      "\<forall>k < length rest.
         fromBytes (slice patchData ((rest ! k) * 128) ((rest ! k + 1) * 128)) = Inr (ps ! k)"
    by auto
  have "\<forall>k < length (idx # rest).
      fromBytes (slice patchData (((idx # rest) ! k) * 128) (((idx # rest) ! k + 1) * 128))
        = Inr ((p # ps) ! k)"
    using p ps(3) by (auto simp: nth_Cons split: nat.splits)
  with p ps(1,2) show ?case
    by (intro exI [of _ "p # ps"]) (simp add: SYX_SIZE_def)
qed

lemma header_matches_iff:
  "6 \<le> length data \<Longrightarrow> header_matches data \<longleftrightarrow> take 6 data = HEADER_BANK"
proof -
  assume len: "6 \<le> length data"
  have six: "\<And>P. (\<forall>i<6::nat. P i) \<longleftrightarrow> P 0 \<and> P 1 \<and> P 2 \<and> P 3 \<and> P 4 \<and> P 5"
    by (simp add: numeral_eq_Suc less_Suc_eq) blast
  from len show ?thesis
    by (simp add: header_matches_def list_eq_iff_nth_eq [of "take 6 data"] six HEADER_BANK_def)
qed

lemma PatchBank_errors:
  "(PatchBank data = Inl BadBankLength \<longleftrightarrow> length data \<noteq> 4104)
   \<and> (PatchBank data = Inl BadBankHeader \<longleftrightarrow> length data = 4104 \<and> take 6 data \<noteq> HEADER_BANK)
   \<and> ((\<exists>ps. PatchBank data = Inr ps) \<longleftrightarrow> length data = 4104 \<and> take 6 data = HEADER_BANK)
   \<and> (\<forall>ps. PatchBank data = Inr ps \<longrightarrow>
         length ps = 32
         \<and> (\<forall>k<32. fromBytes (slice data (6 + 128 * k) (6 + 128 * (k + 1))) = Inr (ps ! k)))
   \<and> (unpack this voice = Inl BadVoiceLength \<longleftrightarrow> length voice \<noteq> 128)
   \<and> ((\<exists>p. unpack this voice = Inr p) \<longleftrightarrow> length voice = 128)
   \<and> HEADER_BANK = [0xF0, 0x43, 0x00, 0x09, 0x20, 0x00]"
proof -
  have bad_len: "PatchBank data = Inl BadBankLength" if "length data \<noteq> 4104"
    using that by (simp add: PatchBank_def BULK_FULL_SYSEX_SIZE_def)
  have bad_hdr: "PatchBank data = Inl BadBankHeader"
    if "length data = 4104" "take 6 data \<noteq> HEADER_BANK"
    using that header_matches_iff [of data]
    by (simp add: PatchBank_def BULK_FULL_SYSEX_SIZE_def)
  have good: "\<exists>ps. PatchBank data = Inr ps \<and> length ps = 32
         \<and> (\<forall>k<32. fromBytes (slice data (6 + 128 * k) (6 + 128 * (k + 1))) = Inr (ps ! k))"
    if len: "length data = 4104" and hdr: "take 6 data = HEADER_BANK"
  proof -
    let ?pd = "slice data 6 (length data)"
    have sl: "slice ?pd (idx * 128) ((idx + 1) * 128) = slice data (6 + 128 * idx) (6 + 128 * (idx + 1))"
      if "idx < 32" for idx
      using that len by (simp add: slice_def take_drop min_def ac_simps)
    have "\<forall>idx \<in> set [0..<32]. length (slice ?pd (idx * 128) ((idx + 1) * 128)) = 128"
      using len by (auto simp: slice_def)
    from parse_patches_all [OF this, of "[]"] obtain ps where
      ps: "parse_patches ?pd [0..<32] [] = Inr ps" "length ps = 32"
        "\<forall>k < 32. fromBytes (slice ?pd (k * 128) ((k + 1) * 128)) = Inr (ps ! k)"
      by auto
    from ps(3) sl
    have "\<forall>k<32. fromBytes (slice data (6 + 128 * k) (6 + 128 * (k + 1))) = Inr (ps ! k)"
      by simp
    with ps(1,2) len hdr header_matches_iff [of data] show ?thesis
      by (simp add: PatchBank_def BULK_FULL_SYSEX_SIZE_def BANK_PATCHES_def)
  qed
  consider (a) "length data \<noteq> 4104"
    | (b) "length data = 4104" "take 6 data \<noteq> HEADER_BANK"
    | (c) "length data = 4104" "take 6 data = HEADER_BANK"
    by blast
  then have bank:
    "(PatchBank data = Inl BadBankLength \<longleftrightarrow> length data \<noteq> 4104)
     \<and> (PatchBank data = Inl BadBankHeader \<longleftrightarrow> length data = 4104 \<and> take 6 data \<noteq> HEADER_BANK)
     \<and> ((\<exists>ps. PatchBank data = Inr ps) \<longleftrightarrow> length data = 4104 \<and> take 6 data = HEADER_BANK)
     \<and> (\<forall>ps. PatchBank data = Inr ps \<longrightarrow>
           length ps = 32
           \<and> (\<forall>k<32. fromBytes (slice data (6 + 128 * k) (6 + 128 * (k + 1))) = Inr (ps ! k)))"
  proof cases
    case a
    with bad_len show ?thesis by simp
  next
    case b
    with bad_hdr show ?thesis by simp
  next
    case c
    from good [OF c] obtain ps where "PatchBank data = Inr ps" "length ps = 32"
      "\<forall>k<32. fromBytes (slice data (6 + 128 * k) (6 + 128 * (k + 1))) = Inr (ps ! k)"
      by blast
    with c show ?thesis by simp
  qed
  have voice: "(unpack this voice = Inl BadVoiceLength \<longleftrightarrow> length voice \<noteq> 128)
     \<and> ((\<exists>p. unpack this voice = Inr p) \<longleftrightarrow> length voice = 128)"
  proof (cases "length voice = 128")
    case True
    with unpack_ok [of voice this] show ?thesis by auto
  next
    case False
    with unpack_bad [of voice this] show ?thesis by simp
  qed
  have hb: "HEADER_BANK = [0xF0, 0x43, 0x00, 0x09, 0x20, 0x00]"
    by (simp add: HEADER_BANK_def)
  from bank voice hb show ?thesis by (elim conjE) (intro conjI; assumption)
qed

lemma masked_le: "masked b k m \<le> unat m"
  unfolding masked_def by (simp add: word_and_le1 word_le_nat_alt [symmetric])

lemma unpack_fields:
  assumes "length voice = 128"
  shows "\<exists>p. fromBytes voice = Inr p
     \<and> p_algorithm p \<le> 31 \<and> p_feedback p \<le> 7 \<and> p_transpose p \<le> 48
     \<and> mp_rate (p_modulations p) \<le> 99 \<and> mp_delay (p_modulations p) \<le> 99
     \<and> mp_pitchModDepth (p_modulations p) \<le> 99 \<and> mp_ampModDepth (p_modulations p) \<le> 99
     \<and> mp_waveform (p_modulations p) \<le> 5
     \<and> mp_pitchModSensitivity (p_modulations p) = unat (voice ! 116) div 16"
proof -
  have a: "masked (voice ! 110) 0 0x1f \<le> 31" using masked_le [of "voice ! 110" 0 "0x1f"] by simp
  have b: "masked (voice ! 111) 0 0x7 \<le> 7" using masked_le [of "voice ! 111" 0 "0x7"] by simp
  have c: "unat (drop_bit 4 (voice ! 116)) = unat (voice ! 116) div 16"
    by (simp add: drop_bit_eq_div unat_div)
  from assms a b c show ?thesis
    by (simp add: fromBytes_def unpack_def SYX_SIZE_def Let_def del: fold.simps)
qed

lemma bank_slice0:
  "slice (HEADER_BANK @ replicate 116 0 @ [0xFF] @ replicate 3981 (0 :: u8)) 6 134
     = replicate 116 0 @ [0xFF] @ replicate 11 0"
  by (simp add: slice_def HEADER_BANK_def)


text \<open>
  Claim C6. The bank constructor fails with the length error exactly when its input is
  not 4104 bytes long, with the header error exactly when the input is 4104 bytes long
  and its first six bytes are not \<open>F0 43 00 09 20 00\<close>, and otherwise returns 32
  patches, each the decoding of its own 128 bytes. Decoding a single voice fails
  exactly when its input is not 128 bytes long. There is no other failure: whatever the
  bytes hold, a voice of the right length decodes, and its algorithm, feedback,
  transpose and LFO rate, delay, depths and waveform are masked and clamped to their
  ranges. The last clause of the claim, that every out-of-range field is clamped, fails
  at the pitch modulation sensitivity, which is byte 116 shifted right by four and
  neither masked nor clamped: in the bank with the canonical header whose first voice
  has byte 116 equal to \<open>FF\<close>, the first patch has sensitivity 15, outside \<open>0..7\<close>. This
  is the missing mask of claim C2.
\<close>

theorem C6_errors_and_unclamped_field:
  "(PatchBank data = Inl BadBankLength \<longleftrightarrow> length data \<noteq> 4104)
   \<and> (PatchBank data = Inl BadBankHeader \<longleftrightarrow> length data = 4104 \<and> take 6 data \<noteq> HEADER_BANK)
   \<and> ((\<exists>ps. PatchBank data = Inr ps) \<longleftrightarrow> length data = 4104 \<and> take 6 data = HEADER_BANK)
   \<and> (\<forall>ps. PatchBank data = Inr ps \<longrightarrow>
         length ps = 32
         \<and> (\<forall>k<32. fromBytes (slice data (6 + 128 * k) (6 + 128 * (k + 1))) = Inr (ps ! k)))
   \<and> (unpack this voice = Inl BadVoiceLength \<longleftrightarrow> length voice \<noteq> 128)
   \<and> ((\<exists>p. unpack this voice = Inr p) \<longleftrightarrow> length voice = 128)
   \<and> HEADER_BANK = [0xF0, 0x43, 0x00, 0x09, 0x20, 0x00]
   \<and> (length voice = 128 \<longrightarrow>
        (\<exists>p. fromBytes voice = Inr p
           \<and> p_algorithm p \<le> 31 \<and> p_feedback p \<le> 7 \<and> p_transpose p \<le> 48
           \<and> mp_rate (p_modulations p) \<le> 99 \<and> mp_delay (p_modulations p) \<le> 99
           \<and> mp_pitchModDepth (p_modulations p) \<le> 99 \<and> mp_ampModDepth (p_modulations p) \<le> 99
           \<and> mp_waveform (p_modulations p) \<le> 5
           \<and> mp_pitchModSensitivity (p_modulations p) = unat (voice ! 116) div 16))
   \<and> (\<exists>ps. PatchBank (HEADER_BANK @ replicate 116 0 @ [0xFF] @ replicate 3981 0) = Inr ps
         \<and> mp_pitchModSensitivity (p_modulations (ps ! 0)) = 15)"
proof -
  let ?bank = "HEADER_BANK @ replicate 116 0 @ [0xFF] @ replicate 3981 (0 :: u8)"
  let ?voice = "replicate 116 0 @ [0xFF] @ replicate 11 (0 :: u8)"
  have l: "length ?bank = 4104" and h: "take 6 ?bank = HEADER_BANK"
    by (simp_all add: HEADER_BANK_def)
  from l h PatchBank_errors [of ?bank this voice] obtain ps where
    ps: "PatchBank ?bank = Inr ps"
      "\<forall>k<32. fromBytes (slice ?bank (6 + 128 * k) (6 + 128 * (k + 1))) = Inr (ps ! k)"
    by blast
  from ps(2) [rule_format, of 0] have "fromBytes (slice ?bank 6 134) = Inr (ps ! 0)"
    by simp
  then have "fromBytes ?voice = Inr (ps ! 0)" by (simp only: bank_slice0)
  moreover from unpack_fields [of ?voice] obtain p where
    "fromBytes ?voice = Inr p" "mp_pitchModSensitivity (p_modulations p) = unat (?voice ! 116) div 16"
    by auto
  ultimately have "mp_pitchModSensitivity (p_modulations (ps ! 0)) = 15"
    by (simp add: nth_append)
  with ps(1) have bug: "\<exists>ps. PatchBank ?bank = Inr ps
         \<and> mp_pitchModSensitivity (p_modulations (ps ! 0)) = 15" by blast
  from unpack_fields [of voice]
  have fields: "length voice = 128 \<longrightarrow>
        (\<exists>p. fromBytes voice = Inr p
           \<and> p_algorithm p \<le> 31 \<and> p_feedback p \<le> 7 \<and> p_transpose p \<le> 48
           \<and> mp_rate (p_modulations p) \<le> 99 \<and> mp_delay (p_modulations p) \<le> 99
           \<and> mp_pitchModDepth (p_modulations p) \<le> 99 \<and> mp_ampModDepth (p_modulations p) \<le> 99
           \<and> mp_waveform (p_modulations p) \<le> 5
           \<and> mp_pitchModSensitivity (p_modulations p) = unat (voice ! 116) div 16)"
    by blast
  from PatchBank_errors [of data this voice] fields bug show ?thesis
    by (elim conjE) (intro conjI; assumption)
qed

theorem C6_witness:
  "length (HEADER_BANK @ replicate 4098 (0 :: u8)) = 4104
   \<and> take 6 (HEADER_BANK @ replicate 4098 (0 :: u8)) = HEADER_BANK
   \<and> (\<exists>ps. PatchBank (HEADER_BANK @ replicate 4098 0) = Inr ps \<and> length ps = 32)
   \<and> PatchBank (replicate 4104 0) = Inl BadBankHeader
   \<and> PatchBank [] = Inl BadBankLength
   \<and> unpack Patch_new [] = Inl BadVoiceLength
   \<and> (\<exists>p. unpack Patch_new (replicate 128 0xFF) = Inr p)
   \<and> (\<exists>p. fromBytes (replicate 128 0xFF) = Inr p
         \<and> mp_waveform (p_modulations p) \<le> 5
         \<and> mp_pitchModSensitivity (p_modulations p) = 15)"
proof -
  have rep6: "replicate 6 x = [x, x, x, x, x, x]" for x :: u8
    by (simp add: numeral_eq_Suc)
  have l: "length (HEADER_BANK @ replicate 4098 (0 :: u8)) = 4104"
    and h: "take 6 (HEADER_BANK @ replicate 4098 (0 :: u8)) = HEADER_BANK"
    and h': "take 6 (replicate 4104 (0 :: u8)) \<noteq> HEADER_BANK"
    by (simp_all add: HEADER_BANK_def rep6)
  from l h C6_errors_and_unclamped_field [of "HEADER_BANK @ replicate 4098 0" Patch_new "replicate 128 0xFF"]
  have "\<exists>ps. PatchBank (HEADER_BANK @ replicate 4098 0) = Inr ps \<and> length ps = 32 "
     and "\<exists>p. unpack Patch_new (replicate 128 0xFF) = Inr p"
     and "\<exists>p. fromBytes (replicate 128 0xFF) = Inr p
         \<and> mp_waveform (p_modulations p) \<le> 5
         \<and> mp_pitchModSensitivity (p_modulations p) = 15"
    by auto
  moreover from h' C6_errors_and_unclamped_field [of "replicate 4104 0" Patch_new "[]"]
  have "PatchBank (replicate 4104 0) = Inl BadBankHeader"
    and "unpack Patch_new [] = Inl BadVoiceLength" by simp_all
  moreover from C6_errors_and_unclamped_field [of "[]" Patch_new "[]"]
  have "PatchBank [] = Inl BadBankLength" by simp
  ultimately show ?thesis using l h by simp
qed


subsection \<open>Sine primitives\<close>

lemma js_trunc_nonneg: "0 \<le> x \<Longrightarrow> js_trunc x = \<lfloor>x\<rfloor>"
  by (simp add: js_trunc_def)

lemma to_uint32_period: "0 \<le> x \<Longrightarrow> to_uint32 (x + 4294967296) = to_uint32 x"
proof -
  assume x: "0 \<le> x"
  have "\<lfloor>x + 4294967296\<rfloor> = \<lfloor>x\<rfloor> + 4294967296" by linarith
  with x show ?thesis
    by (simp add: to_uint32_def js_trunc_nonneg uint32_of_int_word_of_int)
qed

lemma double_scale_26: "double (double x * 67108864) = double x * 67108864"
proof -
  have "double (double x * 2 ^ 26) = double (double x) * 2 ^ 26" by (rule double_scale)
  then show ?thesis by (simp add: double_idem)
qed

lemma sinePm_phase_unfold:
  "sinePm_phase p pm = uint32_of_int (uint p + uint (to_uint32 (double (pm + 32) * 67108864)) * 64)"
  by (simp add: sinePm_phase_def MAX_INDEX_def MAX_UINT32_def Let_def double_scale_26
      uint32_of_int_word_of_int)

lemma sinePm_phase_period:
  assumes "- 32 \<le> pm" "double (pm + 32) = pm + 32" "double (pm + 64 + 32) = pm + 64 + 32"
  shows "sinePm_phase p (pm + 64) = sinePm_phase p pm"
proof -
  from assms(1) have "0 \<le> (pm + 32) * 67108864" by simp
  from to_uint32_period [OF this]
  have "to_uint32 ((pm + 64 + 32) * 67108864) = to_uint32 ((pm + 32) * 67108864)"
    by (simp add: algebra_simps)
  then show ?thesis
    by (simp only: sinePm_phase_unfold assms(2,3))
qed

lemma double_32: "double 32 = 32"
  using double_int [of 32] by simp

lemma sinePm_phase_zero: "sinePm_phase p 0 = p"
proof -
  have "to_uint32 2147483648 = (2147483648 :: u32)"
    by (simp add: to_uint32_def js_trunc_def uint32_of_int_word_of_int)
  then show ?thesis
    by (simp add: sinePm_phase_unfold double_32 uint32_of_int_word_of_int)
qed

lemma grid_exact:
  assumes "- (2 ^ 51) \<le> m" "m < 2 ^ 51"
  shows "double (of_int m / 2 ^ 46 + 32) = of_int m / 2 ^ 46 + 32"
    and "double (of_int m / 2 ^ 46 + 64) = of_int m / 2 ^ 46 + 64"
    and "double (of_int m / 2 ^ 46 + 64 + 32) = of_int m / 2 ^ 46 + 64 + 32"
proof -
  have e1: "(of_int m / 2 ^ 46 + 32 :: real) = of_int (m + 2 ^ 51) / 2 ^ 46"
    and e2: "(of_int m / 2 ^ 46 + 64 :: real) = of_int (m + 2 ^ 52) / 2 ^ 46"
    and e3: "(of_int m / 2 ^ 46 + 64 + 32 :: real) = of_int (m + 2 ^ 52 + 2 ^ 51) / 2 ^ 46"
    by (simp_all add: field_simps)
  from assms have b: "\<bar>m + 2 ^ 51\<bar> < 2 ^ 53" "\<bar>m + 2 ^ 52\<bar> < 2 ^ 53" "\<bar>m + 2 ^ 52 + 2 ^ 51\<bar> < 2 ^ 53"
    by simp_all
  show "double (of_int m / 2 ^ 46 + 32) = of_int m / 2 ^ 46 + 32"
    unfolding e1 using b(1) by (rule double_dyadic)
  show "double (of_int m / 2 ^ 46 + 64) = of_int m / 2 ^ 46 + 64"
    unfolding e2 using b(2) by (rule double_dyadic)
  show "double (of_int m / 2 ^ 46 + 64 + 32) = of_int m / 2 ^ 46 + 64 + 32"
    unfolding e3 using b(3) by (rule double_dyadic)
qed

lemma integral_bits: "unat (drop_bit 23 (p :: u32) AND 0x1FF) = unat p div 2 ^ 23"
proof -
  have m: "(0x1FF :: u32) = mask 9" by (simp add: mask_eq_exp_minus_1)
  have "unat p < 2 ^ 32" using unsigned_less [of p, where 'a = nat] by simp
  then have "unat p div 2 ^ 23 < 2 ^ 9" by (simp add: less_mult_imp_div_less)
  then have "take_bit 9 (drop_bit 23 (unat p)) = unat p div 2 ^ 23"
    by (simp add: drop_bit_eq_div take_bit_nat_eq_self)
  then show ?thesis
    by (simp only: m take_bit_eq_mask [symmetric] unsigned_take_bit_eq unat_drop_bit_eq)
qed

lemma fractional_bits: "unat (push_bit 9 (p :: u32)) = (unat p mod 2 ^ 23) * 2 ^ 9"
proof -
  have "unat (push_bit 9 p) = take_bit 32 (push_bit 9 (unat p))"
    by (simp add: unsigned_push_bit_eq)
  also have "\<dots> = (unat p * 2 ^ 9) mod (2 ^ 23 * 2 ^ 9)"
    by (simp add: take_bit_eq_mod push_bit_eq_mult)
  also have "\<dots> = (unat p mod 2 ^ 23) * 2 ^ 9"
    by (metis mult.commute mult_mod_right)
  finally show ?thesis .
qed

lemma interpolateWrap_dyadic:
  fixes n :: nat
  assumes lt: "n < 2 ^ 32"
  shows "interpolateWrap lut (real n / 2 ^ 32) 512 =
     lut ! (n div 2 ^ 23)
       + (lut ! (n div 2 ^ 23 + 1) - lut ! (n div 2 ^ 23)) * (real ((n mod 2 ^ 23) * 2 ^ 9) / 2 ^ 32)"
proof -
  have fl0: "\<lfloor>real n / 2 ^ 32\<rfloor> = 0"
    using lt by (simp add: floor_eq_iff)
  have idx: "real n / 2 ^ 32 * 512 = real n / 2 ^ 23" by simp
  have fl: "\<lfloor>real n / 2 ^ 23\<rfloor> = int (n div 2 ^ 23)"
  proof -
    have "\<lfloor>real n / real (2 ^ 23)\<rfloor> = int (n div 2 ^ 23)"
      by (rule floor_divide_of_nat_eq)
    then show ?thesis by simp
  qed
  have "real n = real (n div 2 ^ 23) * 2 ^ 23 + real (n mod 2 ^ 23)"
  proof -
    have "real n = real (n div 2 ^ 23 * 2 ^ 23 + n mod 2 ^ 23)"
      by (simp only: div_mult_mod_eq)
    then show ?thesis by (simp only: of_nat_add of_nat_mult) simp
  qed
  then have fr: "real n / 2 ^ 23 - real (n div 2 ^ 23) = real (n mod 2 ^ 23) / 2 ^ 23"
    by (simp add: field_simps)
  have fr2: "real ((n mod 2 ^ 23) * 2 ^ 9) / 2 ^ 32 = real (n mod 2 ^ 23) / 2 ^ 23"
    by simp
  have "interpolateWrap lut (real n / 2 ^ 32) 512 =
     lut ! (n div 2 ^ 23)
       + (lut ! (n div 2 ^ 23 + 1) - lut ! (n div 2 ^ 23)) * (real n / 2 ^ 23 - real (n div 2 ^ 23))"
    unfolding interpolateWrap_def Let_def fl0 by (simp only: of_int_0 diff_zero idx fl nat_int of_int_of_nat_eq) (simp add: nat_add_distrib)
  then show ?thesis by (simp only: fr fr2)
qed

lemma sinePm_at_zero:
  "sinePm lut p 0 = sine lut (real (unat p) / 2 ^ 32)"
proof -
  have lt: "unat p < 2 ^ 32" using unsigned_less [of p, where 'a = nat] by simp
  have "sinePm lut p 0 = lut ! (unat p div 2 ^ 23)
       + (lut ! (unat p div 2 ^ 23 + 1) - lut ! (unat p div 2 ^ 23))
         * (real ((unat p mod 2 ^ 23) * 2 ^ 9) / 2 ^ 32)"
  proof -
    have "real (unat (push_bit 9 p)) = real ((unat p mod 2 ^ 23) * 2 ^ 9)"
      by (simp only: fractional_bits)
    then have "(unsigned (push_bit 9 p) :: real) = real (unat p mod 8388608) * 512"
      by simp
    with integral_bits [of p] show ?thesis
    by (simp add: sinePm_def Let_def sinePm_phase_zero SINE_LUT_BITS_def MAX_UINT32_def)
  qed
  with interpolateWrap_dyadic [OF lt, of lut] show ?thesis
    by (simp only: sine_def SINE_LUT_SIZE_def)
qed


lemma LUT_SINE_0: "LUT_SINE ! 0 = 0"
  unfolding LUT_SINE_def by (subst nth_map) simp_all

lemma LUT_SINE_1: "LUT_SINE ! 1 > 0" 
proof -
  have "LUT_SINE ! 1 = sin (2 * pi / 512)"
    unfolding LUT_SINE_def by (subst nth_map) simp_all
  moreover have "0 < 2 * pi / 512" "2 * pi / 512 < pi" by simp_all
  ultimately show ?thesis using sin_gt_zero by simp
qed

lemma ceiling_minus_half: "\<lceil>- (1 / 2 :: real)\<rceil> = 0"
  by (simp add: ceiling_eq_iff)

lemma cex_phase1: "sinePm_phase 64 (- 32 - 1 / 2 ^ 27) = 64"
proof -
  have d: "double (- (1 / 134217728)) = - (1 / 134217728)"
    using double_dyadic [of "- 1" 27] by simp
  show ?thesis
    by (simp add: sinePm_phase_unfold d ceiling_minus_half to_uint32_def js_trunc_def
        uint32_of_int_def)
qed

lemma cex_phase2: "sinePm_phase 64 (- 32 - 1 / 2 ^ 27 + 64) = 0"
proof -
  have d: "double (8589934591 / 134217728) = 8589934591 / 134217728"
    using double_dyadic [of 8589934591 27] by simp
  show ?thesis
    by (simp add: sinePm_phase_unfold d to_uint32_def js_trunc_def uint32_of_int_def)
qed

text \<open>
  Claim C1, as stated, fails in its second half: for a modulation input below \<open>-32\<close> the
  phase offset \<open>(pm + 32) \<sqdot> 2\<^sup>2\<^sup>6\<close> is negative and \<^verbatim>\<open>>>> 0\<close> truncates it towards zero,
  while 64 further on the offset is positive and is rounded down. With the sine table
  of the spec, at phase 64 and \<open>pm = -32 - 2\<^sup>-\<^sup>2\<^sup>7\<close> (where every operation of the source
  is exact in double precision) the two results differ.
\<close>

theorem C1_counterexample:
  "sinePm LUT_SINE 64 (- 32 - 1 / 2 ^ 27 + 64) \<noteq> sinePm LUT_SINE 64 (- 32 - 1 / 2 ^ 27)"
proof -
  have "sinePm LUT_SINE 64 (- 32 - 1 / 2 ^ 27 + 64) = 0"
    unfolding sinePm_def cex_phase2 Let_def by (simp add: LUT_SINE_0 SINE_LUT_BITS_def)
  moreover have "sinePm LUT_SINE 64 (- 32 - 1 / 2 ^ 27) = LUT_SINE ! 1 * (32768 / 4294967296)"
    unfolding sinePm_def cex_phase1 Let_def by (simp add: LUT_SINE_0 SINE_LUT_BITS_def MAX_UINT32_def)
  ultimately show ?thesis using LUT_SINE_1 by simp
qed


text \<open>
  Claim C1, amended. For every 32-bit phase \<open>p\<close> and every sine table, \<^verbatim>\<open>sinePm(p, 0)\<close>
  is \<^verbatim>\<open>sine(p / 2^32)\<close>. For every modulation input \<open>pm \<ge> -32\<close>, the lower end of the
  modulation range the function is written for, such that \<open>pm + 64\<close> is a double and
  the two sums \<open>pm + 32\<close> and \<open>(pm + 64) + 32\<close> that \<^verbatim>\<open>sinePm\<close> computes are exact in double
  precision, \<^verbatim>\<open>sinePm(p, pm + 64)\<close> equals \<^verbatim>\<open>sinePm(p, pm)\<close>. Every multiple of \<open>2\<^sup>-\<^sup>4\<^sup>6\<close>
  from \<open>-32\<close> up to, but not including, \<open>32\<close> is such an input.
\<close>

theorem C1_sinePm_zero_and_period:
  "sinePm lut p 0 = sine lut (real (unat p) / 2 ^ 32)
   \<and> (- 32 \<le> pm \<and> double (pm + 32) = pm + 32 \<and> double (pm + 64) = pm + 64
        \<and> double (pm + 64 + 32) = pm + 64 + 32
      \<longrightarrow> sinePm lut p (double (pm + 64)) = sinePm lut p pm)
   \<and> (- (2 ^ 51) \<le> m \<and> m < 2 ^ 51
      \<longrightarrow> sinePm lut p (double (of_int m / 2 ^ 46 + 64)) = sinePm lut p (of_int m / 2 ^ 46))"
proof (intro conjI impI)
  show "sinePm lut p 0 = sine lut (real (unat p) / 2 ^ 32)"
    by (rule sinePm_at_zero)
next
  assume a: "- 32 \<le> pm \<and> double (pm + 32) = pm + 32 \<and> double (pm + 64) = pm + 64
        \<and> double (pm + 64 + 32) = pm + 64 + 32"
  then have "sinePm_phase p (pm + 64) = sinePm_phase p pm"
    by (intro sinePm_phase_period) simp_all
  with a show "sinePm lut p (double (pm + 64)) = sinePm lut p pm"
    by (simp only: sinePm_def)
next
  assume a: "- (2 ^ 51) \<le> m \<and> m < 2 ^ 51"
  then have m: "- (2 ^ 51) \<le> m" "m < 2 ^ 51" by simp_all
  from m have "(- 32 :: real) \<le> of_int m / 2 ^ 46"
  proof -
    from m(1) have "(- (2 ^ 51) :: real) \<le> of_int m"
      by (metis of_int_le_iff of_int_minus of_int_numeral of_int_power)
    then show ?thesis by (simp add: field_simps)
  qed
  then have "sinePm_phase p (of_int m / 2 ^ 46 + 64) = sinePm_phase p (of_int m / 2 ^ 46)"
    using grid_exact(1,3) [OF m] by (rule sinePm_phase_period)
  with grid_exact(2) [OF m]
  show "sinePm lut p (double (of_int m / 2 ^ 46 + 64)) = sinePm lut p (of_int m / 2 ^ 46)"
    by (simp only: sinePm_def)
qed

theorem C1_witness:
  "(- 32 :: real) \<le> 5 / 2 \<and> - (2 ^ 51) \<le> (175921860444160 :: int) \<and> (175921860444160 :: int) < 2 ^ 51
   \<and> sinePm LUT_SINE 7 0 = sine LUT_SINE (7 / 2 ^ 32)
   \<and> sinePm LUT_SINE 7 (double (5 / 2 + 64)) = sinePm LUT_SINE 7 (5 / 2)"
proof -
  have m: "- (2 ^ 51) \<le> (175921860444160 :: int)" "(175921860444160 :: int) < 2 ^ 51" by simp_all
  have e: "(of_int 175921860444160 / 2 ^ 46 :: real) = 5 / 2" by simp
  from m grid_exact [OF m] C1_sinePm_zero_and_period [of LUT_SINE 7 "5 / 2" 175921860444160]
  show ?thesis unfolding e by simp
qed


subsection \<open>Envelope stages\<close>

lemma renderScaled_numStages:
  "e_numStages (snd (renderScaled e gate rate adScale releaseScale)) = e_numStages e"
  by (simp add: renderScaled_def Let_def)

lemma renderScaled_stage_range:
  "0 \<le> e_stage e \<Longrightarrow> e_stage e < e_numStages e \<Longrightarrow>
   0 \<le> e_stage (snd (renderScaled e gate rate adScale releaseScale))
   \<and> e_stage (snd (renderScaled e gate rate adScale releaseScale)) < e_numStages e"
  by (simp add: renderScaled_def Let_def)

lemma renderScaled_gate_on:
  "2 \<le> e_numStages e \<Longrightarrow> 0 \<le> e_stage e \<Longrightarrow> e_stage e < e_numStages e \<Longrightarrow>
   e_stage (snd (renderScaled e True rate adScale releaseScale)) < e_numStages e - 1"
  by (simp add: renderScaled_def Let_def)

lemma renderScaled_gate_off:
  "e_stage (snd (renderScaled e False rate adScale releaseScale)) = e_numStages e - 1"
  by (simp add: renderScaled_def Let_def)

lemma render_calls_numStages: "e_numStages (render_calls e calls) = e_numStages e"
  by (induction e calls rule: render_calls.induct) (simp_all add: renderScaled_numStages)

lemma render_calls_stage_range:
  "0 \<le> e_stage e \<Longrightarrow> e_stage e < e_numStages e \<Longrightarrow>
   0 \<le> e_stage (render_calls e calls) \<and> e_stage (render_calls e calls) < e_numStages e"
proof (induction e calls rule: render_calls.induct)
  case (1 this)
  then show ?case by simp
next
  case (2 this gate rate adScale releaseScale calls)
  from renderScaled_stage_range [OF "2.prems", of gate rate adScale releaseScale] "2.IH"
  show ?case by (simp add: renderScaled_numStages)
qed

lemma render_calls_gate_held:
  "2 \<le> e_numStages e \<Longrightarrow> 0 \<le> e_stage e \<Longrightarrow> e_stage e < e_numStages e - 1 \<Longrightarrow>
   list_all fst calls \<Longrightarrow> e_stage (render_calls e calls) < e_numStages e - 1
     \<and> 0 \<le> e_stage (render_calls e calls)"
proof (induction e calls rule: render_calls.induct)
  case (1 this)
  then show ?case by simp
next
  case (2 this gate rate adScale releaseScale calls)
  from "2.prems" have g: gate and rest: "list_all fst calls" by simp_all
  let ?e = "snd (renderScaled this gate rate adScale releaseScale)"
  from "2.prems" have "e_stage this < e_numStages this" by simp
  with "2.prems" g renderScaled_gate_on [of this rate adScale releaseScale]
    renderScaled_stage_range [of this gate rate adScale releaseScale]
  have "e_stage ?e < e_numStages ?e - 1" "0 \<le> e_stage ?e" "2 \<le> e_numStages ?e"
    by (simp_all add: renderScaled_numStages)
  with "2.IH" rest show ?case by (simp add: renderScaled_numStages)
qed

text \<open>
  Claim C7. For an envelope of at least two stages (the operator and pitch envelopes
  have four) whose stage is within \<open>0 .. numStages - 1\<close>: every \<^verbatim>\<open>renderScaled\<close> and
  \<^verbatim>\<open>render\<close> call, and every sequence of calls, leaves the stage within that range; a
  call leaves the envelope in its final stage exactly when its gate is false; and after
  one call with the gate true, any further calls with the gate true leave it outside
  the final stage.
\<close>

theorem C7_envelope_stage:
  "2 \<le> e_numStages e \<Longrightarrow> 0 \<le> e_stage e \<Longrightarrow> e_stage e < e_numStages e \<Longrightarrow>
   (0 \<le> e_stage (snd (renderScaled e gate rate adScale releaseScale))
    \<and> e_stage (snd (renderScaled e gate rate adScale releaseScale)) \<le> e_numStages e - 1)
   \<and> (0 \<le> e_stage (snd (render e gate)) \<and> e_stage (snd (render e gate)) \<le> e_numStages e - 1)
   \<and> (0 \<le> e_stage (render_calls e calls) \<and> e_stage (render_calls e calls) \<le> e_numStages e - 1)
   \<and> ((e_stage (snd (renderScaled e gate rate adScale releaseScale)) = e_numStages e - 1)
        = (\<not> gate))
   \<and> (list_all fst calls \<longrightarrow>
        e_stage (render_calls (snd (renderScaled e True rate adScale releaseScale)) calls)
          \<noteq> e_numStages e - 1)"
proof -
  assume n: "2 \<le> e_numStages e" and lo: "0 \<le> e_stage e" and hi: "e_stage e < e_numStages e"
  let ?e = "snd (renderScaled e True rate adScale releaseScale)"
  from renderScaled_stage_range [OF lo hi, of gate rate adScale releaseScale]
  have a: "0 \<le> e_stage (snd (renderScaled e gate rate adScale releaseScale))
      \<and> e_stage (snd (renderScaled e gate rate adScale releaseScale)) \<le> e_numStages e - 1"
    by simp
  from renderScaled_stage_range [OF lo hi, of gate 1 1 1]
  have b: "0 \<le> e_stage (snd (render e gate)) \<and> e_stage (snd (render e gate)) \<le> e_numStages e - 1"
    by (simp add: render_def)
  from render_calls_stage_range [OF lo hi, of calls]
  have c: "0 \<le> e_stage (render_calls e calls) \<and> e_stage (render_calls e calls) \<le> e_numStages e - 1"
    by simp
  have d: "(e_stage (snd (renderScaled e gate rate adScale releaseScale)) = e_numStages e - 1)
      = (\<not> gate)"
  proof (cases gate)
    case True
    with renderScaled_gate_on [OF n lo hi, of rate adScale releaseScale] show ?thesis by simp
  next
    case False
    with renderScaled_gate_off [of e rate adScale releaseScale] show ?thesis by simp
  qed
  have f: "e_stage (render_calls ?e calls) \<noteq> e_numStages e - 1" if "list_all fst calls"
  proof -
    from renderScaled_gate_on [OF n lo hi, of rate adScale releaseScale]
      renderScaled_stage_range [OF lo hi, of True rate adScale releaseScale] n
    have "2 \<le> e_numStages ?e" "0 \<le> e_stage ?e" "e_stage ?e < e_numStages ?e - 1"
      by (simp_all add: renderScaled_numStages)
    from render_calls_gate_held [OF this that] show ?thesis
      by (simp add: renderScaled_numStages)
  qed
  from a b c d f show ?thesis by blast
qed

theorem C7_witness:
  "2 \<le> e_numStages (Envelope_new 4 True)
   \<and> 0 \<le> e_stage (Envelope_new 4 True)
   \<and> e_stage (Envelope_new 4 True) < e_numStages (Envelope_new 4 True)
   \<and> e_stage (Envelope_new 4 True) = 3
   \<and> list_all fst [(True, 24, 1, 1), (True, 24, 1, 1)]
   \<and> e_stage (snd (renderScaled (Envelope_new 4 True) True 24 1 1)) \<noteq> 3
   \<and> e_stage (snd (renderScaled (Envelope_new 4 True) False 24 1 1)) = 3
   \<and> e_stage (render_calls (snd (renderScaled (Envelope_new 4 True) True 24 1 1))
         [(True, 24, 1, 1), (True, 24, 1, 1)]) \<noteq> 3"
proof -
  have e: "e_numStages (Envelope_new 4 True) = 4" "e_stage (Envelope_new 4 True) = 3"
    by (simp_all add: Envelope_new_def)
  then have "2 \<le> e_numStages (Envelope_new 4 True)" "0 \<le> e_stage (Envelope_new 4 True)"
    "e_stage (Envelope_new 4 True) < e_numStages (Envelope_new 4 True)"
    by simp_all
  from C7_envelope_stage [OF this, of True 24 1 1 "[(True, 24, 1, 1), (True, 24, 1, 1)]"]
    C7_envelope_stage [OF this, of False 24 1 1 "[]"] e
  show ?thesis by simp
qed


subsection \<open>Length of the generated samples\<close>

lemma gate_loop_length:
  "length (snd (gate_loop engine st remaining outp)) = length outp + nat remaining"
proof (induction engine st remaining outp rule: gate_loop.induct)
  case (1 engine st remaining outp)
  show ?case
  proof (cases "remaining > 0")
    case True
    let ?b = "nat (min remaining (int MAX_BLOCK_SIZE))"
    let ?out = "outp @ map (\<lambda>i. snd (engine st True ?b) ! i) [0..<?b]"
    have unfold: "gate_loop engine st remaining outp
        = gate_loop engine (fst (engine st True ?b)) (remaining - int ?b) ?out"
      using True by (subst gate_loop.simps) (simp add: Let_def)
    from "1.IH" [OF True refl refl refl]
    have "length (snd (gate_loop engine (fst (engine st True ?b)) (remaining - int ?b) ?out))
          = length ?out + nat (remaining - int ?b)" .
    also have "\<dots> = length outp + nat remaining"
      using True by (simp add: MAX_BLOCK_SIZE_def)
    finally show ?thesis by (simp only: unfold)
  next
    case False
    then have "gate_loop engine st remaining outp = (st, outp)"
      by (subst gate_loop.simps) simp
    with False show ?thesis by simp
  qed
qed

lemma fold_counter_bound:
  "0 \<le> c \<Longrightarrow>
   0 \<le> fold (\<lambda>i c. if P i then c + 1 else (0::int)) xs c
   \<and> fold (\<lambda>i c. if P i then c + 1 else (0::int)) xs c \<le> c + int (length xs)"
proof (induction xs arbitrary: c)
  case Nil
  then show ?case by simp
next
  case (Cons a xs)
  show ?case
  proof (cases "P a")
    case True
    from Cons.prems have "0 \<le> c + 1" by simp
    from Cons.IH [OF this] True show ?thesis by simp
  next
    case False
    from Cons.IH [of 0] False Cons.prems show ?thesis by simp
  qed
qed

lemma silent_run_bound: "0 \<le> c \<Longrightarrow> 0 \<le> silent_run chunk c \<and> silent_run chunk c \<le> c + 24"
  using fold_counter_bound [of c "\<lambda>i. \<bar>chunk ! i\<bar> < silenceThreshold" "[0..<MAX_BLOCK_SIZE]"]
  by (simp add: silent_run_def Let_def MAX_BLOCK_SIZE_def)

lemma release_loop_unfold:
  "release_loop engine sampleRate sd st c outp =
     (if silent_run (snd (engine st False MAX_BLOCK_SIZE)) c \<ge> sd then
        take (nat (max 0 (int (length outp + 24)
               - (silent_run (snd (engine st False MAX_BLOCK_SIZE)) c - sd))))
          (outp @ map (\<lambda>i. snd (engine st False MAX_BLOCK_SIZE) ! i) [0..<MAX_BLOCK_SIZE])
      else if real (length outp + 24) > sampleRate * 10
      then outp @ map (\<lambda>i. snd (engine st False MAX_BLOCK_SIZE) ! i) [0..<MAX_BLOCK_SIZE]
      else release_loop engine sampleRate sd (fst (engine st False MAX_BLOCK_SIZE))
             (silent_run (snd (engine st False MAX_BLOCK_SIZE)) c)
             (outp @ map (\<lambda>i. snd (engine st False MAX_BLOCK_SIZE) ! i) [0..<MAX_BLOCK_SIZE]))"
  by (subst release_loop.simps) (simp add: Let_def MAX_BLOCK_SIZE_def)

lemma release_loop_keeps:
  "0 \<le> sd \<Longrightarrow> 0 \<le> c \<Longrightarrow> c \<le> int (length outp) - int L0 \<Longrightarrow>
   L0 \<le> length (release_loop engine sampleRate sd st c outp)"
proof (induction engine sampleRate sd st c outp rule: release_loop.induct)
  case (1 engine sampleRate sd st c outp)
  let ?r = "engine st False MAX_BLOCK_SIZE"
  let ?c = "silent_run (snd ?r) c"
  let ?out = "outp @ map (\<lambda>i. snd ?r ! i) [0..<MAX_BLOCK_SIZE]"
  have len: "length ?out = length outp + 24" by (simp add: MAX_BLOCK_SIZE_def)
  from silent_run_bound [of c "snd ?r"] "1.prems"
  have c0: "0 \<le> ?c" and c: "?c \<le> int (length ?out) - int L0"
    by (simp_all add: MAX_BLOCK_SIZE_def)
  show ?case
  proof (cases "?c \<ge> sd")
    case True
    with c "1.prems" len show ?thesis
      by (simp add: release_loop_unfold [of engine sampleRate sd st c outp])
  next
    case False
    show ?thesis
    proof (cases "real (length ?out) > sampleRate * 10")
      case True
      with False c len "1.prems" show ?thesis
        by (simp add: release_loop_unfold [of engine sampleRate sd st c outp])
    next
      case b: False
      from "1.IH" [OF refl refl refl False b "1.prems"(1) c0 c] False b len
      show ?thesis
        by (simp add: release_loop_unfold [of engine sampleRate sd st c outp])
    qed
  qed
qed


lemma silent_run_loud:
  "\<not> \<bar>chunk ! 23\<bar> < silenceThreshold \<Longrightarrow> silent_run chunk c = 0"
proof -
  assume loud: "\<not> \<bar>chunk ! 23\<bar> < silenceThreshold"
  have "[0..<Suc 23] = [0..<23] @ [23]"
    by (rule upt_Suc_append) simp
  moreover have "Suc 23 = 24" by simp
  ultimately have "[0..<MAX_BLOCK_SIZE] = [0..<23] @ [23]"
    by (simp only: MAX_BLOCK_SIZE_def)
  with loud show ?thesis
    by (simp only: silent_run_def fold_append o_apply fold.simps Let_def id_apply if_False)
qed

lemma release_loop_loud:
  "0 < sd \<Longrightarrow> \<forall>st. \<not> \<bar>snd (engine st False MAX_BLOCK_SIZE) ! 23\<bar> < silenceThreshold \<Longrightarrow>
   real (length (release_loop engine sampleRate sd st c outp)) > sampleRate * 10"
proof (induction engine sampleRate sd st c outp rule: release_loop.induct)
  case (1 engine sampleRate sd st c outp)
  let ?r = "engine st False MAX_BLOCK_SIZE"
  let ?out = "outp @ map (\<lambda>i. snd ?r ! i) [0..<MAX_BLOCK_SIZE]"
  have len: "length ?out = length outp + 24" by (simp add: MAX_BLOCK_SIZE_def)
  from "1.prems" silent_run_loud [of "snd ?r" c] have c: "silent_run (snd ?r) c = 0" by simp
  with "1.prems" have nsd: "\<not> sd \<le> silent_run (snd ?r) c" by simp
  show ?case
  proof (cases "real (length ?out) > sampleRate * 10")
    case True
    with nsd len show ?thesis
      by (simp add: release_loop_unfold [of engine sampleRate sd st c outp])
  next
    case False
    from "1.IH" [OF refl refl refl nsd False "1.prems"] nsd False len
    show ?thesis
      by (simp add: release_loop_unfold [of engine sampleRate sd st c outp])
  qed
qed

text \<open>
  Claim C3 at two inputs, both at 44100 Hz, where ten seconds are 441000 samples.
  Asked for 20 seconds, the gate-held phase alone pushes 882000 samples, whatever the
  voice renders, and the release phase never cuts into them. Asked for one second of
  a voice that never falls silent, the release phase tests the limit only after a
  whole block has been pushed, and with \<^verbatim>\<open>>\<close>: it returns more than 441000 samples.
\<close>

theorem C3_length_exceeds_cap:
  "length (generateSamples engine st 44100 20000) \<ge> 882000
   \<and> length (generateSamples (\<lambda>st gate blockSize. (st, replicate (blockSize * 3) 1)) () 44100 1000)
       > 441000"
proof
  have n: "\<lfloor>20000 / 1000 * 44100 :: real\<rfloor> = 882000" by simp
  obtain st' out where g: "gate_loop engine st 882000 [] = (st', out)" by (cases "gate_loop engine st 882000 []")
  with gate_loop_length [of engine st 882000 "[]"] have "length out = 882000" by simp
  then have "882000 \<le> length (release_loop engine 44100 (\<lfloor>44100 * 100 / 1000 :: real\<rfloor>) st' 0 out)"
    by (intro release_loop_keeps) simp_all
  with g n show "length (generateSamples engine st 44100 20000) \<ge> 882000"
    by (simp add: generateSamples_def)
next
  let ?engine = "\<lambda>(st :: unit) (gate :: bool) blockSize. (st, replicate (blockSize * 3) (1 :: real))"
  have loud: "\<forall>st. \<not> \<bar>snd (?engine st False MAX_BLOCK_SIZE) ! 23\<bar> < silenceThreshold"
    by (simp add: MAX_BLOCK_SIZE_def silenceThreshold_def)
  have sd: "(0::int) < \<lfloor>44100 * 100 / 1000 :: real\<rfloor>" by simp
  have "real (length (release_loop ?engine 44100 (\<lfloor>44100 * 100 / 1000 :: real\<rfloor>) st' 0 out)) > 44100 * 10"
    for st' out
    using sd loud
    by (rule release_loop_loud
        [where sd = "\<lfloor>44100 * 100 / 1000 :: real\<rfloor>" and engine = ?engine and sampleRate = 44100])
  then have "real (length (generateSamples ?engine () 44100 1000)) > 44100 * 10"
    by (simp add: generateSamples_def split: prod.splits)
  then show "length (generateSamples ?engine () 44100 1000) > 441000"
    by simp
qed


subsection \<open>Voice setup and operator frequencies\<close>

lemma OperatorEnvelope_set_frame:
  "e_stage (OperatorEnvelope_set e rate level g) = e_stage e"
  "e_phase (OperatorEnvelope_set e rate level g) = e_phase e"
  "e_start (OperatorEnvelope_set e rate level g) = e_start e"
  "e_numStages (OperatorEnvelope_set e rate level g) = e_numStages e"
  by (simp_all add: OperatorEnvelope_set_def Let_def)


lemma map_update_same: "f y = f (xs ! i) \<Longrightarrow> map f (xs[i := y]) = map f xs"
proof (cases "i < length xs")
  case True
  assume "f y = f (xs ! i)"
  with True show ?thesis by (simp add: map_update list_update_same_conv)
next
  case False
  then show ?thesis by (simp add: list_update_beyond)
qed

lemma setup_operator_frame:
  "vo_operator (setup_operator i this) = vo_operator this"
  "vo_feedbackState (setup_operator i this) = vo_feedbackState this"
  "vo_gate (setup_operator i this) = vo_gate this"
  "vo_note (setup_operator i this) = vo_note this"
  "vo_normalizedVelocity (setup_operator i this) = vo_normalizedVelocity this"
  "vo_level (setup_operator i this) = vo_level this"
  "vo_patch (setup_operator i this) = vo_patch this"
  "vo_pitchEnvelope (setup_operator i this) = vo_pitchEnvelope this"
  "vo_dirty (setup_operator i this) = vo_dirty this"
  "vo_algorithms (setup_operator i this) = vo_algorithms this"
  "vo_sampleRate (setup_operator i this) = vo_sampleRate this"
  "vo_oneHz (setup_operator i this) = vo_oneHz this"
  "vo_a0 (setup_operator i this) = vo_a0 this"
  "map e_stage (vo_operatorEnvelope (setup_operator i this)) = map e_stage (vo_operatorEnvelope this)"
  "map e_phase (vo_operatorEnvelope (setup_operator i this)) = map e_phase (vo_operatorEnvelope this)"
  "map e_start (vo_operatorEnvelope (setup_operator i this)) = map e_start (vo_operatorEnvelope this)"
  by (simp_all add: setup_operator_def Let_def map_update_same OperatorEnvelope_set_frame)

lemma setup_operator_lengths:
  "length (vo_ratios (setup_operator i this)) = length (vo_ratios this)"
  "length (vo_levelHeadroom (setup_operator i this)) = length (vo_levelHeadroom this)"
  "length (vo_operatorEnvelope (setup_operator i this)) = length (vo_operatorEnvelope this)"
  by (simp_all add: setup_operator_def Let_def)

lemma setup_operator_derived:
  "vo_ratios (setup_operator i this) =
     (vo_ratios this)[i := float32 ((if po_mode (p_op (vo_patch this) ! i) = 0 then 1 else - 1)
                            * frequencyRatio (p_op (vo_patch this) ! i))]"
  "vo_levelHeadroom (setup_operator i this) =
     (vo_levelHeadroom this)[i := float32 (127 - real (operatorLevel (po_level (p_op (vo_patch this) ! i))))]"
  by (simp_all add: setup_operator_def Let_def)

lemma fold_setup_operator_frame:
  "vo_operator (fold setup_operator xs this) = vo_operator this"
  "vo_feedbackState (fold setup_operator xs this) = vo_feedbackState this"
  "vo_gate (fold setup_operator xs this) = vo_gate this"
  "vo_note (fold setup_operator xs this) = vo_note this"
  "vo_normalizedVelocity (fold setup_operator xs this) = vo_normalizedVelocity this"
  "vo_level (fold setup_operator xs this) = vo_level this"
  "vo_patch (fold setup_operator xs this) = vo_patch this"
  "vo_pitchEnvelope (fold setup_operator xs this) = vo_pitchEnvelope this"
  "vo_dirty (fold setup_operator xs this) = vo_dirty this"
  "map e_stage (vo_operatorEnvelope (fold setup_operator xs this)) = map e_stage (vo_operatorEnvelope this)"
  "map e_phase (vo_operatorEnvelope (fold setup_operator xs this)) = map e_phase (vo_operatorEnvelope this)"
  "map e_start (vo_operatorEnvelope (fold setup_operator xs this)) = map e_start (vo_operatorEnvelope this)"
  "length (vo_ratios (fold setup_operator xs this)) = length (vo_ratios this)"
  "length (vo_levelHeadroom (fold setup_operator xs this)) = length (vo_levelHeadroom this)"
  "length (vo_operatorEnvelope (fold setup_operator xs this)) = length (vo_operatorEnvelope this)"
  "vo_sampleRate (fold setup_operator xs this) = vo_sampleRate this"
  "vo_oneHz (fold setup_operator xs this) = vo_oneHz this"
  "vo_a0 (fold setup_operator xs this) = vo_a0 this"
  "vo_algorithms (fold setup_operator xs this) = vo_algorithms this"
  by (induction xs arbitrary: this) (simp_all add: setup_operator_frame setup_operator_lengths)

lemma fold_setup_operator_ratios:
  "i < length (vo_ratios this) \<Longrightarrow>
   vo_ratios (fold setup_operator xs this) ! i =
     (if i \<in> set xs
      then float32 ((if po_mode (p_op (vo_patch this) ! i) = 0 then 1 else - 1)
             * frequencyRatio (p_op (vo_patch this) ! i))
      else vo_ratios this ! i)"
proof (induction xs arbitrary: this)
  case Nil
  show ?case by simp
next
  case (Cons a xs)
  from Cons.prems show ?case
    by (simp add: Cons.IH setup_operator_frame setup_operator_lengths setup_operator_derived
        nth_list_update)
qed

lemma fold_setup_operator_levelHeadroom:
  "i < length (vo_levelHeadroom this) \<Longrightarrow>
   vo_levelHeadroom (fold setup_operator xs this) ! i =
     (if i \<in> set xs
      then float32 (127 - real (operatorLevel (po_level (p_op (vo_patch this) ! i))))
      else vo_levelHeadroom this ! i)"
proof (induction xs arbitrary: this)
  case Nil
  show ?case by simp
next
  case (Cons a xs)
  from Cons.prems show ?case
    by (simp add: Cons.IH setup_operator_frame setup_operator_lengths setup_operator_derived
        nth_list_update)
qed

lemma Voice_setup_unfold:
  "vo_dirty this \<Longrightarrow> Voice_setup this =
     (True, (fold setup_operator [0, 1, 2, 3, 4, 5]
        (this\<lparr>vo_pitchEnvelope :=
           PitchEnvelope_set (vo_pitchEnvelope this) (pe_rate (p_pitchEnvelope (vo_patch this)))
             (pe_level (p_pitchEnvelope (vo_patch this)))\<rparr>))\<lparr>vo_dirty := False\<rparr>)"
  by (simp only: Voice_setup_def Let_def not_True_eq_False if_False)

lemma Voice_setup_dirty:
  assumes "vo_dirty this"
  shows "fst (Voice_setup this)"
    and "\<not> vo_dirty (snd (Voice_setup this))"
    and "vo_operator (snd (Voice_setup this)) = vo_operator this"
    and "vo_feedbackState (snd (Voice_setup this)) = vo_feedbackState this"
    and "vo_gate (snd (Voice_setup this)) = vo_gate this"
    and "vo_note (snd (Voice_setup this)) = vo_note this"
    and "vo_normalizedVelocity (snd (Voice_setup this)) = vo_normalizedVelocity this"
    and "vo_level (snd (Voice_setup this)) = vo_level this"
    and "vo_patch (snd (Voice_setup this)) = vo_patch this"
    and "vo_sampleRate (snd (Voice_setup this)) = vo_sampleRate this"
    and "vo_oneHz (snd (Voice_setup this)) = vo_oneHz this"
    and "map e_stage (vo_operatorEnvelope (snd (Voice_setup this))) = map e_stage (vo_operatorEnvelope this)"
    and "map e_phase (vo_operatorEnvelope (snd (Voice_setup this))) = map e_phase (vo_operatorEnvelope this)"
    and "map e_start (vo_operatorEnvelope (snd (Voice_setup this))) = map e_start (vo_operatorEnvelope this)"
    and "vo_pitchEnvelope (snd (Voice_setup this)) =
           PitchEnvelope_set (vo_pitchEnvelope this) (pe_rate (p_pitchEnvelope (vo_patch this)))
             (pe_level (p_pitchEnvelope (vo_patch this)))"
  unfolding Voice_setup_unfold [OF assms]
  by (simp_all add: fold_setup_operator_frame del: fold.simps)

lemma Voice_setup_derived:
  assumes "vo_dirty this" "i < 6"
  shows "i < length (vo_ratios this) \<Longrightarrow> vo_ratios (snd (Voice_setup this)) ! i =
           float32 ((if po_mode (p_op (vo_patch this) ! i) = 0 then 1 else - 1)
             * frequencyRatio (p_op (vo_patch this) ! i))"
    and "i < length (vo_levelHeadroom this) \<Longrightarrow> vo_levelHeadroom (snd (Voice_setup this)) ! i =
           float32 (127 - real (operatorLevel (po_level (p_op (vo_patch this) ! i))))"
proof -
  from \<open>i < 6\<close> have i: "i \<in> set [0, 1, 2, 3, 4, 5]" by auto
  show "i < length (vo_ratios this) \<Longrightarrow> vo_ratios (snd (Voice_setup this)) ! i =
           float32 ((if po_mode (p_op (vo_patch this) ! i) = 0 then 1 else - 1)
             * frequencyRatio (p_op (vo_patch this) ! i))"
    unfolding Voice_setup_unfold [OF assms(1)] using i
    by (simp add: fold_setup_operator_ratios del: fold.simps set_simps)
  show "i < length (vo_levelHeadroom this) \<Longrightarrow> vo_levelHeadroom (snd (Voice_setup this)) ! i =
           float32 (127 - real (operatorLevel (po_level (p_op (vo_patch this) ! i))))"
    unfolding Voice_setup_unfold [OF assms(1)] using i
    by (simp add: fold_setup_operator_levelHeadroom del: fold.simps set_simps)
qed


lemma frequencyRatio_fixed_1Hz:
  "po_mode op = 1 \<Longrightarrow> po_coarse op = 0 \<Longrightarrow> po_fine op = 0 \<Longrightarrow> po_detune op = 7 \<Longrightarrow>
   frequencyRatio op = 1"
  by (simp add: frequencyRatio_def semitonesToRatioSafe_def
      scale_down.simps [of 0 1] scale_up.simps [of 0 1] semitonesToRatio_def)

lemma length_OPCODES_6: "length OPCODES_6 = 32"
  by (simp add: OPCODES_6_def)

lemma operator_frequency_cong:
  "vo_ratios t = vo_ratios this \<Longrightarrow> vo_oneHz t = vo_oneHz this \<Longrightarrow>
   operator_frequency t f0 i = operator_frequency this f0 i"
  by (simp add: operator_frequency_def)

lemma render_operator_level_f:
  assumes "p_algorithm (vo_patch this) < 32"
  shows "\<exists>this' a'.
     render_operator_level parameters envelopeRate adScale rScale envelopeSample gateDuration f0 i
         (this, f, a) = Inr (this', f[i := operator_frequency this f0 i], a')
     \<and> vo_ratios this' = vo_ratios this \<and> vo_oneHz this' = vo_oneHz this
     \<and> vo_patch this' = vo_patch this \<and> vo_algorithms this' = vo_algorithms this
     \<and> vo_operator this' = vo_operator this \<and> vo_feedbackState this' = vo_feedbackState this"
  using assms
  by (simp add: render_operator_level_def Let_def isModulator_def length_OPCODES_6)

lemma render_operator_levels_f:
  assumes "p_algorithm (vo_patch this) < 32"
  shows "\<exists>this' f' a'.
     render_operator_levels parameters envelopeRate adScale rScale envelopeSample gateDuration f0
         is (this, f, a) = Inr (this', f', a')
     \<and> vo_ratios this' = vo_ratios this \<and> vo_oneHz this' = vo_oneHz this
     \<and> vo_patch this' = vo_patch this \<and> vo_algorithms this' = vo_algorithms this
     \<and> vo_operator this' = vo_operator this \<and> vo_feedbackState this' = vo_feedbackState this
     \<and> length f' = length f
     \<and> (\<forall>i<length f. f' ! i = (if i \<in> set is then operator_frequency this f0 i else f ! i))"
  using assms
proof (induction "is" arbitrary: this f a)
  case Nil
  show ?case by simp
next
  case (Cons i0 rest)
  from render_operator_level_f [OF Cons.prems, of parameters envelopeRate adScale rScale
      envelopeSample gateDuration f0 i0 f a]
  obtain this1 a1 where
    s: "render_operator_level parameters envelopeRate adScale rScale envelopeSample gateDuration f0 i0
         (this, f, a) = Inr (this1, f[i0 := operator_frequency this f0 i0], a1)"
    and fr: "vo_ratios this1 = vo_ratios this" "vo_oneHz this1 = vo_oneHz this"
      "vo_patch this1 = vo_patch this" "vo_algorithms this1 = vo_algorithms this"
      "vo_operator this1 = vo_operator this" "vo_feedbackState this1 = vo_feedbackState this"
    by blast
  from Cons.prems fr(3) have "p_algorithm (vo_patch this1) < 32" by simp
  from Cons.IH [OF this, of "f[i0 := operator_frequency this f0 i0]" a1]
  obtain this' f' a' where
    r: "render_operator_levels parameters envelopeRate adScale rScale envelopeSample gateDuration f0
         rest (this1, f[i0 := operator_frequency this f0 i0], a1) = Inr (this', f', a')"
    and fr': "vo_ratios this' = vo_ratios this1" "vo_oneHz this' = vo_oneHz this1"
      "vo_patch this' = vo_patch this1" "vo_algorithms this' = vo_algorithms this1"
      "vo_operator this' = vo_operator this1" "vo_feedbackState this' = vo_feedbackState this1"
    and l: "length f' = length (f[i0 := operator_frequency this f0 i0])"
    and v: "\<forall>i<length (f[i0 := operator_frequency this f0 i0]).
          f' ! i = (if i \<in> set rest then operator_frequency this1 f0 i
                    else f[i0 := operator_frequency this f0 i0] ! i)"
    by blast
  have "render_operator_levels parameters envelopeRate adScale rScale envelopeSample gateDuration f0
         (i0 # rest) (this, f, a) = Inr (this', f', a')"
    by (simp add: s r)
  moreover have "\<forall>i<length f. f' ! i = (if i \<in> set (i0 # rest) then operator_frequency this f0 i else f ! i)"
    using v operator_frequency_cong [OF fr(1,2)] by (simp add: nth_list_update)
  ultimately show ?case using fr fr' l by simp
qed

lemma renderInternal_clean:
  assumes clean: "\<not> vo_dirty this" and alg: "p_algorithm (vo_patch this) < 32"
  shows "\<exists>this1 f a.
     renderInternal lut this parameters buffers bsize mem = dispatch lut buffers f a 0 (this1, mem)
     \<and> length f = 6
     \<and> (\<forall>i<6. f ! i = float32 (double (vo_ratios this ! i
               * (if vo_ratios this ! i < 0 then - vo_oneHz this
                  else voice_f0 this parameters bsize))))
     \<and> vo_patch this1 = vo_patch this \<and> vo_algorithms this1 = vo_algorithms this
     \<and> vo_feedbackState this1 = vo_feedbackState this
     \<and> vo_operator this1 =
         (if pa_gate parameters \<and> \<not> vo_gate this \<and> p_resetPhase (vo_patch this) \<noteq> 0
          then map (\<lambda>opr. opr\<lparr>op_phase := 0\<rparr>) (vo_operator this) else vo_operator this)"
proof -
  let ?ad = "pow2Fast ((0.5 - pa_envelopeControl parameters) * 8) 1"
  let ?rs = "pow2Fast (- \<bar>pa_envelopeControl parameters - 0.3\<bar> * 8) 1"
  let ?gd = "1.5 * vo_sampleRate this"
  let ?es = "?gd * pa_envelopeControl parameters"
  let ?inputNote = "pa_note parameters - 24 + real (p_transpose (vo_patch this))"
  let ?rendered = "if pa_sustain parameters
                  then (renderAtSample (vo_pitchEnvelope this) ?es ?gd, vo_pitchEnvelope this)
                  else renderScaled (vo_pitchEnvelope this) (pa_gate parameters) (real bsize) ?ad ?rs"
  let ?noteOn = "pa_gate parameters \<and> \<not> vo_gate this"
  let ?ta = "this\<lparr>vo_pitchEnvelope := snd ?rendered\<rparr>"
  let ?tb = "?ta\<lparr>vo_gate := pa_gate parameters\<rparr>"
  let ?tc = "if ?noteOn \<or> pa_sustain parameters
             then ?tb\<lparr>vo_normalizedVelocity := normalizeVelocity (pa_velocity parameters),
                       vo_note := ?inputNote\<rparr>
             else ?tb"
  let ?td = "if ?noteOn \<and> p_resetPhase (vo_patch ?tc) \<noteq> 0
             then ?tc\<lparr>vo_operator := map (\<lambda>opr. opr\<lparr>op_phase := 0\<rparr>) (vo_operator ?tc)\<rparr>
             else ?tc"
  let ?f0 = "voice_f0 this parameters bsize"
  have f0: "vo_a0 this * 0.25 * semitonesToRatioSafe (?inputNote - 9 + (fst ?rendered + pa_pitchMod parameters) * 12) = ?f0"
    by (simp add: voice_f0_def Let_def)
  have u: "renderInternal lut this parameters buffers bsize mem =
     (case render_operator_levels parameters (real bsize) ?ad ?rs ?es ?gd ?f0 [0, 1, 2, 3, 4, 5]
             (?td, replicate 6 0, replicate 6 0) of
        Inl e \<Rightarrow> Inl e
      | Inr tfa \<Rightarrow> dispatch lut buffers (fst (snd tfa)) (snd (snd tfa)) 0 (fst tfa, mem))"
    unfolding f0 [symmetric] using clean
    by (simp add: renderInternal_def Voice_setup_def Let_def NUM_OPERATORS_def del: fold.simps
        render_operator_levels.simps)
  have td: "vo_ratios ?td = vo_ratios this" "vo_oneHz ?td = vo_oneHz this"
    "vo_patch ?td = vo_patch this" "vo_algorithms ?td = vo_algorithms this"
    "vo_feedbackState ?td = vo_feedbackState this"
    "vo_operator ?td = (if ?noteOn \<and> p_resetPhase (vo_patch this) \<noteq> 0
          then map (\<lambda>opr. opr\<lparr>op_phase := 0\<rparr>) (vo_operator this) else vo_operator this)"
    by simp_all
  from alg td(3) have "p_algorithm (vo_patch ?td) < 32" by (simp only:)
  from render_operator_levels_f [OF this, of parameters "real bsize" ?ad ?rs ?es ?gd ?f0
      "[0, 1, 2, 3, 4, 5]" "replicate 6 0" "replicate 6 0"]
  obtain this1 f a where
    r: "render_operator_levels parameters (real bsize) ?ad ?rs ?es ?gd ?f0 [0, 1, 2, 3, 4, 5]
             (?td, replicate 6 0, replicate 6 0) = Inr (this1, f, a)"
    and fr: "vo_ratios this1 = vo_ratios ?td" "vo_oneHz this1 = vo_oneHz ?td"
      "vo_patch this1 = vo_patch ?td" "vo_algorithms this1 = vo_algorithms ?td"
      "vo_operator this1 = vo_operator ?td" "vo_feedbackState this1 = vo_feedbackState ?td"
    and l: "length f = length (replicate 6 (0 :: real))"
    and v: "\<forall>i<length (replicate 6 (0 :: real)).
          f ! i = (if i \<in> set [0, 1, 2, 3, 4, 5] then operator_frequency ?td ?f0 i
                   else replicate 6 0 ! i)"
    by blast
  have six: "i \<in> set [0, 1, 2, 3, 4, 5]" if "i < 6" for i :: nat
    using that by auto
  have "\<forall>i<6. f ! i = float32 (double (vo_ratios this ! i
               * (if vo_ratios this ! i < 0 then - vo_oneHz this else ?f0)))"
  proof (intro allI impI)
    fix i :: nat assume i: "i < 6"
    with v six [OF i] have "f ! i = operator_frequency ?td ?f0 i"
      by (simp del: set_simps)
    also have "\<dots> = operator_frequency this ?f0 i"
      by (rule operator_frequency_cong) (simp_all only: td)
    finally show "f ! i = float32 (double (vo_ratios this ! i
               * (if vo_ratios this ! i < 0 then - vo_oneHz this else ?f0)))"
      by (simp only: operator_frequency_def)
  qed
  moreover have "renderInternal lut this parameters buffers bsize mem
      = dispatch lut buffers f a 0 (this1, mem)"
    unfolding u r by simp
  moreover have "length f = 6" using l by simp
  moreover have "vo_patch this1 = vo_patch this" "vo_algorithms this1 = vo_algorithms this"
    "vo_feedbackState this1 = vo_feedbackState this"
    by (simp_all only: fr td)
  moreover have "vo_operator this1 =
         (if pa_gate parameters \<and> \<not> vo_gate this \<and> p_resetPhase (vo_patch this) \<noteq> 0
          then map (\<lambda>opr. opr\<lparr>op_phase := 0\<rparr>) (vo_operator this) else vo_operator this)"
    unfolding fr(5) td(6) by simp
  ultimately show ?thesis by blast
qed


lemma slice_nth:
  "i + n \<le> length xs \<Longrightarrow> j < n \<Longrightarrow> slice xs i (i + n) ! j = xs ! (i + j)"
  by (simp add: slice_def)

lemma slice_length: "i + n \<le> length xs \<Longrightarrow> length (slice xs i (i + n)) = n"
  by (simp add: slice_def)

lemma dispatch_step:
  assumes i: "i < 6"
    and call: "renderCall (vo_algorithms v) (p_algorithm (vo_patch v)) i = Inr call"
    and n: "0 < rc_n call" "fst (rc_renderFn call) \<le> rc_n call"
    and fit: "i + rc_n call \<le> length (vo_operator v)" "i + rc_n call \<le> length f"
  shows "\<exists>ops1 fb' mem'.
     renderOperators (fst (rc_renderFn call)) (fst (snd (rc_renderFn call)))
         (snd (snd (rc_renderFn call))) lut
         (slice (vo_operator v) i (i + rc_n call)) (slice f i (i + rc_n call))
         (slice a i (i + rc_n call)) (vo_feedbackState v) (p_feedback (vo_patch v))
         (buffers ! rc_inputIndex call) (buffers ! rc_outputIndex call) mem
       = Inr (ops1, fb', mem')
     \<and> dispatch lut buffers f a i (v, mem) =
         dispatch lut buffers f a (i + rc_n call)
           (v\<lparr>vo_operator :=
                take i (vo_operator v) @ ops1 @ drop (i + rc_n call) (vo_operator v),
              vo_feedbackState := fb'\<rparr>, mem')
     \<and> length ops1 = rc_n call
     \<and> (\<forall>j<fst (rc_renderFn call).
           op_phase (ops1 ! j) =
             accumulate (op_phase (vo_operator v ! (i + j)))
               (replicate (v_length (buffers ! rc_outputIndex call))
                  (to_uint32 (min (f ! (i + j)) 0.5 * 4294967296))))
     \<and> (\<forall>j. fst (rc_renderFn call) \<le> j \<longrightarrow> j < rc_n call \<longrightarrow>
           ops1 ! j = vo_operator v ! (i + j))"
proof -
  let ?N = "fst (rc_renderFn call)"
  let ?ops = "slice (vo_operator v) i (i + rc_n call)"
  let ?f = "slice f i (i + rc_n call)"
  let ?out = "buffers ! rc_outputIndex call"
  have lo: "length ?ops = rc_n call" using fit(1) by (rule slice_length)
  with n(2) have "?N \<le> length ?ops" by simp
  from renderOperators_phase [OF this, of "fst (snd (rc_renderFn call))" "snd (snd (rc_renderFn call))"
      lut ?f "slice a i (i + rc_n call)" "vo_feedbackState v" "p_feedback (vo_patch v)"
      "buffers ! rc_inputIndex call" ?out mem]
  obtain ops1 fb1 mem1 where
    r: "renderOperators ?N (fst (snd (rc_renderFn call))) (snd (snd (rc_renderFn call))) lut ?ops ?f
          (slice a i (i + rc_n call)) (vo_feedbackState v) (p_feedback (vo_patch v))
          (buffers ! rc_inputIndex call) ?out mem = Inr (ops1, fb1, mem1)"
    and l1: "length ops1 = length ?ops"
    and ph: "\<forall>j<?N. op_phase (ops1 ! j) =
           accumulate (op_phase (?ops ! j))
             (replicate (v_length ?out) (to_uint32 (min (?f ! j) 0.5 * 4294967296)))"
    and rest: "\<forall>j. ?N \<le> j \<longrightarrow> j < length ?ops \<longrightarrow> ops1 ! j = ?ops ! j"
    by blast
  from l1 lo have l1': "length ops1 = rc_n call" by simp
  have d: "dispatch lut buffers f a i (v, mem) =
       dispatch lut buffers f a (i + rc_n call)
         (v\<lparr>vo_operator := take i (vo_operator v) @ ops1 @ drop (i + rc_n call) (vo_operator v),
            vo_feedbackState := fb1\<rparr>, mem1)"
    using i call n(1) r l1' by (subst dispatch.simps) (simp add: NUM_OPERATORS_def)
  have p1: "\<forall>j<?N. op_phase (ops1 ! j) =
             accumulate (op_phase (vo_operator v ! (i + j)))
               (replicate (v_length ?out) (to_uint32 (min (f ! (i + j)) 0.5 * 4294967296)))"
  proof (intro allI impI)
    fix j assume j: "j < ?N"
    with n(2) have jn: "j < rc_n call" by simp
    from ph j have "op_phase (ops1 ! j) =
           accumulate (op_phase (?ops ! j))
             (replicate (v_length ?out) (to_uint32 (min (?f ! j) 0.5 * 4294967296)))" by blast
    then show "op_phase (ops1 ! j) =
             accumulate (op_phase (vo_operator v ! (i + j)))
               (replicate (v_length ?out) (to_uint32 (min (f ! (i + j)) 0.5 * 4294967296)))"
      by (simp only: slice_nth [OF fit(1) jn] slice_nth [OF fit(2) jn])
  qed
  have p2: "\<forall>j. ?N \<le> j \<longrightarrow> j < rc_n call \<longrightarrow> ops1 ! j = vo_operator v ! (i + j)"
  proof (intro allI impI)
    fix j assume j: "?N \<le> j" "j < rc_n call"
    with rest lo have "ops1 ! j = ?ops ! j" by simp
    then show "ops1 ! j = vo_operator v ! (i + j)"
      by (simp only: slice_nth [OF fit(1) j(2)])
  qed
  from r d l1' p1 p2 show ?thesis by blast
qed

lemma scale_down_pos: "0 < c \<Longrightarrow> 0 < snd (scale_down s c)"
proof (induction s c rule: scale_down.induct)
  case (1 semitones scale)
  show ?case
  proof (cases "semitones > 120")
    case True
    from 1(2) have "0 < scale * 1024" by simp
    from 1(1) [OF True this] True show ?thesis by (subst scale_down.simps) simp
  next
    case False
    with 1(2) show ?thesis by (subst scale_down.simps) simp
  qed
qed

lemma scale_up_pos: "0 < c \<Longrightarrow> 0 < snd (scale_up s c)"
proof (induction s c rule: scale_up.induct)
  case (1 semitones scale)
  show ?case
  proof (cases "semitones < - 120")
    case True
    from 1(2) have "0 < scale * (1 / 1024)" by simp
    from 1(1) [OF True this] True show ?thesis by (subst scale_up.simps) simp
  next
    case False
    with 1(2) show ?thesis by (subst scale_up.simps) simp
  qed
qed

lemma semitonesToRatioSafe_pos: "0 < semitonesToRatioSafe x"
proof -
  have "0 < snd (scale_down x 1)" by (rule scale_down_pos) simp
  then have "0 < snd (scale_up (fst (scale_down x 1)) (snd (scale_down x 1)))"
    by (rule scale_up_pos)
  then show ?thesis
    by (simp add: semitonesToRatioSafe_def split_beta semitonesToRatio_def)
qed

lemma frequencyRatio_pos: "0 < frequencyRatio op"
  by (simp add: frequencyRatio_def Let_def semitonesToRatioSafe_pos add_pos_nonneg)

lemma ratio_sign:
  "float32 ((if m = 0 then 1 else - 1) * frequencyRatio op) < 0 \<longleftrightarrow> m \<noteq> (0 :: nat)"
proof (cases "m = 0")
  case True
  with float32_pos [OF frequencyRatio_pos, of op] show ?thesis by simp
next
  case False
  have "- frequencyRatio op < 0" using frequencyRatio_pos [of op] by simp
  from float32_neg [OF this] False show ?thesis by simp
qed


lemma Voice_setup_algorithms:
  "vo_algorithms (snd (Voice_setup this)) = vo_algorithms this"
  "vo_a0 (snd (Voice_setup this)) = vo_a0 this"
  by (simp_all add: Voice_setup_def Let_def fold_setup_operator_frame del: fold.simps)

text \<open>
  Claim C4, amended. For a voice that is set up, \<^verbatim>\<open>renderInternal\<close> is its dispatch loop run
  on the array \<open>f\<close> that the operator loop has filled: for each of the six operators,
  \<open>f[i]\<close> is the product \<open>ratios[i] \<sqdot> (-oneHz)\<close> when \<open>ratios[i] < 0\<close>, which is the magnitude
  of the ratio times \<open>oneHz\<close>, and \<open>ratios[i] \<sqdot> f\<^sub>0\<close> otherwise, rounded to double precision
  and then to single precision by the store. Each call the dispatch loop makes hands
  the chain renderer the slice of \<open>f\<close> of its operators, and the renderer advances the
  phase of operator \<open>i + j\<close> once per output sample by
  \<^verbatim>\<open>(Math.min(f[i + j], 0.5) * 4294967296.0) >>> 0\<close>. After \<^verbatim>\<open>setup\<close> a ratio is negative
  exactly when its operator is in fixed-frequency mode, and in a voice as the
  constructor builds it \<^verbatim>\<open>oneHz\<close> is \<open>1 / sampleRate\<close> in double precision.
\<close>

theorem C4_operator_frequency:
  "(\<not> vo_dirty this \<and> p_algorithm (vo_patch this) < 32 \<longrightarrow>
      (\<exists>this1 f a.
         renderInternal lut this parameters buffers bsize mem
           = dispatch lut buffers f a 0 (this1, mem)
         \<and> length f = 6
         \<and> (\<forall>i<6.
               f ! i = float32 (double (vo_ratios this ! i
                         * (if vo_ratios this ! i < 0 then - vo_oneHz this
                            else voice_f0 this parameters bsize)))
               \<and> (vo_ratios this ! i < 0 \<longrightarrow>
                     f ! i = float32 (double (\<bar>vo_ratios this ! i\<bar> * vo_oneHz this))))
         \<and> vo_patch this1 = vo_patch this \<and> vo_algorithms this1 = vo_algorithms this
         \<and> vo_feedbackState this1 = vo_feedbackState this
         \<and> vo_operator this1 =
             (if pa_gate parameters \<and> \<not> vo_gate this \<and> p_resetPhase (vo_patch this) \<noteq> 0
              then map (\<lambda>opr. opr\<lparr>op_phase := 0\<rparr>) (vo_operator this)
              else vo_operator this)))
   \<and> (i < 6 \<and> renderCall (vo_algorithms v) (p_algorithm (vo_patch v)) i = Inr call
        \<and> 0 < rc_n call \<and> fst (rc_renderFn call) \<le> rc_n call
        \<and> i + rc_n call \<le> length (vo_operator v) \<and> i + rc_n call \<le> length g \<longrightarrow>
      (\<exists>ops1 fb' mem'.
         renderOperators (fst (rc_renderFn call)) (fst (snd (rc_renderFn call)))
             (snd (snd (rc_renderFn call))) lut
             (slice (vo_operator v) i (i + rc_n call)) (slice g i (i + rc_n call))
             (slice b i (i + rc_n call)) (vo_feedbackState v) (p_feedback (vo_patch v))
             (buffers ! rc_inputIndex call) (buffers ! rc_outputIndex call) mem
           = Inr (ops1, fb', mem')
         \<and> dispatch lut buffers g b i (v, mem) =
             dispatch lut buffers g b (i + rc_n call)
               (v\<lparr>vo_operator :=
                    take i (vo_operator v) @ ops1 @ drop (i + rc_n call) (vo_operator v),
                  vo_feedbackState := fb'\<rparr>, mem')
         \<and> length ops1 = rc_n call
         \<and> (\<forall>j<fst (rc_renderFn call).
               op_phase (ops1 ! j) =
                 accumulate (op_phase (vo_operator v ! (i + j)))
                   (replicate (v_length (buffers ! rc_outputIndex call))
                      (to_uint32 (min (g ! (i + j)) 0.5 * 4294967296))))
         \<and> (\<forall>j. fst (rc_renderFn call) \<le> j \<longrightarrow> j < rc_n call \<longrightarrow>
               ops1 ! j = vo_operator v ! (i + j))))
   \<and> (vo_dirty u \<and> k < 6 \<and> k < length (vo_ratios u) \<longrightarrow>
        (vo_ratios (snd (Voice_setup u)) ! k < 0 \<longleftrightarrow> po_mode (p_op (vo_patch u) ! k) \<noteq> 0))
   \<and> vo_oneHz (snd (Voice_setup (Voice_init algorithms patch sampleRate)))
        = double (1 / sampleRate)"
proof (intro conjI impI)
  assume h: "\<not> vo_dirty this \<and> p_algorithm (vo_patch this) < 32"
  then have clean: "\<not> vo_dirty this" and alg: "p_algorithm (vo_patch this) < 32" by simp_all
  from renderInternal_clean [OF clean alg, of lut parameters buffers bsize mem]
  obtain this1 f a where
    r: "renderInternal lut this parameters buffers bsize mem = dispatch lut buffers f a 0 (this1, mem)"
    and l: "length f = 6"
    and v: "\<forall>i<6. f ! i = float32 (double (vo_ratios this ! i
               * (if vo_ratios this ! i < 0 then - vo_oneHz this
                  else voice_f0 this parameters bsize)))"
    and fr: "vo_patch this1 = vo_patch this" "vo_algorithms this1 = vo_algorithms this"
      "vo_feedbackState this1 = vo_feedbackState this"
      "vo_operator this1 =
         (if pa_gate parameters \<and> \<not> vo_gate this \<and> p_resetPhase (vo_patch this) \<noteq> 0
          then map (\<lambda>opr. opr\<lparr>op_phase := 0\<rparr>) (vo_operator this) else vo_operator this)"
    by blast
  have "\<forall>i<6.
               f ! i = float32 (double (vo_ratios this ! i
                         * (if vo_ratios this ! i < 0 then - vo_oneHz this
                            else voice_f0 this parameters bsize)))
               \<and> (vo_ratios this ! i < 0 \<longrightarrow>
                     f ! i = float32 (double (\<bar>vo_ratios this ! i\<bar> * vo_oneHz this)))"
  proof (intro allI impI conjI)
    fix i :: nat assume i: "i < 6"
    from v i show e: "f ! i = float32 (double (vo_ratios this ! i
                         * (if vo_ratios this ! i < 0 then - vo_oneHz this
                            else voice_f0 this parameters bsize)))" by blast
    assume neg: "vo_ratios this ! i < 0"
    then have "vo_ratios this ! i * (if vo_ratios this ! i < 0 then - vo_oneHz this
                            else voice_f0 this parameters bsize)
        = \<bar>vo_ratios this ! i\<bar> * vo_oneHz this" by simp
    with e show "f ! i = float32 (double (\<bar>vo_ratios this ! i\<bar> * vo_oneHz this))"
      by (simp only:)
  qed
  with r l fr show "\<exists>this1 f a.
         renderInternal lut this parameters buffers bsize mem
           = dispatch lut buffers f a 0 (this1, mem)
         \<and> length f = 6
         \<and> (\<forall>i<6.
               f ! i = float32 (double (vo_ratios this ! i
                         * (if vo_ratios this ! i < 0 then - vo_oneHz this
                            else voice_f0 this parameters bsize)))
               \<and> (vo_ratios this ! i < 0 \<longrightarrow>
                     f ! i = float32 (double (\<bar>vo_ratios this ! i\<bar> * vo_oneHz this))))
         \<and> vo_patch this1 = vo_patch this \<and> vo_algorithms this1 = vo_algorithms this
         \<and> vo_feedbackState this1 = vo_feedbackState this
         \<and> vo_operator this1 =
             (if pa_gate parameters \<and> \<not> vo_gate this \<and> p_resetPhase (vo_patch this) \<noteq> 0
              then map (\<lambda>opr. opr\<lparr>op_phase := 0\<rparr>) (vo_operator this)
              else vo_operator this)"
    by blast
next
  assume "i < 6 \<and> renderCall (vo_algorithms v) (p_algorithm (vo_patch v)) i = Inr call
        \<and> 0 < rc_n call \<and> fst (rc_renderFn call) \<le> rc_n call
        \<and> i + rc_n call \<le> length (vo_operator v) \<and> i + rc_n call \<le> length g"
  then have "i < 6" "renderCall (vo_algorithms v) (p_algorithm (vo_patch v)) i = Inr call"
    "0 < rc_n call" "fst (rc_renderFn call) \<le> rc_n call"
    "i + rc_n call \<le> length (vo_operator v)" "i + rc_n call \<le> length g"
    by simp_all
  then show "\<exists>ops1 fb' mem'.
         renderOperators (fst (rc_renderFn call)) (fst (snd (rc_renderFn call)))
             (snd (snd (rc_renderFn call))) lut
             (slice (vo_operator v) i (i + rc_n call)) (slice g i (i + rc_n call))
             (slice b i (i + rc_n call)) (vo_feedbackState v) (p_feedback (vo_patch v))
             (buffers ! rc_inputIndex call) (buffers ! rc_outputIndex call) mem
           = Inr (ops1, fb', mem')
         \<and> dispatch lut buffers g b i (v, mem) =
             dispatch lut buffers g b (i + rc_n call)
               (v\<lparr>vo_operator :=
                    take i (vo_operator v) @ ops1 @ drop (i + rc_n call) (vo_operator v),
                  vo_feedbackState := fb'\<rparr>, mem')
         \<and> length ops1 = rc_n call
         \<and> (\<forall>j<fst (rc_renderFn call).
               op_phase (ops1 ! j) =
                 accumulate (op_phase (vo_operator v ! (i + j)))
                   (replicate (v_length (buffers ! rc_outputIndex call))
                      (to_uint32 (min (g ! (i + j)) 0.5 * 4294967296))))
         \<and> (\<forall>j. fst (rc_renderFn call) \<le> j \<longrightarrow> j < rc_n call \<longrightarrow>
               ops1 ! j = vo_operator v ! (i + j))"
    by (rule dispatch_step)
next
  assume "vo_dirty u \<and> k < 6 \<and> k < length (vo_ratios u)"
  then have d: "vo_dirty u" and k: "k < 6" "k < length (vo_ratios u)" by simp_all
  from Voice_setup_derived(1) [OF d k]
  show "vo_ratios (snd (Voice_setup u)) ! k < 0 \<longleftrightarrow> po_mode (p_op (vo_patch u) ! k) \<noteq> 0"
    by (simp only: ratio_sign)
next
  have d: "vo_dirty (Voice_init algorithms patch sampleRate)"
    by (simp add: Voice_init_def Let_def)
  from Voice_setup_dirty(11) [OF d]
  show "vo_oneHz (snd (Voice_setup (Voice_init algorithms patch sampleRate)))
        = double (1 / sampleRate)"
    by (simp add: Voice_init_def Let_def)
qed


lemma float32_minus_1: "float32 (- 1) = - 1"
  using float32_int [of "- 1"] by simp

lemma fixed_voice_ratio:
  assumes "p_op patch ! 0 = Patch_Operator_new\<lparr>po_mode := 1, po_detune := 7\<rparr>"
  shows "vo_ratios (snd (Voice_setup (Voice_init algorithms patch sampleRate))) ! 0 = - 1"
proof -
  let ?v0 = "Voice_init algorithms patch sampleRate"
  have d: "vo_dirty ?v0" and l: "0 < length (vo_ratios ?v0)" and p: "vo_patch ?v0 = patch"
    by (simp_all add: Voice_init_def Let_def NUM_OPERATORS_def)
  have "frequencyRatio (Patch_Operator_new\<lparr>po_mode := 1, po_detune := 7\<rparr>) = 1"
    by (rule frequencyRatio_fixed_1Hz) (simp_all add: Patch_Operator_new_def)
  with Voice_setup_derived(1) [OF d _ l] p assms show ?thesis
    by (simp add: float32_minus_1)
qed

text \<open>
  Claim C4, as stated, fails: it multiplies a negative ratio by \<open>1 / sampleRate\<close>, which
  is negative, where the code multiplies by \<open>-oneHz\<close>. At 44100 Hz, for a patch whose
  operators are in fixed mode at 1 Hz (ratio \<open>-1\<close> after \<^verbatim>\<open>setup\<close>), the operator loop
  stores a positive frequency for operator 0, the single-precision value of
  \<open>1 / 44100\<close>, and the claim's value is negative, whether it is rounded or not.
\<close>

theorem C4_counterexample:
  "let v = snd (Voice_setup (Voice_init \<lparr>al_renderCalls = []\<rparr>
             (Patch_new\<lparr>p_op := replicate 6 (Patch_Operator_new\<lparr>po_mode := 1, po_detune := 7\<rparr>)\<rparr>)
             44100))
   in vo_ratios v ! 0 < 0
      \<and> vo_ratios v ! 0 * (1 / vo_sampleRate v) < 0
      \<and> (case render_operator_levels Parameters_new 24 1 1 0 0 (1 / 1000) [0, 1, 2, 3, 4, 5]
                  (v, replicate 6 0, replicate 6 0) of
            Inl e \<Rightarrow> False
          | Inr (t, f, a) \<Rightarrow>
              0 < f ! 0
              \<and> f ! 0 \<noteq> vo_ratios v ! 0 * (1 / vo_sampleRate v)
              \<and> f ! 0 \<noteq> float32 (double (vo_ratios v ! 0 * double (1 / vo_sampleRate v))))"
proof -
  let ?p = "Patch_new\<lparr>p_op := replicate 6 (Patch_Operator_new\<lparr>po_mode := 1, po_detune := 7\<rparr>)\<rparr>"
  let ?u = "Voice_init \<lparr>al_renderCalls = []\<rparr> ?p 44100"
  let ?v = "snd (Voice_setup ?u)"
  have d: "vo_dirty ?u" and sr0: "vo_sampleRate ?u = 44100"
    and hz0: "vo_oneHz ?u = double (1 / 44100)" and p0: "vo_patch ?u = ?p"
    by (simp_all add: Voice_init_def Let_def)
  have r: "vo_ratios ?v ! 0 = - 1"
    by (rule fixed_voice_ratio) simp
  from Voice_setup_dirty(9,10,11) [OF d] sr0 hz0 p0
  have sr: "vo_sampleRate ?v = 44100" and hz: "vo_oneHz ?v = double (1 / 44100)"
    and pv: "vo_patch ?v = ?p"
    by simp_all
  have alg: "p_algorithm (vo_patch ?v) < 32" by (simp only: pv) (simp add: Patch_new_def)
  have pos: "0 < double (1 / 44100)" by (rule double_pos) simp
  from render_operator_levels_f [OF alg, of Parameters_new 24 1 1 0 0 "1 / 1000"
      "[0, 1, 2, 3, 4, 5]" "replicate 6 0" "replicate 6 0"]
  obtain t f a where
    e: "render_operator_levels Parameters_new 24 1 1 0 0 (1 / 1000) [0, 1, 2, 3, 4, 5]
          (?v, replicate 6 0, replicate 6 0) = Inr (t, f, a)"
    and v: "\<forall>i<length (replicate 6 (0 :: real)).
          f ! i = (if i \<in> set [0, 1, 2, 3, 4, 5] then operator_frequency ?v (1 / 1000) i
                   else replicate 6 0 ! i)"
    by blast
  from v have "f ! 0 = operator_frequency ?v (1 / 1000) 0" by simp
  with r hz have f0: "f ! 0 = float32 (double (1 / 44100))"
    by (simp add: operator_frequency_def double_idem)
  have fpos: "0 < f ! 0" unfolding f0 by (intro float32_pos pos)
  have "- double (1 / 44100) < 0" using pos by simp
  then have "float32 (double (- double (1 / 44100))) < 0" by (intro float32_neg double_neg)
  with fpos have ne: "f ! 0 \<noteq> float32 (double (- double (1 / 44100)))" by simp
  from fpos have ne': "f ! 0 \<noteq> - (1 / 44100)" by simp
  show ?thesis
    unfolding Let_def e using fpos ne ne' r sr by simp
qed

lemma row31:
  "compile_from (OPCODES_6 ! 31) 0 (replicate NUM_OPERATORS (RenderCall_new None 0 0 0)) =
     Inr [\<lparr>rc_renderFn = (1, 0, True), rc_n = 1, rc_inputIndex = 3, rc_outputIndex = 0\<rparr>,
          \<lparr>rc_renderFn = (1, - 1, True), rc_n = 1, rc_inputIndex = 0, rc_outputIndex = 0\<rparr>,
          \<lparr>rc_renderFn = (1, - 1, True), rc_n = 1, rc_inputIndex = 0, rc_outputIndex = 0\<rparr>,
          \<lparr>rc_renderFn = (1, - 1, True), rc_n = 1, rc_inputIndex = 0, rc_outputIndex = 0\<rparr>,
          \<lparr>rc_renderFn = (1, - 1, True), rc_n = 1, rc_inputIndex = 0, rc_outputIndex = 0\<rparr>,
          \<lparr>rc_renderFn = (1, - 1, True), rc_n = 1, rc_inputIndex = 0, rc_outputIndex = 0\<rparr>]"
  by code_simp

lemma to_uint32_eighth: "to_uint32 536870912 = 536870912"
  by (simp add: to_uint32_def js_trunc_def uint32_of_int_word_of_int)

theorem C4_witness:
  "let row = [\<lparr>rc_renderFn = (1, 0, True), rc_n = 1, rc_inputIndex = 3, rc_outputIndex = 0\<rparr>,
          \<lparr>rc_renderFn = (1, - 1, True), rc_n = 1, rc_inputIndex = 0, rc_outputIndex = 0\<rparr>,
          \<lparr>rc_renderFn = (1, - 1, True), rc_n = 1, rc_inputIndex = 0, rc_outputIndex = 0\<rparr>,
          \<lparr>rc_renderFn = (1, - 1, True), rc_n = 1, rc_inputIndex = 0, rc_outputIndex = 0\<rparr>,
          \<lparr>rc_renderFn = (1, - 1, True), rc_n = 1, rc_inputIndex = 0, rc_outputIndex = 0\<rparr>,
          \<lparr>rc_renderFn = (1, - 1, True), rc_n = 1, rc_inputIndex = 0, rc_outputIndex = 0\<rparr>];
       algs = \<lparr>al_renderCalls =
                (replicate 32 (replicate 6 (RenderCall_new None 0 0 0)))[31 := row]\<rparr>;
       patch = Patch_new\<lparr>p_op := replicate 6 (Patch_Operator_new\<lparr>po_mode := 1, po_detune := 7\<rparr>)\<rparr>;
       u = Voice_init algs patch 44100;
       v = snd (Voice_setup u);
       buffers = [\<lparr>v_array = 0, v_begin = 0, v_length = 3\<rparr>,
                  \<lparr>v_array = 0, v_begin = 3, v_length = 3\<rparr>,
                  \<lparr>v_array = 0, v_begin = 6, v_length = 3\<rparr>,
                  \<lparr>v_array = 0, v_begin = 9, v_length = 3\<rparr>];
       mem = [replicate 12 0]
   in compile \<lparr>al_renderCalls =
          replicate NUM_ALGORITHMS (replicate NUM_OPERATORS (RenderCall_new None 0 0 0))\<rparr> 31
        = Inr algs
      \<and> \<not> vo_dirty v \<and> p_algorithm (vo_patch v) < 32
      \<and> (\<exists>this1 f a.
            renderInternal LUT_SINE v Parameters_new buffers 3 mem
              = dispatch LUT_SINE buffers f a 0 (this1, mem)
            \<and> f ! 0 = float32 (double (1 / 44100)))
      \<and> renderCall (vo_algorithms v) (p_algorithm (vo_patch v)) 0 = Inr (row ! 0)
      \<and> length (vo_operator v) = 6
      \<and> (\<exists>ops1 fb' mem'.
            renderOperators 1 0 True LUT_SINE
                (slice (vo_operator v) 0 1) (slice (replicate 6 (1 / 8)) 0 1)
                (slice (replicate 6 0) 0 1) (vo_feedbackState v) (p_feedback (vo_patch v))
                (buffers ! 3) (buffers ! 0) mem
              = Inr (ops1, fb', mem')
            \<and> op_phase (ops1 ! 0) = 1610612736)
      \<and> vo_dirty u \<and> vo_ratios v ! 0 < 0 \<and> po_mode (p_op (vo_patch u) ! 0) \<noteq> 0
      \<and> vo_oneHz v = double (1 / 44100)"
proof -
  let ?row = "[\<lparr>rc_renderFn = (1, 0, True), rc_n = 1, rc_inputIndex = 3, rc_outputIndex = 0\<rparr>,
          \<lparr>rc_renderFn = (1, - 1, True), rc_n = 1, rc_inputIndex = 0, rc_outputIndex = 0\<rparr>,
          \<lparr>rc_renderFn = (1, - 1, True), rc_n = 1, rc_inputIndex = 0, rc_outputIndex = 0\<rparr>,
          \<lparr>rc_renderFn = (1, - 1, True), rc_n = 1, rc_inputIndex = 0, rc_outputIndex = 0\<rparr>,
          \<lparr>rc_renderFn = (1, - 1, True), rc_n = 1, rc_inputIndex = 0, rc_outputIndex = 0\<rparr>,
          \<lparr>rc_renderFn = (1, - 1, True), rc_n = 1, rc_inputIndex = 0, rc_outputIndex = 0\<rparr>]"
  let ?algs = "\<lparr>al_renderCalls =
                (replicate 32 (replicate 6 (RenderCall_new None 0 0 0)))[31 := ?row]\<rparr>"
  let ?patch = "Patch_new\<lparr>p_op := replicate 6 (Patch_Operator_new\<lparr>po_mode := 1, po_detune := 7\<rparr>)\<rparr>"
  let ?u = "Voice_init ?algs ?patch 44100"
  let ?v = "snd (Voice_setup ?u)"
  let ?buffers = "[\<lparr>v_array = 0, v_begin = 0, v_length = 3\<rparr>,
                  \<lparr>v_array = 0, v_begin = 3, v_length = 3\<rparr>,
                  \<lparr>v_array = 0, v_begin = 6, v_length = 3\<rparr>,
                  \<lparr>v_array = 0, v_begin = 9, v_length = 3\<rparr>]"
  let ?mem = "[replicate 12 (0 :: real)]"
  let ?call = "\<lparr>rc_renderFn = (1, 0, True), rc_n = 1, rc_inputIndex = 3, rc_outputIndex = 0\<rparr>"
  have c: "compile \<lparr>al_renderCalls =
          replicate NUM_ALGORITHMS (replicate NUM_OPERATORS (RenderCall_new None 0 0 0))\<rparr> 31
        = Inr ?algs"
    by (simp add: compile_def length_OPCODES_6 NUM_ALGORITHMS_def row31)
       (simp add: NUM_OPERATORS_def)
  have d: "vo_dirty ?u" and o0: "vo_operator ?u = replicate 6 (Operator_reset Operator_new)"
    and p0: "vo_patch ?u = ?patch" and a0: "vo_algorithms ?u = ?algs"
    and hz0: "vo_oneHz ?u = double (1 / 44100)" and l0: "0 < length (vo_ratios ?u)"
    by (simp_all add: Voice_init_def Let_def NUM_OPERATORS_def)
  from Voice_setup_dirty(2,3,9,11) [OF d] o0 p0 hz0
  have clean: "\<not> vo_dirty ?v" and ov: "vo_operator ?v = replicate 6 (Operator_reset Operator_new)"
    and pv: "vo_patch ?v = ?patch" and hz: "vo_oneHz ?v = double (1 / 44100)"
    by simp_all
  have av: "vo_algorithms ?v = ?algs" by (simp only: Voice_setup_algorithms a0)
  have alg: "p_algorithm (vo_patch ?v) = 31" by (simp only: pv) (simp add: Patch_new_def)
  have r: "vo_ratios ?v ! 0 = - 1" by (rule fixed_voice_ratio) simp
  have rc: "renderCall (vo_algorithms ?v) (p_algorithm (vo_patch ?v)) 0 = Inr ?call"
    using av alg by (simp add: renderCall_def)
  have lo: "length (vo_operator ?v) = 6" using ov by simp
  have ph0: "op_phase (vo_operator ?v ! 0) = 0"
    using ov by (simp add: Operator_reset_def Operator_new_def)
  have mode: "po_mode (p_op (vo_patch ?u) ! 0) \<noteq> 0" using p0 by simp
  note inst = C4_operator_frequency [of ?v LUT_SINE Parameters_new ?buffers 3 ?mem 0 ?v ?call
      "replicate 6 (1 / 8)" "replicate 6 0" ?u 0 ?algs ?patch 44100]
  note c1 = inst [THEN conjunct1, rule_format]
  note c2 = inst [THEN conjunct2, THEN conjunct1, rule_format]
  note c3 = inst [THEN conjunct2, THEN conjunct2, THEN conjunct1, rule_format]
  note c4 = inst [THEN conjunct2, THEN conjunct2, THEN conjunct2]
  have h1: "\<not> vo_dirty ?v \<and> p_algorithm (vo_patch ?v) < 32" using clean alg by simp
  from c1 [OF h1] obtain this1 f a where
    ri: "renderInternal LUT_SINE ?v Parameters_new ?buffers 3 ?mem
              = dispatch LUT_SINE ?buffers f a 0 (this1, ?mem)"
    and f: "\<forall>i<6. f ! i = float32 (double (vo_ratios ?v ! i
                         * (if vo_ratios ?v ! i < 0 then - vo_oneHz ?v
                            else voice_f0 ?v Parameters_new 3)))
               \<and> (vo_ratios ?v ! i < 0 \<longrightarrow>
                     f ! i = float32 (double (\<bar>vo_ratios ?v ! i\<bar> * vo_oneHz ?v)))"
    by blast
  from f have "f ! 0 = float32 (double (vo_ratios ?v ! 0
                         * (if vo_ratios ?v ! 0 < 0 then - vo_oneHz ?v
                            else voice_f0 ?v Parameters_new 3)))" by simp
  with r hz have "f ! 0 = float32 (double (1 / 44100))"
    by (simp add: double_idem)
  with ri have one: "\<exists>this1 f a.
            renderInternal LUT_SINE ?v Parameters_new ?buffers 3 ?mem
              = dispatch LUT_SINE ?buffers f a 0 (this1, ?mem)
            \<and> f ! 0 = float32 (double (1 / 44100))"
    by blast
  have h2: "0 < (6 :: nat) \<and> renderCall (vo_algorithms ?v) (p_algorithm (vo_patch ?v)) 0 = Inr ?call
        \<and> 0 < rc_n ?call \<and> fst (rc_renderFn ?call) \<le> rc_n ?call
        \<and> 0 + rc_n ?call \<le> length (vo_operator ?v)
        \<and> 0 + rc_n ?call \<le> length (replicate 6 (1 / 8 :: real))"
    using rc lo by simp
  from c2 [OF h2] obtain ops1 fb' mem' where
    ro: "renderOperators (fst (rc_renderFn ?call)) (fst (snd (rc_renderFn ?call)))
             (snd (snd (rc_renderFn ?call))) LUT_SINE
             (slice (vo_operator ?v) 0 (0 + rc_n ?call)) (slice (replicate 6 (1 / 8)) 0 (0 + rc_n ?call))
             (slice (replicate 6 0) 0 (0 + rc_n ?call)) (vo_feedbackState ?v) (p_feedback (vo_patch ?v))
             (?buffers ! rc_inputIndex ?call) (?buffers ! rc_outputIndex ?call) ?mem
           = Inr (ops1, fb', mem')"
    and ph: "\<forall>j<fst (rc_renderFn ?call).
               op_phase (ops1 ! j) =
                 accumulate (op_phase (vo_operator ?v ! (0 + j)))
                   (replicate (v_length (?buffers ! rc_outputIndex ?call))
                      (to_uint32 (min (replicate 6 (1 / 8) ! (0 + j)) 0.5 * 4294967296)))"
    by blast
  from ph ph0 have "op_phase (ops1 ! 0) = 1610612736"
    by (simp add: to_uint32_eighth accumulate_def phase_advance_plus numeral_3_eq_3)
  with ro have two: "\<exists>ops1 fb' mem'.
            renderOperators 1 0 True LUT_SINE
                (slice (vo_operator ?v) 0 1) (slice (replicate 6 (1 / 8)) 0 1)
                (slice (replicate 6 0) 0 1) (vo_feedbackState ?v) (p_feedback (vo_patch ?v))
                (?buffers ! 3) (?buffers ! 0) ?mem
              = Inr (ops1, fb', mem')
            \<and> op_phase (ops1 ! 0) = 1610612736"
    by (intro exI [of _ ops1] exI [of _ fb'] exI [of _ mem']) simp
  have h3: "vo_dirty ?u \<and> (0 :: nat) < 6 \<and> 0 < length (vo_ratios ?u)" using d l0 by simp
  from c3 [OF h3] mode have neg: "vo_ratios ?v ! 0 < 0" by simp
  from c4 have hz': "vo_oneHz ?v = double (1 / 44100)" by simp
  have rc': "renderCall (vo_algorithms ?v) (p_algorithm (vo_patch ?v)) 0 = Inr (?row ! 0)"
    using rc by simp
  have alg': "p_algorithm (vo_patch ?v) < 32" using alg by simp
  from c clean alg' one rc' lo two d neg mode hz' show ?thesis
    unfolding Let_def by (intro conjI)
qed


subsection \<open>Rendering a dirty voice\<close>






subsection \<open>Block rendering and the random generator\<close>

lemma Lfo_eq_but_random:
  "l1\<lparr>l_randomValue := 0\<rparr> = l2\<lparr>l_randomValue := 0\<rparr> \<longleftrightarrow>
   l_phase l1 = l_phase l2 \<and> l_frequency l1 = l_frequency l2 \<and> l_delayPhase l1 = l_delayPhase l2
   \<and> l_delayIncrement l1 = l_delayIncrement l2 \<and> l_value l1 = l_value l2
   \<and> l_oneHz l1 = l_oneHz l2 \<and> l_ampModDepth l1 = l_ampModDepth l2
   \<and> l_pitchModDepth l1 = l_pitchModDepth l2 \<and> l_waveform l1 = l_waveform l2
   \<and> l_resetPhase l1 = l_resetPhase l2 \<and> l_phaseIntegral l1 = l_phaseIntegral l2
   \<and> Lfo.more l1 = Lfo.more l2"
  by (cases l1, cases l2) auto

lemma step_same_but_random:
  assumes "l1\<lparr>l_randomValue := 0\<rparr> = l2\<lparr>l_randomValue := 0\<rparr>" "l_waveform l1 \<noteq> SAndH"
  shows "(step lut g1 l1 scale)\<lparr>l_randomValue := 0\<rparr> = (step lut g2 l2 scale)\<lparr>l_randomValue := 0\<rparr>"
  using assms unfolding Lfo_eq_but_random
  by (auto simp: step_def Let_def Lfo_value_def split: Waveform.splits)

lemma step_waveform: "l_waveform (step lut g l scale) = l_waveform l"
  by (simp add: step_def Let_def)

lemma outputs_same_but_random:
  "l1\<lparr>l_randomValue := 0\<rparr> = l2\<lparr>l_randomValue := 0\<rparr> \<Longrightarrow>
   pitchMod l1 = pitchMod l2 \<and> ampMod l1 = ampMod l2"
  unfolding Lfo_eq_but_random by (simp add: pitchMod_def ampMod_def delayRamp_def)

lemma lfo_run_independent:
  "l1\<lparr>l_randomValue := 0\<rparr> = l2\<lparr>l_randomValue := 0\<rparr> \<Longrightarrow> l_waveform l1 \<noteq> SAndH \<Longrightarrow>
   map snd blocks1 = map snd blocks2 \<Longrightarrow> lfo_run lut l1 blocks1 = lfo_run lut l2 blocks2"
proof (induction blocks1 arbitrary: l1 l2 blocks2)
  case Nil
  then show ?case by simp
next
  case (Cons b bs)
  then obtain g2 sc bs2 where b2: "blocks2 = (g2, sc) # bs2" "snd b = sc" "map snd bs = map snd bs2"
    by (cases blocks2) auto
  obtain g1 where b: "b = (g1, sc)" using b2(2) by (cases b) auto
  from step_same_but_random [OF Cons.prems(1,2), of lut g1 sc g2]
  have s: "(step lut g1 l1 sc)\<lparr>l_randomValue := 0\<rparr> = (step lut g2 l2 sc)\<lparr>l_randomValue := 0\<rparr>" .
  from Cons.prems(2) have w: "l_waveform (step lut g1 l1 sc) \<noteq> SAndH"
    by (simp add: step_waveform)
  from Cons.IH [OF s w b2(3)] outputs_same_but_random [OF s] b b2(1)
  show ?case by (simp add: Let_def)
qed









end
